(* ===== verification/NacPrelude.thy ===== *)
theory NacPrelude
  imports Main "HOL-Library.Word"
begin

text \<open>
  Shared vocabulary of the development: the outcome of a Rust computation (a value, an error value
  or a panic), checked reads of byte slices, the address types of the standard library, and the
  functions of \<^verbatim>\<open>str\<close>, \<^verbatim>\<open>u8\<close> and \<^verbatim>\<open>String\<close> that the
  services call. Strings are lists of bytes (\<^typ>\<open>char list\<close>), as Rust stores them; the case
  and white-space functions are those of the ASCII range, which is what the services' identifiers
  (addresses, actions, states) are made of.
\<close>

section \<open>Outcomes\<close>

type_synonym u8 = "8 word"
type_synonym u16 = "16 word"
type_synonym u32 = "32 word"
type_synonym bytes = "8 word list"

lemma unat_u8_less [simp]: "unat (b :: u8) < 256"
proof -
  have "unat b < 2 ^ LENGTH(8)" by (rule unsigned_less)
  then show ?thesis by simp
qed

lemma unat_u16_less [simp]: "unat (b :: u16) < 65536"
proof -
  have "unat b < 2 ^ LENGTH(16)" by (rule unsigned_less)
  then show ?thesis by simp
qed

lemma unat_u32_less [simp]: "unat (b :: u32) < 4294967296"
proof -
  have "unat b < 2 ^ LENGTH(32)" by (rule unsigned_less)
  then show ?thesis by simp
qed

text \<open>
  A function that returns \<^verbatim>\<open>Result<T, E>\<close> and may panic has three outcomes.
\<close>

datatype ('e, 'a) rust = Ok 'a | Err 'e | Panic

fun rbind :: "('e, 'a) rust \<Rightarrow> ('a \<Rightarrow> ('e, 'b) rust) \<Rightarrow> ('e, 'b) rust" where
  "rbind (Ok x) k = k x"
| "rbind (Err e) k = Err e"
| "rbind Panic k = Panic"

text \<open>The congruence rule lets a loop call itself under \<^term>\<open>rbind\<close>.\<close>

lemma rbind_cong [fundef_cong]:
  "m = m' \<Longrightarrow> (\<And>x. m' = Ok x \<Longrightarrow> k x = k' x) \<Longrightarrow> rbind m k = rbind m' k'"
  by (cases m') auto

lemma rbind_Ok_iff: "rbind m k = Ok y \<longleftrightarrow> (\<exists>x. m = Ok x \<and> k x = Ok y)"
  by (cases m) auto

lemma rbind_Err_iff: "rbind m k = Err e \<longleftrightarrow> m = Err e \<or> (\<exists>x. m = Ok x \<and> k x = Err e)"
  by (cases m) auto

lemma rbind_Panic_iff: "rbind m k = Panic \<longleftrightarrow> m = Panic \<or> (\<exists>x. m = Ok x \<and> k x = Panic)"
  by (cases m) auto

lemma rbind_assoc: "rbind (rbind m f) g = rbind m (\<lambda>x. rbind (f x) g)"
  by (cases m) auto

definition runwrap_or :: "'a \<Rightarrow> 'a option \<Rightarrow> 'a" where
  "runwrap_or d x = (case x of None \<Rightarrow> d | Some y \<Rightarrow> y)"

lemma runwrap_or_simps [simp]: "runwrap_or d None = d" "runwrap_or d (Some y) = y"
  by (simp_all add: runwrap_or_def)

text \<open>\<^verbatim>\<open>Option::or\<close> and \<^verbatim>\<open>Option::or_else\<close>: the first value present.\<close>

fun opt_or :: "'a option \<Rightarrow> 'a option \<Rightarrow> 'a option" where
  "opt_or (Some x) y = Some x"
| "opt_or None y = y"

lemma opt_or_None_right [simp]: "opt_or x None = x"
  by (cases x) auto

lemma opt_or_assoc: "opt_or (opt_or x y) z = opt_or x (opt_or y z)"
  by (cases x) auto

lemma opt_or_eq_None [simp]: "opt_or x y = None \<longleftrightarrow> x = None \<and> y = None"
  by (cases x) auto

lemma opt_or_eq_Some: "opt_or x y = Some z \<longleftrightarrow> x = Some z \<or> (x = None \<and> y = Some z)"
  by (cases x) auto

section \<open>Checked reads\<close>

text \<open>
  \<^verbatim>\<open>xs[i]\<close> and \<^verbatim>\<open>&xs[a..b]\<close> panic out of range; a read in the model
  says so.
\<close>

definition ridx :: "'a list \<Rightarrow> nat \<Rightarrow> ('e, 'a) rust" where
  "ridx xs i = (if i < length xs then Ok (xs ! i) else Panic)"

definition rslice :: "'a list \<Rightarrow> nat \<Rightarrow> nat \<Rightarrow> ('e, 'a list) rust" where
  "rslice xs a b = (if a \<le> b \<and> b \<le> length xs then Ok (take (b - a) (drop a xs)) else Panic)"

lemma ridx_Ok [simp]: "i < length xs \<Longrightarrow> ridx xs i = Ok (xs ! i)"
  by (simp add: ridx_def)

lemma rslice_Ok [simp]:
  "a \<le> b \<Longrightarrow> b \<le> length xs \<Longrightarrow> rslice xs a b = Ok (take (b - a) (drop a xs))"
  by (simp add: rslice_def)

lemma ridx_not_Err [simp]: "ridx xs i \<noteq> Err e"
  by (simp add: ridx_def)

lemma rslice_not_Err [simp]: "rslice xs a b \<noteq> Err e"
  by (simp add: rslice_def)

lemma ridx_Panic_iff [simp]: "ridx xs i = Panic \<longleftrightarrow> length xs \<le> i"
  by (auto simp: ridx_def)

lemma ridx_OkD: "ridx xs i = Ok x \<Longrightarrow> i < length xs \<and> x = xs ! i"
  by (simp add: ridx_def split: if_splits)

lemma rslice_OkD: "rslice xs a b = Ok ys \<Longrightarrow> a \<le> b \<and> b \<le> length xs \<and> ys = take (b - a) (drop a xs)"
  by (simp add: rslice_def split: if_splits)

text \<open>Reads at an offset into the second part of a concatenation.\<close>

lemma nth_append_offset: "length xs \<le> i \<Longrightarrow> (xs @ ys) ! i = ys ! (i - length xs)"
  by (simp add: nth_append)

lemma slice_append_offset:
  "length xs \<le> a \<Longrightarrow> take n (drop a (xs @ ys)) = take n (drop (a - length xs) ys)"
  by simp

text \<open>\<^verbatim>\<open>xs.chunks(n)\<close>: consecutive slices of \<open>n\<close> elements, the last one shorter when the length is no multiple.\<close>

function chunks :: "nat \<Rightarrow> 'a list \<Rightarrow> 'a list list" where
  "chunks n xs = (if xs = [] \<or> n = 0 then [] else take n xs # chunks n (drop n xs))"
  by pat_completeness auto
termination
  by (relation "measure (\<lambda>(n, xs). length xs)") auto

declare chunks.simps [simp del]

lemma chunks_concat: "\<forall>b \<in> set bs. length b = n \<Longrightarrow> 0 < n \<Longrightarrow> chunks n (concat bs) = bs"
proof (induction bs)
  case Nil
  show ?case by (subst chunks.simps) simp
next
  case (Cons b bs)
  then show ?case by (subst chunks.simps) auto
qed

lemma concat_slices: "concat (map (\<lambda>i. take k (drop (i * k) xs)) [0..<n]) = take (n * k) xs"
  by (induction n) (simp_all add: add.commute flip: take_add)

section \<open>Big-endian integers\<close>

text \<open>
  \<^verbatim>\<open>u16::from_be_bytes\<close>, \<^verbatim>\<open>u32::from_be_bytes\<close>, \<^verbatim>\<open>to_be_bytes\<close>
  and \<^verbatim>\<open>u32::to_le_bytes\<close>.
\<close>

definition u16_from_be :: "u8 \<Rightarrow> u8 \<Rightarrow> u16" where
  "u16_from_be a b = of_nat (unat a * 256 + unat b)"

definition u16_to_be :: "u16 \<Rightarrow> bytes" where
  "u16_to_be w = [of_nat (unat w div 256), of_nat (unat w mod 256)]"

definition u32_from_be :: "u8 \<Rightarrow> u8 \<Rightarrow> u8 \<Rightarrow> u8 \<Rightarrow> u32" where
  "u32_from_be a b c d = of_nat (((unat a * 256 + unat b) * 256 + unat c) * 256 + unat d)"

definition u32_to_be :: "u32 \<Rightarrow> bytes" where
  "u32_to_be w =
     (let n = unat w in
      [of_nat (n div 256 div 256 div 256), of_nat (n div 256 div 256 mod 256),
       of_nat (n div 256 mod 256), of_nat (n mod 256)])"

definition u32_to_le :: "u32 \<Rightarrow> bytes" where
  "u32_to_le w = rev (u32_to_be w)"

lemma unat_of_nat_u8 [simp]: "n < 256 \<Longrightarrow> unat (of_nat n :: u8) = n"
  by (simp add: unat_of_nat take_bit_nat_eq_self)

lemma unat_of_nat_u16 [simp]: "n < 65536 \<Longrightarrow> unat (of_nat n :: u16) = n"
  by (simp add: unat_of_nat take_bit_nat_eq_self)

lemma unat_of_nat_u32 [simp]: "n < 4294967296 \<Longrightarrow> unat (of_nat n :: u32) = n"
  by (simp add: unat_of_nat take_bit_nat_eq_self)

lemma be_step: "m < k \<Longrightarrow> (d :: nat) < 256 \<Longrightarrow> m * 256 + d < k * 256"
proof -
  assume "m < k" "d < 256"
  then have "Suc m * 256 \<le> k * 256" by (intro mult_le_mono1) simp
  with \<open>d < 256\<close> show ?thesis by simp
qed

lemma be_div_mod [simp]:
  "(d :: nat) < 256 \<Longrightarrow> (m * 256 + d) div 256 = m"
  "d < 256 \<Longrightarrow> (m * 256 + d) mod 256 = d"
  by simp_all

lemma unat_u16_from_be [simp]: "unat (u16_from_be a b) = unat a * 256 + unat b"
proof -
  have "unat a * 256 + unat b < 65536"
    using be_step [OF unat_u8_less unat_u8_less] by simp
  then show ?thesis by (simp add: u16_from_be_def del: of_nat_add of_nat_mult)
qed

lemma unat_u32_from_be [simp]:
  "unat (u32_from_be a b c d) = ((unat a * 256 + unat b) * 256 + unat c) * 256 + unat d"
proof -
  have "((unat a * 256 + unat b) * 256 + unat c) * 256 + unat d < 256 * 256 * 256 * 256"
    by (intro be_step unat_u8_less)
  then show ?thesis by (simp add: u32_from_be_def del: of_nat_add of_nat_mult)
qed

lemma length_u16_to_be [simp]: "length (u16_to_be w) = 2"
  by (simp add: u16_to_be_def)

lemma length_u32_to_be [simp]: "length (u32_to_be w) = 4"
  by (simp add: u32_to_be_def Let_def)

lemma u16_from_to_be: "u16_to_be w = [a, b] \<Longrightarrow> u16_from_be a b = w"
proof -
  assume ab: "u16_to_be w = [a, b]"
  have "unat w div 256 < 256"
    by (rule less_mult_imp_div_less) simp
  with ab have "unat a = unat w div 256" "unat b = unat w mod 256"
    by (auto simp: u16_to_be_def)
  then show ?thesis by (simp add: word_unat_eq_iff)
qed

lemma u32_from_to_be: "u32_to_be w = [a, b, c, d] \<Longrightarrow> u32_from_be a b c d = w"
proof -
  assume abcd: "u32_to_be w = [a, b, c, d]"
  have "unat w div 256 div 256 div 256 < 256"
    by (intro less_mult_imp_div_less) simp
  with abcd have "unat a = unat w div 256 div 256 div 256"
      "unat b = unat w div 256 div 256 mod 256"
      "unat c = unat w div 256 mod 256" "unat d = unat w mod 256"
    by (auto simp: u32_to_be_def Let_def)
  then have "unat (u32_from_be a b c d) = unat w"
    by (simp only: unat_u32_from_be div_mult_mod_eq)
  then show ?thesis by (simp only: word_unat_eq_iff)
qed

lemma u32_to_from_be [simp]: "u32_to_be (u32_from_be a b c d) = [a, b, c, d]"
  by (simp only: u32_to_be_def Let_def unat_u32_from_be be_div_mod unat_u8_less) simp

lemma u16_from_be_eq_iff: "u16_from_be a b = w \<longleftrightarrow> unat a * 256 + unat b = unat w"
  by (simp add: word_unat_eq_iff)

end
