(* ===== verification/NacText.thy ===== *)
theory NacText
  imports NacPrelude
begin

text \<open>
  The string functions of the Rust standard library that the services use, on byte strings, with
  the lemmas the components share: ASCII case, hexadecimal and decimal text, splitting and joining,
  lines and words, prefixes, substrings, replacement, and UTF-8 validity.
\<close>

named_theorems text_simps "unfolding of the character classes"

section \<open>Characters\<close>

definition ccode :: "char \<Rightarrow> nat" where
  "ccode c = of_char c"

definition is_upper_ascii :: "char \<Rightarrow> bool" where
  "is_upper_ascii c \<longleftrightarrow> 65 \<le> ccode c \<and> ccode c \<le> 90"

definition is_lower_ascii :: "char \<Rightarrow> bool" where
  "is_lower_ascii c \<longleftrightarrow> 97 \<le> ccode c \<and> ccode c \<le> 122"

definition is_digit_ascii :: "char \<Rightarrow> bool" where
  "is_digit_ascii c \<longleftrightarrow> 48 \<le> ccode c \<and> ccode c \<le> 57"

definition is_ascii_hexdigit :: "char \<Rightarrow> bool" where
  "is_ascii_hexdigit c \<longleftrightarrow>
     is_digit_ascii c \<or> (65 \<le> ccode c \<and> ccode c \<le> 70) \<or> (97 \<le> ccode c \<and> ccode c \<le> 102)"

definition is_space :: "char \<Rightarrow> bool" where
  "is_space c \<longleftrightarrow> ccode c = 32 \<or> (9 \<le> ccode c \<and> ccode c \<le> 13)"

definition lower_char :: "char \<Rightarrow> char" where
  "lower_char c = (if is_upper_ascii c then char_of (ccode c + 32) else c)"

definition upper_char :: "char \<Rightarrow> char" where
  "upper_char c = (if is_lower_ascii c then char_of (ccode c - 32) else c)"

abbreviation to_lowercase :: "string \<Rightarrow> string" where
  "to_lowercase \<equiv> map lower_char"

abbreviation to_uppercase :: "string \<Rightarrow> string" where
  "to_uppercase \<equiv> map upper_char"

lemmas char_class_defs [text_simps] =
  ccode_def is_upper_ascii_def is_lower_ascii_def is_digit_ascii_def is_ascii_hexdigit_def
  is_space_def lower_char_def upper_char_def

lemma ccode_less_256 [simp]: "ccode c < 256"
  by (simp add: ccode_def)

lemma ccode_char_of [simp]: "ccode (char_of n) = n mod 256"
  by (simp add: ccode_def)

lemma ccode_inject [simp]: "ccode c = ccode d \<longleftrightarrow> c = d"
  by (simp add: ccode_def)

lemma ccode_lower_char:
  "ccode (lower_char c) = (if is_upper_ascii c then ccode c + 32 else ccode c)"
  by (auto simp: lower_char_def is_upper_ascii_def)

lemma ccode_upper_char:
  "ccode (upper_char c) = (if is_lower_ascii c then ccode c - 32 else ccode c)"
  by (auto simp: upper_char_def is_lower_ascii_def)

lemma lower_char_idem [simp]: "lower_char (lower_char c) = lower_char c"
  by (subst ccode_inject [symmetric]) (auto simp: ccode_lower_char is_upper_ascii_def)

lemma upper_char_idem [simp]: "upper_char (upper_char c) = upper_char c"
  by (subst ccode_inject [symmetric]) (auto simp: ccode_upper_char is_lower_ascii_def)

lemma upper_lower_char [simp]: "upper_char (lower_char c) = upper_char c"
  by (subst ccode_inject [symmetric])
     (auto simp: ccode_upper_char ccode_lower_char is_lower_ascii_def is_upper_ascii_def)

lemma lower_upper_char [simp]: "lower_char (upper_char c) = lower_char c"
  by (subst ccode_inject [symmetric])
     (auto simp: ccode_upper_char ccode_lower_char is_lower_ascii_def is_upper_ascii_def)

lemma hexdigit_lower_char [simp]: "is_ascii_hexdigit (lower_char c) = is_ascii_hexdigit c"
  by (auto simp: is_ascii_hexdigit_def is_digit_ascii_def ccode_lower_char is_upper_ascii_def)

lemma hexdigit_upper_char [simp]: "is_ascii_hexdigit (upper_char c) = is_ascii_hexdigit c"
  by (auto simp: is_ascii_hexdigit_def is_digit_ascii_def ccode_upper_char is_lower_ascii_def)

lemma upper_eq_iff_lower_eq: "to_uppercase s = to_uppercase t \<longleftrightarrow> to_lowercase s = to_lowercase t"
proof
  assume "to_uppercase s = to_uppercase t"
  then have "to_lowercase (to_uppercase s) = to_lowercase (to_uppercase t)" by simp
  then show "to_lowercase s = to_lowercase t" by (simp add: comp_def)
next
  assume "to_lowercase s = to_lowercase t"
  then have "to_uppercase (to_lowercase s) = to_uppercase (to_lowercase t)" by simp
  then show "to_uppercase s = to_uppercase t" by (simp add: comp_def)
qed

text \<open>\<^verbatim>\<open>str::eq_ignore_ascii_case\<close>.\<close>

definition eq_ignore_ascii_case :: "string \<Rightarrow> string \<Rightarrow> bool" where
  "eq_ignore_ascii_case s t \<longleftrightarrow> to_lowercase s = to_lowercase t"

text \<open>\<^verbatim>\<open>as_bytes\<close> and its inverse on byte strings.\<close>

definition as_bytes :: "string \<Rightarrow> bytes" where
  "as_bytes s = map of_char s"

definition string_of_bytes :: "bytes \<Rightarrow> string" where
  "string_of_bytes bs = map (\<lambda>b. char_of (unat b)) bs"

lemma unat_of_char [simp]: "unat (of_char c :: u8) = ccode c"
proof -
  have "(of_char c :: u8) = of_nat (ccode c)"
    by (cases c) (simp add: ccode_def)
  then show ?thesis
    using ccode_less_256 [of c] by (simp add: unat_of_nat take_bit_nat_eq_self)
qed

lemma char_of_ccode [simp]: "char_of (ccode c) = c"
  by (simp add: ccode_def)

lemma string_of_as_bytes [simp]: "string_of_bytes (as_bytes s) = s"
  by (simp add: string_of_bytes_def as_bytes_def comp_def)

lemma as_bytes_string_of [simp]: "as_bytes (string_of_bytes bs) = bs"
proof -
  have "(of_char (char_of (unat b)) :: u8) = b" for b :: u8
  proof -
    have "unat (of_char (char_of (unat b)) :: u8) = unat b"
      by simp
    then show ?thesis by (simp only: word_unat_eq_iff)
  qed
  then show ?thesis by (simp add: string_of_bytes_def as_bytes_def comp_def)
qed

lemma length_as_bytes [simp]: "length (as_bytes s) = length s"
  by (simp add: as_bytes_def)

lemma length_string_of_bytes [simp]: "length (string_of_bytes bs) = length bs"
  by (simp add: string_of_bytes_def)

section \<open>Numbers as text\<close>

definition digit_char :: "nat \<Rightarrow> char" where
  "digit_char n = char_of (48 + n)"

definition hex_upper :: "nat \<Rightarrow> char" where
  "hex_upper n = (if n < 10 then char_of (48 + n) else char_of (55 + n))"

definition hex_lower :: "nat \<Rightarrow> char" where
  "hex_lower n = (if n < 10 then char_of (48 + n) else char_of (87 + n))"

text \<open>The formats \<^verbatim>\<open>{:02X}\<close> and \<^verbatim>\<open>{:02x}\<close> of a byte.\<close>

definition fmt_02X :: "u8 \<Rightarrow> string" where
  "fmt_02X b = [hex_upper (unat b div 16), hex_upper (unat b mod 16)]"

definition fmt_02x :: "u8 \<Rightarrow> string" where
  "fmt_02x b = [hex_lower (unat b div 16), hex_lower (unat b mod 16)]"

definition hex_val :: "char \<Rightarrow> nat option" where
  "hex_val c =
     (if is_digit_ascii c then Some (ccode c - 48)
      else if 65 \<le> ccode c \<and> ccode c \<le> 70 then Some (ccode c - 55)
      else if 97 \<le> ccode c \<and> ccode c \<le> 102 then Some (ccode c - 87)
      else None)"

fun digits_val :: "nat \<Rightarrow> string \<Rightarrow> nat \<Rightarrow> nat option" where
  "digits_val base [] acc = Some acc"
| "digits_val base (c # cs) acc =
     (case hex_val c of
        None \<Rightarrow> None
      | Some d \<Rightarrow> if d < base then digits_val base cs (acc * base + d) else None)"

text \<open>
  \<^verbatim>\<open>from_str_radix\<close> of an unsigned type with \<open>bound\<close> values: an
  optional plus sign, at least one digit, and a value that fits.
\<close>

definition from_str_radix :: "nat \<Rightarrow> nat \<Rightarrow> string \<Rightarrow> nat option" where
  "from_str_radix base bound s =
     (let t = (case s of c # cs \<Rightarrow> if c = CHR ''+'' then cs else s | [] \<Rightarrow> [])
      in if t = [] then None
         else case digits_val base t 0 of
                None \<Rightarrow> None
              | Some v \<Rightarrow> if v < bound then Some v else None)"

text \<open>\<^verbatim>\<open>to_string\<close> of an unsigned number.\<close>

fun dec :: "nat \<Rightarrow> string" where
  "dec n = (if n < 10 then [digit_char n] else dec (n div 10) @ [digit_char (n mod 10)])"

declare dec.simps [simp del]

lemma from_str_radix_bound: "from_str_radix base bound s = Some v \<Longrightarrow> v < bound"
  by (auto simp: from_str_radix_def Let_def split: list.splits option.splits if_splits)

lemma hex_val_Some_iff: "(\<exists>d. hex_val c = Some d) \<longleftrightarrow> is_ascii_hexdigit c"
  by (auto simp: hex_val_def is_ascii_hexdigit_def)

lemma hex_val_less_16: "hex_val c = Some d \<Longrightarrow> d < 16"
  by (auto simp: hex_val_def is_digit_ascii_def split: if_splits)

lemma hex_val_lower_char [simp]: "hex_val (lower_char c) = hex_val c"
  by (auto simp: hex_val_def is_digit_ascii_def ccode_lower_char is_upper_ascii_def)

lemma hex_val_upper_char [simp]: "hex_val (upper_char c) = hex_val c"
  by (auto simp: hex_val_def is_digit_ascii_def ccode_upper_char is_lower_ascii_def)

lemma hex_val_hex_lower [simp]: "n < 16 \<Longrightarrow> hex_val (hex_lower n) = Some n"
  by (auto simp: hex_val_def is_digit_ascii_def hex_lower_def)

lemma hex_val_hex_upper [simp]: "n < 16 \<Longrightarrow> hex_val (hex_upper n) = Some n"
  by (auto simp: hex_val_def is_digit_ascii_def hex_upper_def)

lemma hexdigit_hex_lower [simp]: "n < 16 \<Longrightarrow> is_ascii_hexdigit (hex_lower n)"
  using hex_val_Some_iff hex_val_hex_lower by blast

lemma hexdigit_hex_upper [simp]: "n < 16 \<Longrightarrow> is_ascii_hexdigit (hex_upper n)"
  using hex_val_Some_iff hex_val_hex_upper by blast

lemma lower_hex_upper [simp]: "n < 16 \<Longrightarrow> lower_char (hex_upper n) = hex_lower n"
  by (subst ccode_inject [symmetric])
     (auto simp: ccode_lower_char hex_upper_def hex_lower_def is_upper_ascii_def)

lemma lower_hex_lower [simp]: "n < 16 \<Longrightarrow> lower_char (hex_lower n) = hex_lower n"
  by (subst ccode_inject [symmetric])
     (auto simp: ccode_lower_char hex_upper_def hex_lower_def is_upper_ascii_def)

lemma upper_hex_lower [simp]: "n < 16 \<Longrightarrow> upper_char (hex_lower n) = hex_upper n"
  by (subst ccode_inject [symmetric])
     (auto simp: ccode_upper_char hex_upper_def hex_lower_def is_lower_ascii_def)

lemma unat_u8_div_16 [simp]: "unat (b :: u8) div 16 < 16"
  using unat_u8_less [of b] by (intro less_mult_imp_div_less) simp

lemma from_str_radix_two_digits:
  assumes "hex_val c = Some x" and "hex_val d = Some y"
  shows "from_str_radix 16 256 [c, d] = Some (x * 16 + y)"
proof -
  have "c \<noteq> CHR ''+''"
    using assms(1) by (auto simp: hex_val_def is_digit_ascii_def ccode_def split: if_splits)
  moreover have "x < 16" "y < 16"
    using assms by (simp_all add: hex_val_less_16)
  ultimately show ?thesis
    using assms by (simp add: from_str_radix_def)
qed

lemma from_str_radix_fmt_02x [simp]: "from_str_radix 16 256 (fmt_02x b) = Some (unat b)"
  by (simp add: fmt_02x_def from_str_radix_two_digits [where x = "unat b div 16" and y = "unat b mod 16"])

lemma from_str_radix_fmt_02X [simp]: "from_str_radix 16 256 (fmt_02X b) = Some (unat b)"
  by (simp add: fmt_02X_def from_str_radix_two_digits [where x = "unat b div 16" and y = "unat b mod 16"])

lemma lower_fmt_02X [simp]: "to_lowercase (fmt_02X b) = fmt_02x b"
  by (simp add: fmt_02X_def fmt_02x_def)

lemma lower_fmt_02x [simp]: "to_lowercase (fmt_02x b) = fmt_02x b"
  by (simp add: fmt_02x_def)

lemma length_fmt_02x [simp]: "length (fmt_02x b) = 2" "length (fmt_02X b) = 2"
  by (simp_all add: fmt_02x_def fmt_02X_def)

lemma hex_val_digit_char [simp]: "n < 10 \<Longrightarrow> hex_val (digit_char n) = Some n"
  by (auto simp: hex_val_def is_digit_ascii_def digit_char_def)

lemma digits_val_append:
  "digits_val b (xs @ ys) a =
     (case digits_val b xs a of None \<Rightarrow> None | Some v \<Rightarrow> digits_val b ys v)"
  by (induction b xs a rule: digits_val.induct) (auto split: option.splits)

lemma dec_not_Nil [simp]: "dec n \<noteq> []"
  by (subst dec.simps) simp

lemma digits_val_dec_0: "digits_val 10 (dec n) 0 = Some n"
proof (induction n rule: dec.induct)
  case (1 n)
  then show ?case
    by (subst dec.simps) (auto simp: digits_val_append)
qed

lemma is_digit_digit_char [simp]: "m < 10 \<Longrightarrow> is_digit_ascii (digit_char m)"
  by (simp add: is_digit_ascii_def digit_char_def)

lemma dec_digits: "c \<in> set (dec n) \<Longrightarrow> is_digit_ascii c"
proof (induction n rule: dec.induct)
  case (1 n)
  show ?case
  proof (cases "n < 10")
    case True
    with "1.prems" show ?thesis by (simp add: dec.simps [of n])
  next
    case False
    with "1.prems" have "c \<in> set (dec (n div 10)) \<or> c = digit_char (n mod 10)"
      by (auto simp: dec.simps [of n])
    with "1.IH" False show ?thesis by auto
  qed
qed

lemma dec_no_char: "\<not> is_digit_ascii c \<Longrightarrow> c \<notin> set (dec n)"
  using dec_digits by blast

lemma from_str_radix_dec: "n < bound \<Longrightarrow> from_str_radix 10 bound (dec n) = Some n"
proof -
  assume "n < bound"
  obtain c cs where cs: "dec n = c # cs" by (cases "dec n") auto
  then have "is_digit_ascii c" using dec_digits [of c n] by simp
  then have "c \<noteq> CHR ''+''" by (auto simp: is_digit_ascii_def ccode_def)
  with cs show ?thesis
    using \<open>n < bound\<close> digits_val_dec_0 [of n] by (simp add: from_str_radix_def)
qed

lemma dec_inject [simp]: "dec m = dec n \<longleftrightarrow> m = n"
  by (metis digits_val_dec_0 option.inject)

section \<open>Splitting, joining, searching\<close>

text \<open>\<^verbatim>\<open>s.split(c)\<close>: the fields between the separators, at least one.\<close>

fun split_on :: "char \<Rightarrow> string \<Rightarrow> string list" where
  "split_on c [] = [[]]"
| "split_on c (x # xs) =
     (if x = c then [] # split_on c xs
      else case split_on c xs of [] \<Rightarrow> [[x]] | y # ys \<Rightarrow> (x # y) # ys)"

fun join :: "string \<Rightarrow> string list \<Rightarrow> string" where
  "join sep [] = []"
| "join sep [x] = x"
| "join sep (x # y # ys) = x @ sep @ join sep (y # ys)"

text \<open>\<^verbatim>\<open>s.split_once(c)\<close>.\<close>

fun split_once :: "char \<Rightarrow> string \<Rightarrow> (string \<times> string) option" where
  "split_once c [] = None"
| "split_once c (x # xs) =
     (if x = c then Some ([], xs)
      else case split_once c xs of None \<Rightarrow> None | Some (a, b) \<Rightarrow> Some (x # a, b))"

text \<open>\<^verbatim>\<open>s.splitn(n, c)\<close>: at most \<open>n\<close> fields, the last one with the separators left in it.\<close>

fun splitn :: "nat \<Rightarrow> char \<Rightarrow> string \<Rightarrow> string list" where
  "splitn 0 c s = []"
| "splitn (Suc 0) c s = [s]"
| "splitn (Suc (Suc n)) c s =
     (case split_once c s of None \<Rightarrow> [s] | Some (a, b) \<Rightarrow> a # splitn (Suc n) c b)"

lemma split_once_fresh: "c \<notin> set a \<Longrightarrow> split_once c (a @ c # b) = Some (a, b)"
  by (induction a) auto

lemma split_once_absent [simp]: "split_once c s = None \<longleftrightarrow> c \<notin> set s"
  by (induction s) (auto split: option.splits)

text \<open>\<^verbatim>\<open>s.strip_prefix(p)\<close> and \<^verbatim>\<open>s.starts_with(p)\<close>.\<close>

fun strip_prefix :: "string \<Rightarrow> string \<Rightarrow> string option" where
  "strip_prefix [] s = Some s"
| "strip_prefix (p # ps) [] = None"
| "strip_prefix (p # ps) (x # xs) = (if p = x then strip_prefix ps xs else None)"

definition starts_with :: "string \<Rightarrow> string \<Rightarrow> bool" where
  "starts_with p s \<longleftrightarrow> strip_prefix p s \<noteq> None"

text \<open>\<^verbatim>\<open>s.contains(p)\<close>.\<close>

fun contains :: "string \<Rightarrow> string \<Rightarrow> bool" where
  "contains p [] = (p = [])"
| "contains p (x # xs) = (starts_with p (x # xs) \<or> contains p xs)"

lemma strip_prefix_Some_iff: "strip_prefix p s = Some t \<longleftrightarrow> s = p @ t"
  by (induction p s rule: strip_prefix.induct) auto

text \<open>\<^verbatim>\<open>s.replace(p, r)\<close> for a non-empty pattern, left to right.\<close>

function replace :: "string \<Rightarrow> string \<Rightarrow> string \<Rightarrow> string" where
  "replace p r [] = []"
| "replace p r (x # xs) =
     (case strip_prefix p (x # xs) of
        Some rest \<Rightarrow> if p = [] then x # xs else r @ replace p r rest
      | None \<Rightarrow> x # replace p r xs)"
  by pat_completeness auto
termination
  by (relation "measure (\<lambda>(p, r, s). length s)") (auto simp: strip_prefix_Some_iff neq_Nil_conv)

definition replace_char :: "char \<Rightarrow> string \<Rightarrow> string \<Rightarrow> string" where
  "replace_char c r s = concat (map (\<lambda>x. if x = c then r else [x]) s)"

lemma starts_with_iff: "starts_with p s \<longleftrightarrow> (\<exists>t. s = p @ t)"
  by (cases "strip_prefix p s") (auto simp: starts_with_def strip_prefix_Some_iff [symmetric])

lemma contains_iff: "contains p s \<longleftrightarrow> (\<exists>a b. s = a @ p @ b)"
proof (induction s)
  case Nil
  show ?case by auto
next
  case (Cons x xs)
  have "(\<exists>a b. x # xs = a @ p @ b) \<longleftrightarrow> (\<exists>b. x # xs = p @ b) \<or> (\<exists>a b. xs = a @ p @ b)"
    by (metis append_Cons append_Nil neq_Nil_conv list.inject)
  with Cons.IH show ?case by (simp add: starts_with_iff)
qed

lemma split_on_not_Nil [simp]: "split_on c s \<noteq> []"
  by (induction c s rule: split_on.induct) (auto split: list.splits)

lemma join_Cons: "xs \<noteq> [] \<Longrightarrow> join sep (x # xs) = x @ sep @ join sep xs"
  by (cases xs) auto

lemma join_split_on: "join [c] (split_on c s) = s"
proof (induction c s rule: split_on.induct)
  case (2 c x xs)
  obtain y ys where "split_on c xs = y # ys" by (cases "split_on c xs") auto
  with 2 show ?case by (cases ys) (auto simp: join_Cons)
qed simp

lemma split_on_no_sep: "c \<notin> set s \<Longrightarrow> split_on c s = [s]"
  by (induction c s rule: split_on.induct) auto

lemma split_on_append_sep: "c \<notin> set a \<Longrightarrow> split_on c (a @ c # b) = a # split_on c b"
  by (induction a) auto

lemma split_on_join:
  "xs \<noteq> [] \<Longrightarrow> \<forall>x \<in> set xs. c \<notin> set x \<Longrightarrow> split_on c (join [c] xs) = xs"
  by (induction "[c]" xs rule: join.induct) (auto simp: split_on_no_sep split_on_append_sep)

text \<open>\<^verbatim>\<open>s.split('/').next()\<close>: the text before the first separator.\<close>

definition before_char :: "char \<Rightarrow> string \<Rightarrow> string" where
  "before_char c s = hd (split_on c s)"

lemma before_char_takeWhile: "before_char c s = takeWhile (\<lambda>x. x \<noteq> c) s"
  by (induction c s rule: split_on.induct) (auto simp: before_char_def split: list.splits)

lemma before_char_idem [simp]: "before_char c (before_char c s) = before_char c s"
  by (simp add: before_char_takeWhile takeWhile_idem)

lemma before_char_no_sep: "c \<notin> set s \<Longrightarrow> before_char c s = s"
  by (simp add: before_char_def split_on_no_sep)

section \<open>Trimming, lines and words\<close>

text \<open>\<^verbatim>\<open>s.trim()\<close>.\<close>

definition trim :: "string \<Rightarrow> string" where
  "trim s = rev (dropWhile is_space (rev (dropWhile is_space s)))"

text \<open>
  \<^verbatim>\<open>s.lines()\<close>: a line feed ends a line, a carriage return before it is dropped,
  and no empty line follows the last line feed.
\<close>

definition strip_cr :: "string \<Rightarrow> string" where
  "strip_cr s = (if s \<noteq> [] \<and> ccode (last s) = 13 then butlast s else s)"

definition newline :: char where
  "newline = char_of (10 :: nat)"

fun lines_of :: "string list \<Rightarrow> string list" where
  "lines_of [] = []"
| "lines_of [x] = (if x = [] then [] else [x])"
| "lines_of (x # y # ys) = strip_cr x # lines_of (y # ys)"

definition lines :: "string \<Rightarrow> string list" where
  "lines s = lines_of (split_on newline s)"

text \<open>\<^verbatim>\<open>s.split_whitespace()\<close>: the maximal runs of other characters.\<close>

fun words_acc :: "string \<Rightarrow> string \<Rightarrow> string list" where
  "words_acc acc [] = (if acc = [] then [] else [rev acc])"
| "words_acc acc (x # xs) =
     (if is_space x then (if acc = [] then words_acc [] xs else rev acc # words_acc [] xs)
      else words_acc (x # acc) xs)"

definition split_whitespace :: "string \<Rightarrow> string list" where
  "split_whitespace s = words_acc [] s"

text \<open>\<^verbatim>\<open>s.trim_start_matches(p)\<close> for a non-empty prefix.\<close>

function trim_start_matches :: "string \<Rightarrow> string \<Rightarrow> string" where
  "trim_start_matches p s =
     (case strip_prefix p s of
        Some rest \<Rightarrow> if p = [] then s else trim_start_matches p rest
      | None \<Rightarrow> s)"
  by pat_completeness auto
termination
  by (relation "measure (\<lambda>(p, s). length s)") (auto simp: strip_prefix_Some_iff)

declare trim_start_matches.simps [simp del]

lemma trim_Nil [simp]: "trim [] = []"
  by (simp add: trim_def)

lemma words_acc_nonempty: "w \<in> set (words_acc acc s) \<Longrightarrow> w \<noteq> []"
  by (induction acc s rule: words_acc.induct) (auto split: if_splits)

lemma words_acc_no_space:
  "\<forall>c \<in> set acc. \<not> is_space c \<Longrightarrow> w \<in> set (words_acc acc s) \<Longrightarrow> c \<in> set w \<Longrightarrow> \<not> is_space c"
  by (induction acc s rule: words_acc.induct) (auto split: if_splits)

lemma split_whitespace_words:
  "w \<in> set (split_whitespace s) \<Longrightarrow> w \<noteq> [] \<and> (\<forall>c \<in> set w. \<not> is_space c)"
  unfolding split_whitespace_def
  using words_acc_nonempty words_acc_no_space [of "[]"] by fastforce

lemma dropWhile_idem_space: "dropWhile P (dropWhile P s) = dropWhile P s"
  by (induction s) auto

section \<open>Hexadecimal addresses\<close>

text \<open>The hardware address \<^verbatim>\<open>[u8; 6]\<close> and the address types of \<^verbatim>\<open>std::net\<close>.\<close>

datatype mac6 = Mac u8 u8 u8 u8 u8 u8

fun mac_bytes :: "mac6 \<Rightarrow> bytes" where
  "mac_bytes (Mac a b c d e f) = [a, b, c, d, e, f]"

datatype ipv4 = Ipv4 u8 u8 u8 u8

fun octets :: "ipv4 \<Rightarrow> bytes" where
  "octets (Ipv4 a b c d) = [a, b, c, d]"

definition ipv4_unspecified :: ipv4 where
  "ipv4_unspecified = Ipv4 0 0 0 0"

lemma length_mac_bytes [simp]: "length (mac_bytes m) = 6"
  by (cases m) simp

lemma length_octets [simp]: "length (octets ip) = 4"
  by (cases ip) simp

lemma mac_bytes_inject [simp]: "mac_bytes m = mac_bytes n \<longleftrightarrow> m = n"
  by (cases m; cases n) simp

lemma octets_inject [simp]: "octets a = octets b \<longleftrightarrow> a = b"
  by (cases a; cases b) simp

text \<open>
  \<^verbatim>\<open>arr.copy_from_slice(&p[i..i + 6])\<close> into a six-byte array: panics out of range.
\<close>

definition rmac :: "bytes \<Rightarrow> nat \<Rightarrow> ('e, mac6) rust" where
  "rmac p i = rbind (rslice p i (i + 6))
     (\<lambda>s. case s of [a, b, c, d, e, f] \<Rightarrow> Ok (Mac a b c d e f) | _ \<Rightarrow> Panic)"

lemma length_6_cases:
  assumes "length xs = 6"
  obtains a b c d e f where "xs = [a, b, c, d, e, f]"
proof -
  have "length xs = Suc (Suc (Suc (Suc (Suc (Suc 0)))))" using assms by simp
  then show ?thesis using that by (auto simp: length_Suc_conv)
qed

lemma rmac_Ok: "i + 6 \<le> length p \<Longrightarrow> \<exists>m. rmac p i = Ok m \<and> mac_bytes m = take 6 (drop i p)"
proof -
  assume le: "i + 6 \<le> length p"
  then have "length (take 6 (drop i p)) = 6" by simp
  then obtain a b c d e f where s: "take 6 (drop i p) = [a, b, c, d, e, f]"
    by (rule length_6_cases)
  with le show ?thesis by (simp add: rmac_def)
qed

lemma rmac_not_Panic: "i + 6 \<le> length p \<Longrightarrow> rmac p i \<noteq> Panic"
  by (metis rmac_Ok rust.distinct(3))

lemma rmac_not_Err [simp]: "rmac p i \<noteq> Err e"
  by (auto simp: rmac_def rbind_Err_iff split: list.splits)

lemma rmac_at: "length xs = i \<Longrightarrow> rmac (xs @ mac_bytes m @ ys) i = Ok m"
  by (cases m) (simp add: rmac_def)

text \<open>\<^verbatim>\<open>Ipv4Addr::to_string\<close> and \<^verbatim>\<open>Ipv4Addr::from_str\<close>.\<close>

fun ipv4_to_string :: "ipv4 \<Rightarrow> string" where
  "ipv4_to_string (Ipv4 a b c d) = join ''.'' [dec (unat a), dec (unat b), dec (unat c), dec (unat d)]"

definition parse_octet :: "string \<Rightarrow> u8 option" where
  "parse_octet s =
     (if s = [] \<or> 3 < length s \<or> (\<exists>c \<in> set s. \<not> is_digit_ascii c)
         \<or> (1 < length s \<and> hd s = CHR ''0'')
      then None
      else case digits_val 10 s 0 of
             None \<Rightarrow> None
           | Some v \<Rightarrow> if v < 256 then Some (of_nat v) else None)"

definition parse_ipv4 :: "string \<Rightarrow> ipv4 option" where
  "parse_ipv4 s =
     (case map parse_octet (split_on CHR ''.'' s) of
        [Some a, Some b, Some c, Some d] \<Rightarrow> Some (Ipv4 a b c d)
      | _ \<Rightarrow> None)"

lemma length_dec: "n < 1000 \<Longrightarrow> length (dec n) \<le> 3"
  by (simp add: dec.simps [of n] dec.simps [of "n div 10"] dec.simps [of "n div 10 div 10"])

lemma digit_char_0_iff: "m < 10 \<Longrightarrow> digit_char m = CHR ''0'' \<longleftrightarrow> m = 0"
  by (subst ccode_inject [symmetric]) (simp add: digit_char_def ccode_def)

lemma hd_dec_0: "n \<noteq> 0 \<Longrightarrow> hd (dec n) \<noteq> CHR ''0''"
proof (induction n rule: dec.induct)
  case (1 n)
  then show ?case by (simp add: dec.simps [of n] digit_char_0_iff)
qed

lemma parse_octet_dec [simp]: "parse_octet (dec (unat b)) = Some b"
proof -
  have len: "length (dec (unat b)) \<le> 3"
    by (rule length_dec, rule less_trans [OF unat_u8_less]) simp
  have "\<not> (1 < length (dec (unat b)) \<and> hd (dec (unat b)) = CHR ''0'')"
    using hd_dec_0 [of "unat b"] by (cases "unat b = 0") (auto simp: dec.simps [of 0])
  with len show ?thesis
    using dec_digits [of _ "unat b"]
    by (auto simp: parse_octet_def digits_val_dec_0)
qed

lemma dot_notin_dec [simp]: "CHR ''.'' \<notin> set (dec n)"
  by (rule dec_no_char) (simp add: is_digit_ascii_def ccode_def)

lemma slash_notin_dec [simp]: "CHR ''/'' \<notin> set (dec n)"
  by (rule dec_no_char) (simp add: is_digit_ascii_def ccode_def)

lemma parse_ipv4_to_string [simp]: "parse_ipv4 (ipv4_to_string ip) = Some ip"
proof (cases ip)
  case (Ipv4 a b c d)
  have "split_on CHR ''.'' (ipv4_to_string ip) = map (\<lambda>x. dec (unat x)) [a, b, c, d]"
    unfolding Ipv4 ipv4_to_string.simps by (subst split_on_join) auto
  then show ?thesis by (simp add: parse_ipv4_def Ipv4)
qed

lemma ipv4_to_string_inject [simp]: "ipv4_to_string x = ipv4_to_string y \<longleftrightarrow> x = y"
  by (metis option.inject parse_ipv4_to_string)

lemma ipv4_to_string_not_Nil [simp]: "ipv4_to_string ip \<noteq> []"
  by (cases ip) auto

lemma slash_notin_ipv4 [simp]: "CHR ''/'' \<notin> set (ipv4_to_string ip)"
  by (cases ip) auto

section \<open>UTF-8\<close>

text \<open>
  \<^verbatim>\<open>str::from_utf8\<close> accepts the well-formed byte sequences of the Unicode standard:
  no overlong forms, no surrogates, nothing above U+10FFFF.
\<close>

definition utf8_cont :: "u8 \<Rightarrow> bool" where
  "utf8_cont b \<longleftrightarrow> 128 \<le> unat b \<and> unat b \<le> 191"

fun utf8_valid :: "bytes \<Rightarrow> bool" where
  "utf8_valid [] = True"
| "utf8_valid (b # bs) =
     (let n = unat b in
      if n < 128 then utf8_valid bs
      else case bs of
        [] \<Rightarrow> False
      | c # cs \<Rightarrow>
          if 194 \<le> n \<and> n \<le> 223 then utf8_cont c \<and> utf8_valid cs
          else case cs of
            [] \<Rightarrow> False
          | d # ds \<Rightarrow>
              if n = 224 then 160 \<le> unat c \<and> unat c \<le> 191 \<and> utf8_cont d \<and> utf8_valid ds
              else if n = 237 then 128 \<le> unat c \<and> unat c \<le> 159 \<and> utf8_cont d \<and> utf8_valid ds
              else if 225 \<le> n \<and> n \<le> 239 then utf8_cont c \<and> utf8_cont d \<and> utf8_valid ds
              else case ds of
                [] \<Rightarrow> False
              | e # es \<Rightarrow>
                  (if n = 240 then 144 \<le> unat c \<and> unat c \<le> 191
                   else if n = 244 then 128 \<le> unat c \<and> unat c \<le> 143
                   else 241 \<le> n \<and> n \<le> 243 \<and> utf8_cont c)
                  \<and> utf8_cont d \<and> utf8_cont e \<and> utf8_valid es)"

declare utf8_valid.simps(2) [simp del]

definition from_utf8 :: "bytes \<Rightarrow> string option" where
  "from_utf8 bs = (if utf8_valid bs then Some (string_of_bytes bs) else None)"

lemma utf8_valid_ascii: "\<forall>b \<in> set bs. unat b < 128 \<Longrightarrow> utf8_valid bs"
  by (induction bs) (auto simp: utf8_valid.simps(2))

lemma from_utf8_as_bytes: "\<forall>c \<in> set s. ccode c < 128 \<Longrightarrow> from_utf8 (as_bytes s) = Some s"
  by (simp add: from_utf8_def as_bytes_def utf8_valid_ascii string_of_bytes_def comp_def)

end
