(* ===== verification/NetArp.thy ===== *)
theory NetArp
  imports NacText
begin

text \<open>
  Crafting and parsing of ARP frames: \<^verbatim>\<open>crates/nac-netproto/src/arp.rs\<close>, with the error type
  of \<^verbatim>\<open>crates/nac-netproto/src/lib.rs\<close>. The crafted frames have the Ethernet layout, and
  the parser returns exactly what a frame was crafted from and never reads out of range.
\<close>

section \<open>Errors of the crate\<close>

datatype net_proto_error = Parse string | Interface string | Io string

section \<open>Frames\<close>

record arp_entry =
  sender_mac :: mac6
  sender_ip :: ipv4
  target_ip :: ipv4
  is_reply :: bool

definition craft_gratuitous_arp :: "mac6 \<Rightarrow> ipv4 \<Rightarrow> ipv4 \<Rightarrow> (net_proto_error, bytes) rust" where
  "craft_gratuitous_arp smac sip tip = Ok (
     [0xff, 0xff, 0xff, 0xff, 0xff, 0xff]
     @ mac_bytes smac
     @ [0x08, 0x06]
     @ [0x00, 0x01]
     @ [0x08, 0x00]
     @ [6]
     @ [4]
     @ [0x00, 0x02]
     @ mac_bytes smac
     @ octets sip
     @ [0x00, 0x00, 0x00, 0x00, 0x00, 0x00]
     @ octets tip)"

definition craft_arp_reply ::
  "mac6 \<Rightarrow> mac6 \<Rightarrow> ipv4 \<Rightarrow> mac6 \<Rightarrow> ipv4 \<Rightarrow> (net_proto_error, bytes) rust" where
  "craft_arp_reply dmac smac sip tmac tip = Ok (
     mac_bytes dmac
     @ mac_bytes smac
     @ [0x08, 0x06]
     @ [0x00, 0x01]
     @ [0x08, 0x00]
     @ [6]
     @ [4]
     @ [0x00, 0x02]
     @ mac_bytes smac
     @ octets sip
     @ mac_bytes tmac
     @ octets tip)"

definition parse_arp :: "bytes \<Rightarrow> (net_proto_error, arp_entry) rust" where
  "parse_arp frame =
     (if length frame < 42 then Err (Parse ''frame too short for ARP'')
      else
        rbind (ridx frame 20) (\<lambda>o1.
        rbind (ridx frame 21) (\<lambda>o2.
        let oper = u16_from_be o1 o2 in
        rbind (rmac frame 22) (\<lambda>sha.
        rbind (ridx frame 28) (\<lambda>s1. rbind (ridx frame 29) (\<lambda>s2.
        rbind (ridx frame 30) (\<lambda>s3. rbind (ridx frame 31) (\<lambda>s4.
        rbind (ridx frame 38) (\<lambda>t1. rbind (ridx frame 39) (\<lambda>t2.
        rbind (ridx frame 40) (\<lambda>t3. rbind (ridx frame 41) (\<lambda>t4.
          Ok \<lparr>sender_mac = sha, sender_ip = Ipv4 s1 s2 s3 s4,
              target_ip = Ipv4 t1 t2 t3 t4, is_reply = (oper = 2)\<rparr>))))))))))))"

section \<open>Properties\<close>

lemma arp_frames_Ok:
  "\<exists>f. craft_gratuitous_arp s sip tip = Ok f \<and> length f = 42"
  "\<exists>f. craft_arp_reply d s sip t tip = Ok f \<and> length f = 42"
  by (simp_all add: craft_gratuitous_arp_def craft_arp_reply_def)

lemma parse_craft_arp_reply:
  "rbind (craft_arp_reply d s sip t tip) parse_arp =
     Ok \<lparr>sender_mac = s, sender_ip = sip, target_ip = tip, is_reply = True\<rparr>"
  by (cases d; cases s; cases sip; cases t; cases tip)
     (simp add: craft_arp_reply_def parse_arp_def rmac_def u16_from_be_eq_iff)

lemma parse_craft_gratuitous_arp:
  "rbind (craft_gratuitous_arp s sip tip) parse_arp =
     Ok \<lparr>sender_mac = s, sender_ip = sip, target_ip = tip, is_reply = True\<rparr>"
  by (cases s; cases sip; cases tip)
     (simp add: craft_gratuitous_arp_def parse_arp_def rmac_def u16_from_be_eq_iff)

lemma parse_arp_short: "length frame < 42 \<Longrightarrow> parse_arp frame = Err (Parse ''frame too short for ARP'')"
  by (simp add: parse_arp_def)

lemma take_4_drop: "i + 4 \<le> length xs \<Longrightarrow>
  take 4 (drop i xs) = [xs ! i, xs ! (i + 1), xs ! (i + 2), xs ! (i + 3)]"
  by (simp add: take_Suc_conv_app_nth numeral_eq_Suc Cons_nth_drop_Suc [symmetric])

lemma parse_arp_long:
  assumes "42 \<le> length frame"
  shows "\<exists>e. parse_arp frame = Ok e
     \<and> mac_bytes (sender_mac e) = take 6 (drop 22 frame)
     \<and> octets (sender_ip e) = take 4 (drop 28 frame)
     \<and> octets (target_ip e) = take 4 (drop 38 frame)
     \<and> (is_reply e \<longleftrightarrow> unat (frame ! 20) * 256 + unat (frame ! 21) = 2)"
proof -
  obtain m where m: "rmac frame 22 = (Ok m :: (net_proto_error, mac6) rust)"
      "mac_bytes m = take 6 (drop 22 frame)"
    using rmac_Ok [of 22 frame] assms by auto
  show ?thesis
    using assms m by (simp add: parse_arp_def take_4_drop u16_from_be_eq_iff)
qed

text \<open>
  No frame makes the parser panic: every read is in range once the length check has passed.
\<close>

lemma parse_arp_no_panic: "parse_arp frame \<noteq> Panic"
  by (cases "length frame < 42") (auto simp: parse_arp_short not_less dest!: parse_arp_long)

end
