(* ===== verification/NetDhcp.thy ===== *)
theory NetDhcp
  imports NetArp
begin

text \<open>
  DHCP snooping: \<^verbatim>\<open>crates/nac-netproto/src/dhcp.rs\<close>. The two option walkers are loops over
  an index of the payload; the model keeps the index, reads through the checked reads of the prelude
  and lets termination be proved from the distance to the end. The lemmas show that no payload makes
  either parser panic, and that a payload laid out as a sequence of options yields exactly the fold
  of those options.
\<close>

section \<open>Bindings from server replies\<close>

record dhcp_binding =
  db_client_mac :: mac6
  db_offered_ip :: ipv4
  db_lease_secs :: u32

function binding_loop :: "bytes \<Rightarrow> nat \<Rightarrow> u32 \<Rightarrow> (net_proto_error, u32) rust" where
  "binding_loop p i lease =
     (if i + 1 < length p then
        rbind (ridx p i) (\<lambda>code.
          if code = 255 then Ok lease
          else if code = 0 then binding_loop p (i + 1) lease
          else
            rbind (ridx p (i + 1)) (\<lambda>l.
            let len = unat l in
            rbind
              (if code = 51 \<and> len = 4 \<and> i + 2 + len \<le> length p then
                 rbind (ridx p (i + 2)) (\<lambda>a. rbind (ridx p (i + 3)) (\<lambda>b.
                 rbind (ridx p (i + 4)) (\<lambda>c. rbind (ridx p (i + 5)) (\<lambda>d.
                   Ok (u32_from_be a b c d)))))
               else Ok lease)
              (\<lambda>lease'. binding_loop p (i + (2 + len)) lease')))
      else Ok lease)"
  by pat_completeness auto
termination
  by (relation "measure (\<lambda>(p, i, lease). length p - i)") auto

declare binding_loop.simps [simp del]

definition parse_dhcp_binding :: "bytes \<Rightarrow> (net_proto_error, dhcp_binding) rust" where
  "parse_dhcp_binding payload =
     (if length payload < 236 then Err (Parse ''DHCPv4 payload too short'')
      else
        rbind (ridx payload 0) (\<lambda>op.
        if op \<noteq> 2 then Err (Parse ''not a DHCP reply (op != 2)'')
        else
          rbind (rmac payload 28) (\<lambda>mac.
          rbind (ridx payload 16) (\<lambda>y1. rbind (ridx payload 17) (\<lambda>y2.
          rbind (ridx payload 18) (\<lambda>y3. rbind (ridx payload 19) (\<lambda>y4.
          rbind (binding_loop payload (236 + 4) 86400) (\<lambda>lease.
            Ok \<lparr>db_client_mac = mac, db_offered_ip = Ipv4 y1 y2 y3 y4,
                db_lease_secs = lease\<rparr>))))))))"

section \<open>Client packets\<close>

record dhcp_client_packet =
  client_mac :: mac6
  msg_type :: u8
  hostname :: "string option"
  parameter_request_list :: "bytes option"
  vendor_class :: "string option"

text \<open>The \<^verbatim>\<open>match code\<close> of the option loop.\<close>

definition apply_option :: "u8 \<Rightarrow> bytes \<Rightarrow> dhcp_client_packet \<Rightarrow> dhcp_client_packet" where
  "apply_option code data acc =
     (if code = 12 then acc\<lparr>hostname := from_utf8 data\<rparr>
      else if code = 53 \<and> length data = 1 then acc\<lparr>msg_type := data ! 0\<rparr>
      else if code = 55 then acc\<lparr>parameter_request_list := Some data\<rparr>
      else if code = 60 then acc\<lparr>vendor_class := from_utf8 data\<rparr>
      else acc)"

function client_loop ::
  "bytes \<Rightarrow> nat \<Rightarrow> dhcp_client_packet \<Rightarrow> (net_proto_error, dhcp_client_packet) rust" where
  "client_loop p i acc =
     (if i < length p then
        rbind (ridx p i) (\<lambda>code.
          if code = 255 then Ok acc
          else if code = 0 then client_loop p (i + 1) acc
          else if length p \<le> i + 1 then Ok acc
          else
            rbind (ridx p (i + 1)) (\<lambda>l.
            let len = unat l; data_start = i + 2 in
            if length p < data_start + len then Ok acc
            else
              rbind (rslice p data_start (data_start + len)) (\<lambda>data.
                client_loop p (data_start + len) (apply_option code data acc))))
      else Ok acc)"
  by pat_completeness auto
termination
  by (relation "measure (\<lambda>(p, i, acc). length p - i)") auto

declare client_loop.simps [simp del]

definition parse_dhcp_client :: "bytes \<Rightarrow> (net_proto_error, dhcp_client_packet) rust" where
  "parse_dhcp_client payload =
     (if length payload < 240 then Err (Parse ''DHCP client payload too short'')
      else
        rbind (ridx payload 0) (\<lambda>op.
        if op \<noteq> 1 then Err (Parse ''not a DHCP request (op != 1)'')
        else
          rbind (rmac payload 28) (\<lambda>mac.
            client_loop payload 240
              \<lparr>client_mac = mac, msg_type = 0, hostname = None,
               parameter_request_list = None, vendor_class = None\<rparr>)))"

section \<open>One step of each loop\<close>

text \<open>With its reads in range, an iteration is a plain conditional over the payload.\<close>

lemma binding_loop_step:
  "i + 1 < length p \<Longrightarrow> binding_loop p i lease =
     (if p ! i = 255 then Ok lease
      else if p ! i = 0 then binding_loop p (i + 1) lease
      else binding_loop p (i + 2 + unat (p ! (i + 1)))
             (if p ! i = 51 \<and> unat (p ! (i + 1)) = 4 \<and> i + 6 \<le> length p
              then u32_from_be (p ! (i + 2)) (p ! (i + 3)) (p ! (i + 4)) (p ! (i + 5))
              else lease))"
  by (subst binding_loop.simps) (simp add: Let_def add.assoc)

lemma binding_loop_stop: "length p \<le> i + 1 \<Longrightarrow> binding_loop p i lease = Ok lease"
  by (subst binding_loop.simps) simp

lemma client_loop_step:
  "i < length p \<Longrightarrow> client_loop p i acc =
     (if p ! i = 255 then Ok acc
      else if p ! i = 0 then client_loop p (i + 1) acc
      else if length p \<le> i + 1 \<or> length p < i + 2 + unat (p ! (i + 1)) then Ok acc
      else client_loop p (i + 2 + unat (p ! (i + 1)))
             (apply_option (p ! i) (take (unat (p ! (i + 1))) (drop (i + 2) p)) acc))"
  by (subst client_loop.simps) (auto simp: Let_def not_less not_le)

lemma client_loop_stop: "length p \<le> i \<Longrightarrow> client_loop p i acc = Ok acc"
  by (subst client_loop.simps) simp

section \<open>No payload makes the parsers panic\<close>

lemma binding_loop_Ok: "\<exists>l. binding_loop p i lease = Ok l"
proof (induction "length p - i" arbitrary: i lease rule: less_induct)
  case less
  show ?case
  proof (cases "i + 1 < length p")
    case True
    then show ?thesis using less [of "i + 1"] less [of "i + 2 + unat (p ! (i + 1))"]
      by (simp add: binding_loop_step)
  qed (simp add: binding_loop_stop)
qed

lemma client_loop_Ok: "\<exists>c. client_loop p i acc = Ok c"
proof (induction "length p - i" arbitrary: i acc rule: less_induct)
  case less
  show ?case
  proof (cases "i < length p")
    case True
    then show ?thesis using less [of "i + 1"] less [of "i + 2 + unat (p ! (i + 1))"]
      by (simp add: client_loop_step)
  qed (simp add: client_loop_stop)
qed

lemma parse_dhcp_binding_no_panic: "parse_dhcp_binding p \<noteq> Panic"
proof -
  obtain l where "binding_loop p 240 86400 = Ok l"
    using binding_loop_Ok by blast
  moreover have "length p < 236 \<or> rmac p 28 \<noteq> (Panic :: (net_proto_error, mac6) rust)"
    using rmac_not_Panic [of 28 p] by force
  ultimately show ?thesis
    by (auto simp: parse_dhcp_binding_def rbind_Panic_iff)
qed

lemma parse_dhcp_client_no_panic: "parse_dhcp_client p \<noteq> Panic"
proof -
  have "client_loop p i acc \<noteq> Panic" for i acc
    using client_loop_Ok [of p i acc] by auto
  moreover have "length p < 240 \<or> rmac p 28 \<noteq> (Panic :: (net_proto_error, mac6) rust)"
    using rmac_not_Panic [of 28 p] by force
  ultimately show ?thesis
    by (auto simp: parse_dhcp_client_def rbind_Panic_iff)
qed

section \<open>Payloads laid out as options\<close>

text \<open>
  The wire form of a list of options, and the packet the options describe: the fold of the
  \<^verbatim>\<open>match\<close> over them. Pad bytes may stand between options.
\<close>

fun encode_options :: "(u8 \<times> bytes) list \<Rightarrow> bytes" where
  "encode_options [] = []"
| "encode_options ((c, d) # os) = c # of_nat (length d) # d @ encode_options os"

definition plain_options :: "(u8 \<times> bytes) list \<Rightarrow> bool" where
  "plain_options os \<longleftrightarrow> (\<forall>(c, d) \<in> set os. c \<noteq> 0 \<and> c \<noteq> 255 \<and> length d < 256)"

fun apply_options :: "(u8 \<times> bytes) list \<Rightarrow> dhcp_client_packet \<Rightarrow> dhcp_client_packet" where
  "apply_options [] acc = acc"
| "apply_options ((c, d) # os) acc = apply_options os (apply_option c d acc)"

lemma client_loop_options:
  "plain_options os \<Longrightarrow>
   client_loop (hdr @ encode_options os @ 255 # rest) (length hdr) acc = Ok (apply_options os acc)"
proof (induction os arbitrary: hdr acc)
  case Nil
  show ?case by (simp add: client_loop_step nth_append)
next
  case (Cons o1 os)
  obtain c d where o1: "o1 = (c, d)" by (cases o1)
  let ?p = "hdr @ encode_options (o1 # os) @ 255 # rest"
  let ?hdr = "hdr @ [c, of_nat (length d)] @ d"
  have p: "?p = ?hdr @ encode_options os @ 255 # rest"
    by (simp add: o1)
  have cd: "c \<noteq> 0" "c \<noteq> 255" "unat (of_nat (length d) :: u8) = length d"
    using Cons.prems by (auto simp: plain_options_def o1)
  have "client_loop ?p (length hdr) acc = client_loop ?p (length hdr + 2 + length d) (apply_option c d acc)"
    using cd by (simp add: client_loop_step o1 nth_append)
  also have "\<dots> = client_loop (?hdr @ encode_options os @ 255 # rest) (length ?hdr) (apply_option c d acc)"
    unfolding p by (simp add: add.assoc)
  also have "\<dots> = Ok (apply_options os (apply_option c d acc))"
    using Cons.prems by (intro Cons.IH) (simp add: plain_options_def)
  finally show ?case by (simp add: o1)
qed

lemma parse_dhcp_client_options:
  assumes "length hdr = 240" and "hdr ! 0 = 1" and "plain_options os"
    and "rmac hdr 28 = (Ok m :: (net_proto_error, mac6) rust)"
  shows "parse_dhcp_client (hdr @ encode_options os @ 255 # rest) =
    Ok (apply_options os \<lparr>client_mac = m, msg_type = 0, hostname = None,
          parameter_request_list = None, vendor_class = None\<rparr>)"
proof -
  have "rmac (hdr @ xs) 28 = (Ok m :: (net_proto_error, mac6) rust)" for xs
    using assms(1,4) by (simp add: rmac_def)
  then show ?thesis
    using assms client_loop_options [of os hdr rest]
    by (simp add: parse_dhcp_client_def nth_append)
qed

text \<open>The hardware address is never changed by the options.\<close>

lemma client_mac_apply_option [simp]: "client_mac (apply_option c d acc) = client_mac acc"
  by (simp add: apply_option_def)

text \<open>
  The address of a parsed packet is read at byte 28, whatever options follow.
\<close>

lemma client_loop_client_mac: "client_loop p i acc = Ok c \<Longrightarrow> client_mac c = client_mac acc"
proof (induction "length p - i" arbitrary: i acc rule: less_induct)
  case less
  show ?case
  proof (cases "i < length p")
    case True
    have m1: "length p - (i + 1) < length p - i" and m2: "\<And>n. length p - (i + 2 + n) < length p - i"
      using True by auto
    show ?thesis
      using less.prems less.hyps [OF m1] less.hyps [OF m2]
      by (auto simp only: client_loop_step [OF True] client_mac_apply_option rust.inject
            split: if_splits)
  next
    case False
    then show ?thesis using less.prems by (simp add: client_loop_stop)
  qed
qed

end
