(* ===== verification/NetIcmp6.thy ===== *)
theory NetIcmp6
  imports NetArp
begin

text \<open>
  ICMPv6 neighbor discovery: the two parsers of \<^verbatim>\<open>crates/nac-netproto/src/icmpv6.rs\<close> and
  the spoofed neighbor advertisement of \<^verbatim>\<open>services/enforcement/src/ipv6_block.rs\<close>. The
  parsers never read out of range, and the parser reads from a spoofed frame exactly the address and
  the hardware address it was crafted from.
\<close>

section \<open>Types\<close>

datatype icmpv6_type =
    RouterSolicitation | RouterAdvertisement | NeighborSolicitation | NeighborAdvertisement
  | Other u8

definition icmpv6_type_from :: "u8 \<Rightarrow> icmpv6_type" where
  "icmpv6_type_from v =
     (if v = 133 then RouterSolicitation
      else if v = 134 then RouterAdvertisement
      else if v = 135 then NeighborSolicitation
      else if v = 136 then NeighborAdvertisement
      else Other v)"

text \<open>An \<^verbatim>\<open>Ipv6Addr\<close> is its sixteen octets.\<close>

type_synonym ipv6 = bytes

record ndp_entry =
  ndp_type :: icmpv6_type
  ndp_target_addr :: ipv6
  ndp_link_layer_addr :: "mac6 option"

record neighbor_advertisement =
  na_target_addr :: ipv6
  na_link_layer_addr :: "mac6 option"

section \<open>The parsers\<close>

function ndp_loop :: "bytes \<Rightarrow> nat \<Rightarrow> mac6 option \<Rightarrow> (net_proto_error, mac6 option) rust" where
  "ndp_loop p i lla =
     (if i + 2 \<le> length p then
        rbind (ridx p i) (\<lambda>opt_type.
        rbind (ridx p (i + 1)) (\<lambda>l.
        let opt_len = unat l * 8 in
        if opt_len = 0 then Ok lla
        else if length p < i + opt_len then Ok lla
        else
          rbind
            (if (opt_type = 1 \<or> opt_type = 2) \<and> 8 \<le> opt_len
             then rbind (rmac p (i + 2)) (\<lambda>m. Ok (Some m))
             else Ok lla)
            (\<lambda>lla'. ndp_loop p (i + opt_len) lla')))
      else Ok lla)"
  by pat_completeness auto
termination
  by (relation "measure (\<lambda>(p, i, lla). length p - i)") auto

declare ndp_loop.simps [simp del]

definition parse_ndp :: "bytes \<Rightarrow> (net_proto_error, ndp_entry) rust" where
  "parse_ndp payload =
     (if length payload < 24 then Err (Parse ''ICMPv6 payload too short'')
      else
        rbind (ridx payload 0) (\<lambda>t.
        rbind (rslice payload 8 24) (\<lambda>target.
        rbind (ndp_loop payload 24 None) (\<lambda>lla.
          Ok \<lparr>ndp_type = icmpv6_type_from t, ndp_target_addr = target,
              ndp_link_layer_addr = lla\<rparr>))))"

function na_loop :: "bytes \<Rightarrow> nat \<Rightarrow> mac6 option \<Rightarrow> (net_proto_error, mac6 option) rust" where
  "na_loop p i lla =
     (if i + 2 \<le> length p then
        rbind (ridx p i) (\<lambda>opt_type.
        rbind (ridx p (i + 1)) (\<lambda>l.
        let opt_len = unat l * 8 in
        if opt_len = 0 then Ok lla
        else
          rbind
            (if opt_type = 2 \<and> 8 \<le> opt_len \<and> i + 8 \<le> length p
             then rbind (rmac p (i + 2)) (\<lambda>m. Ok (Some m))
             else Ok lla)
            (\<lambda>lla'. na_loop p (i + opt_len) lla')))
      else Ok lla)"
  by pat_completeness auto
termination
  by (relation "measure (\<lambda>(p, i, lla). length p - i)") auto

declare na_loop.simps [simp del]

definition parse_neighbor_advertisement ::
  "bytes \<Rightarrow> (net_proto_error, neighbor_advertisement) rust" where
  "parse_neighbor_advertisement payload =
     (if length payload < 24 then Err (Parse ''ICMPv6 NA payload too short'')
      else
        rbind (ridx payload 0) (\<lambda>t.
        if t \<noteq> 136 then Err (Parse ''not an ICMPv6 Neighbor Advertisement'')
        else
          rbind (rslice payload 8 24) (\<lambda>target.
          rbind (na_loop payload 24 None) (\<lambda>lla.
            Ok \<lparr>na_target_addr = target, na_link_layer_addr = lla\<rparr>))))"

section \<open>The spoofed advertisement\<close>

definition craft_na_spoof :: "mac6 \<Rightarrow> ipv6 \<Rightarrow> bytes" where
  "craft_na_spoof sender target =
     [0x33, 0x33, 0x00, 0x00, 0x00, 0x01]
     @ mac_bytes sender
     @ [0x86, 0xDD]
     @ [0x60, 0, 0, 0]
     @ [0x00, 0x20]
     @ [58, 255]
     @ target
     @ [0xFF, 0x02, 0, 0, 0, 0, 0, 0, 0, 0, 0, 0, 0, 0, 0, 0x01]
     @ [136, 0]
     @ [0x00, 0x00]
     @ [0x20, 0x00, 0x00, 0x00]
     @ target
     @ [2, 1]
     @ mac_bytes sender"

section \<open>No payload makes the parsers panic\<close>

lemma rmac_cases: "i + 6 \<le> length p \<Longrightarrow> \<exists>m. rmac p i = (Ok m :: (net_proto_error, mac6) rust)"
  using rmac_Ok by blast

lemma ndp_loop_Ok: "\<exists>l. ndp_loop p i lla = Ok l"
proof (induction "length p - i" arbitrary: i lla rule: less_induct)
  case less
  show ?case
  proof (cases "i + 2 \<le> length p")
    case True
    let ?n = "unat (p ! (i + 1)) * 8"
    show ?thesis
    proof (cases "?n = 0 \<or> length p < i + ?n")
      case False
      then have n: "8 \<le> ?n" "i + ?n \<le> length p" by auto
      then obtain m where m: "rmac p (i + 2) = (Ok m :: (net_proto_error, mac6) rust)"
        using rmac_cases [of "i + 2" p] by auto
      have lt: "length p - (i + ?n) < length p - i" using True n by simp
      show ?thesis
        using True n m less [OF lt] by (subst ndp_loop.simps) (auto simp: Let_def)
    qed (use True in \<open>subst ndp_loop.simps, auto simp: Let_def\<close>)
  qed (subst ndp_loop.simps, simp)
qed

lemma na_loop_Ok: "\<exists>l. na_loop p i lla = Ok l"
proof (induction "length p - i" arbitrary: i lla rule: less_induct)
  case less
  show ?case
  proof (cases "i + 2 \<le> length p")
    case True
    let ?n = "unat (p ! (i + 1)) * 8"
    show ?thesis
    proof (cases "?n = 0")
      case False
      then have lt: "length p - (i + ?n) < length p - i" using True by simp
      have "\<exists>l'. (if p ! i = 2 \<and> 8 \<le> ?n \<and> i + 8 \<le> length p
              then rbind (rmac p (i + 2)) (\<lambda>m. Ok (Some m)) else Ok lla)
          = (Ok l' :: (net_proto_error, mac6 option) rust)"
        using rmac_cases [of "i + 2" p] by auto
      then show ?thesis
        using True False less [OF lt] by (subst na_loop.simps) (auto simp: Let_def)
    qed (use True in \<open>subst na_loop.simps, auto simp: Let_def\<close>)
  qed (subst na_loop.simps, simp)
qed

lemma parse_ndp_long:
  assumes "24 \<le> length p"
  shows "\<exists>lla. parse_ndp p = Ok \<lparr>ndp_type = icmpv6_type_from (p ! 0),
     ndp_target_addr = take 16 (drop 8 p), ndp_link_layer_addr = lla\<rparr>"
  using assms ndp_loop_Ok [of p 24 None] by (auto simp: parse_ndp_def ridx_def)

lemma parse_ndp_no_panic: "parse_ndp p \<noteq> Panic"
proof (cases "24 \<le> length p")
  case True
  then show ?thesis using parse_ndp_long by fastforce
qed (simp add: parse_ndp_def)

lemma parse_neighbor_advertisement_no_panic: "parse_neighbor_advertisement p \<noteq> Panic"
proof (cases "24 \<le> length p")
  case True
  obtain l where "na_loop p 24 None = Ok l" using na_loop_Ok by blast
  with True show ?thesis by (auto simp: parse_neighbor_advertisement_def ridx_def split: if_splits)
qed (simp add: parse_neighbor_advertisement_def)

section \<open>Reading back a spoofed advertisement\<close>

lemma length_16_cases:
  assumes "length xs = 16"
  obtains a b c d e f g h i j k l m n q r where "xs = [a, b, c, d, e, f, g, h, i, j, k, l, m, n, q, r]"
proof -
  have "length xs = Suc (Suc (Suc (Suc (Suc (Suc (Suc (Suc
          (Suc (Suc (Suc (Suc (Suc (Suc (Suc (Suc 0)))))))))))))))"
    using assms by simp
  then show ?thesis using that by (auto simp: length_Suc_conv)
qed

lemma craft_na_spoof_length: "length target = 16 \<Longrightarrow> length (craft_na_spoof s target) = 86"
  by (simp add: craft_na_spoof_def)

definition icmpv6_payload :: "bytes \<Rightarrow> bytes" where
  "icmpv6_payload frame = drop 54 frame"

lemma craft_na_payload:
  "length target = 16 \<Longrightarrow> icmpv6_payload (craft_na_spoof s target) =
     [136, 0, 0, 0, 0x20, 0, 0, 0] @ target @ [2, 1] @ mac_bytes s"
  by (simp add: icmpv6_payload_def craft_na_spoof_def)

lemma rmac_26:
  "length target = 16 \<Longrightarrow>
   rmac ([136, 0, 0, 0, 0x20, 0, 0, 0] @ target @ [2, 1] @ mac_bytes s) 26 = Ok s"
  using rmac_at [of "[136, 0, 0, 0, 0x20, 0, 0, 0] @ target @ [2, 1]" 26 s "[]"] by simp

lemma parse_craft_na_spoof:
  assumes "length target = 16"
  shows "parse_ndp (icmpv6_payload (craft_na_spoof s target)) =
    Ok \<lparr>ndp_type = NeighborAdvertisement, ndp_target_addr = target, ndp_link_layer_addr = Some s\<rparr>"
proof -
  let ?p = "[136, 0, 0, 0, 0x20, 0, 0, 0] @ target @ [2, 1] @ mac_bytes s"
  have p24: "?p ! 24 = 2" "?p ! 25 = 1"
    using assms by (simp_all add: nth_append)
  have "ndp_loop ?p 32 (Some s) = Ok (Some s)"
    using assms by (subst ndp_loop.simps) simp
  then have "ndp_loop ?p 24 None = Ok (Some s)"
    using assms p24 rmac_26 [OF assms, of s, where 'a = net_proto_error]
    by (subst ndp_loop.simps) (simp add: Let_def del: append_Cons append_Nil)
  then show ?thesis
    unfolding craft_na_payload [OF assms]
    using assms by (simp add: parse_ndp_def icmpv6_type_from_def)
qed

lemma parse_na_craft_na_spoof:
  assumes "length target = 16"
  shows "parse_neighbor_advertisement (icmpv6_payload (craft_na_spoof s target)) =
    Ok \<lparr>na_target_addr = target, na_link_layer_addr = Some s\<rparr>"
proof -
  let ?p = "[136, 0, 0, 0, 0x20, 0, 0, 0] @ target @ [2, 1] @ mac_bytes s"
  have p24: "?p ! 24 = 2" "?p ! 25 = 1"
    using assms by (simp_all add: nth_append)
  have "na_loop ?p 32 (Some s) = Ok (Some s)"
    using assms by (subst na_loop.simps) simp
  then have "na_loop ?p 24 None = Ok (Some s)"
    using assms p24 rmac_26 [OF assms, of s, where 'a = net_proto_error]
    by (subst na_loop.simps) (simp add: Let_def del: append_Cons append_Nil)
  then show ?thesis
    unfolding craft_na_payload [OF assms]
    using assms by (simp add: parse_neighbor_advertisement_def)
qed

end
