(* ===== verification/MacText.thy ===== *)
theory MacText
  imports NacText
begin

text \<open>
  The textual forms of hardware addresses. Six services normalise or format an address their own
  way: the RADIUS server and the agent gateway (\<^verbatim>\<open>normalize_mac\<close>), the firewall
  (\<^verbatim>\<open>nft_mac\<close>, \<^verbatim>\<open>ipt_mac\<close>), the enforcement consumer
  (\<^verbatim>\<open>parse_mac\<close>), the sensor and the DHCP server (\<^verbatim>\<open>format_mac\<close>). The
  locale \<open>mac_canon\<close> states what a normaliser promises; every one of them is an instance,
  so all agree on which device a text names.
\<close>

section \<open>Hexadecimal digits and pairs\<close>

definition hex_digits :: "string \<Rightarrow> string" where
  "hex_digits s = filter is_ascii_hexdigit s"

definition hex_pairs :: "string \<Rightarrow> string list" where
  "hex_pairs h = map (\<lambda>i. take 2 (drop (i * 2) h)) [0..<6]"

section \<open>The code's functions\<close>

text \<open>RADIUS server.\<close>

definition aaa_normalize_mac :: "string \<Rightarrow> string option" where
  "aaa_normalize_mac raw =
     (let hex = to_lowercase (hex_digits raw) in
      if length hex = 12 then
        Some (take 2 hex @ '':'' @ take 2 (drop 2 hex) @ '':'' @ take 2 (drop 4 hex) @ '':''
              @ take 2 (drop 6 hex) @ '':'' @ take 2 (drop 8 hex) @ '':'' @ take 2 (drop 10 hex))
      else None)"

text \<open>Agent gateway.\<close>

definition agent_normalize_mac :: "string \<Rightarrow> string option" where
  "agent_normalize_mac s =
     (let s' = trim s in
      if s' = [] then None
      else
        let hex = hex_digits s' in
        if length hex = 12 then Some (join '':'' (map to_lowercase (hex_pairs hex)))
        else None)"

definition legacy_device_id_to_mac :: "string \<Rightarrow> string" where
  "legacy_device_id_to_mac device_id =
     (let hex = take 12 (hex_digits device_id) in
      if length hex = 12 then join '':'' (map to_lowercase (hex_pairs hex))
      else ''00:00:00:00:00:00'')"

text \<open>Firewall.\<close>

definition nft_mac :: "string \<Rightarrow> string" where
  "nft_mac mac =
     (let clean = hex_digits mac in
      if length clean = 12 then join '':'' (map to_lowercase (hex_pairs clean))
      else to_lowercase mac)"

definition ipt_mac :: "string \<Rightarrow> string" where
  "ipt_mac mac =
     (let clean = hex_digits mac in
      if length clean = 12 then join '':'' (map to_uppercase (hex_pairs clean))
      else to_uppercase mac)"

text \<open>Enforcement consumer.\<close>

definition parse_pair :: "string \<Rightarrow> u8 option" where
  "parse_pair h = map_option of_nat (from_str_radix 16 256 h)"

definition parse_mac :: "string \<Rightarrow> mac6 option" where
  "parse_mac mac =
     (let clean = hex_digits mac in
      if length clean \<noteq> 12 then None
      else case map parse_pair (hex_pairs clean) of
             [Some a, Some b, Some c, Some d, Some e, Some f] \<Rightarrow> Some (Mac a b c d e f)
           | _ \<Rightarrow> None)"

text \<open>Sensor, upper case, and DHCP server, lower case and at most six bytes.\<close>

fun format_mac :: "mac6 \<Rightarrow> string" where
  "format_mac (Mac a b c d e f) =
     fmt_02X a @ '':'' @ fmt_02X b @ '':'' @ fmt_02X c @ '':''
     @ fmt_02X d @ '':'' @ fmt_02X e @ '':'' @ fmt_02X f"

definition dhcp_format_mac :: "bytes \<Rightarrow> string" where
  "dhcp_format_mac chaddr = join '':'' (map fmt_02x (take (min 6 (length chaddr)) chaddr))"

section \<open>Twelve digits\<close>

lemma length_12_cases:
  assumes "length xs = 12"
  obtains a b c d e f g h i j k l where "xs = [a, b, c, d, e, f, g, h, i, j, k, l]"
proof -
  have "length xs = Suc (Suc (Suc (Suc (Suc (Suc (Suc (Suc (Suc (Suc (Suc (Suc 0)))))))))))"
    using assms by simp
  then show ?thesis using that by (auto simp: length_Suc_conv)
qed

lemma hex_pairs_12 [simp]:
  "hex_pairs [a, b, c, d, e, f, g, h, i, j, k, l] = [[a, b], [c, d], [e, f], [g, h], [i, j], [k, l]]"
  by (simp add: hex_pairs_def upt_rec)

lemma hex_digits_lower: "hex_digits (to_lowercase s) = to_lowercase (hex_digits s)"
  by (induction s) (auto simp: hex_digits_def)

lemma hex_digits_upper: "hex_digits (to_uppercase s) = to_uppercase (hex_digits s)"
  by (induction s) (auto simp: hex_digits_def)

lemma hex_digits_append [simp]: "hex_digits (s @ t) = hex_digits s @ hex_digits t"
  by (simp add: hex_digits_def)

lemma hex_digits_Cons [simp]:
  "hex_digits (c # s) = (if is_ascii_hexdigit c then c # hex_digits s else hex_digits s)"
  by (simp add: hex_digits_def)

lemma hex_digits_Nil [simp]: "hex_digits [] = []"
  by (simp add: hex_digits_def)

lemma hex_digits_ok: "c \<in> set (hex_digits s) \<Longrightarrow> is_ascii_hexdigit c"
  by (simp add: hex_digits_def)

lemma colon_not_hexdigit [simp]: "\<not> is_ascii_hexdigit CHR '':''"
  by (simp add: is_ascii_hexdigit_def is_digit_ascii_def ccode_def)

lemma space_not_hexdigit: "is_space c \<Longrightarrow> \<not> is_ascii_hexdigit c"
  by (auto simp: is_space_def is_ascii_hexdigit_def is_digit_ascii_def)

lemma hex_digits_dropWhile_space [simp]: "hex_digits (dropWhile is_space s) = hex_digits s"
  by (induction s) (auto simp: space_not_hexdigit)

lemma hex_digits_rev: "hex_digits (rev s) = rev (hex_digits s)"
  by (simp add: hex_digits_def rev_filter)

lemma hex_digits_trim [simp]: "hex_digits (trim s) = hex_digits s"
  by (simp add: trim_def hex_digits_rev)

text \<open>The canonical text of twelve digits, and its digits.\<close>

definition canon_text :: "string \<Rightarrow> string" where
  "canon_text h = join '':'' (hex_pairs h)"

lemma hex_digits_canon:
  assumes "length h = 12" and "\<forall>c \<in> set h. is_ascii_hexdigit c"
  shows "hex_digits (canon_text h) = h"
  using assms(2) by (rule_tac length_12_cases [OF assms(1)]) (simp add: canon_text_def)

lemma canon_text_lower:
  "length h = 12 \<Longrightarrow> canon_text (to_lowercase h) = join '':'' (map to_lowercase (hex_pairs h))"
  by (erule length_12_cases) (simp add: canon_text_def)

lemma canon_text_upper:
  "length h = 12 \<Longrightarrow> canon_text (to_uppercase h) = join '':'' (map to_uppercase (hex_pairs h))"
  by (erule length_12_cases) (simp add: canon_text_def)

lemma aaa_normalize_mac_canon:
  "aaa_normalize_mac s =
     (if length (hex_digits s) = 12 then Some (canon_text (to_lowercase (hex_digits s))) else None)"
proof (cases "length (hex_digits s) = 12")
  case True
  then show ?thesis
    by (rule length_12_cases) (simp add: aaa_normalize_mac_def Let_def canon_text_def)
qed (simp add: aaa_normalize_mac_def Let_def)

lemma trim_Nil_digits: "trim s = [] \<Longrightarrow> hex_digits s = []"
  by (metis hex_digits_Nil hex_digits_trim)

lemma agent_normalize_mac_canon:
  "agent_normalize_mac s =
     (if length (hex_digits s) = 12 then Some (canon_text (to_lowercase (hex_digits s))) else None)"
  using trim_Nil_digits [of s]
  by (auto simp: agent_normalize_mac_def Let_def canon_text_lower)

lemma nft_mac_canon:
  "length (hex_digits s) = 12 \<Longrightarrow> nft_mac s = canon_text (to_lowercase (hex_digits s))"
  by (simp add: nft_mac_def Let_def canon_text_lower)

lemma ipt_mac_canon:
  "length (hex_digits s) = 12 \<Longrightarrow> ipt_mac s = canon_text (to_uppercase (hex_digits s))"
  by (simp add: ipt_mac_def Let_def canon_text_upper)

section \<open>Parsing depends on the digits only\<close>

lemma parse_pair_hex:
  assumes "is_ascii_hexdigit c" and "is_ascii_hexdigit d"
  shows "\<exists>x y. hex_val c = Some x \<and> hex_val d = Some y \<and> parse_pair [c, d] = Some (of_nat (x * 16 + y))"
proof -
  obtain x y where "hex_val c = Some x" "hex_val d = Some y"
    using assms hex_val_Some_iff by blast
  then show ?thesis by (auto simp: parse_pair_def from_str_radix_two_digits)
qed

lemma parse_pair_lower:
  assumes "is_ascii_hexdigit c" and "is_ascii_hexdigit d"
  shows "parse_pair [lower_char c, lower_char d] = parse_pair [c, d]"
  using parse_pair_hex [of c d] parse_pair_hex [of "lower_char c" "lower_char d"] assms
  by auto

lemma parse_mac_digits: "hex_digits s = hex_digits t \<Longrightarrow> parse_mac s = parse_mac t"
  by (simp add: parse_mac_def)

lemma parse_mac_lower: "parse_mac (to_lowercase s) = parse_mac s"
proof (cases "length (hex_digits s) = 12")
  case True
  have "\<forall>c \<in> set (hex_digits s). is_ascii_hexdigit c" using hex_digits_ok by blast
  with True show ?thesis
    by (rule_tac length_12_cases [OF True])
       (simp add: parse_mac_def Let_def hex_digits_lower parse_pair_lower)
qed (simp add: parse_mac_def Let_def hex_digits_lower)

lemma parse_mac_case:
  assumes "to_lowercase (hex_digits s) = to_lowercase (hex_digits t)"
  shows "parse_mac s = parse_mac t"
proof -
  have "parse_mac s = parse_mac (to_lowercase s)" by (simp add: parse_mac_lower)
  also have "\<dots> = parse_mac (to_lowercase t)"
    using assms by (intro parse_mac_digits) (simp add: hex_digits_lower)
  finally show ?thesis by (simp add: parse_mac_lower)
qed

lemma parse_mac_None_iff: "parse_mac s = None \<longleftrightarrow> length (hex_digits s) \<noteq> 12"
proof (cases "length (hex_digits s) = 12")
  case True
  then obtain a b c d e f g h i j k l where
    h: "hex_digits s = [a, b, c, d, e, f, g, h, i, j, k, l]"
    by (rule length_12_cases)
  then have "is_ascii_hexdigit x" if "x \<in> {a, b, c, d, e, f, g, h, i, j, k, l}" for x
    using that hex_digits_ok [of x s] by auto
  then have "\<exists>v. parse_pair [x, y] = Some v"
    if "x \<in> {a, b, c, d, e, f, g, h, i, j, k, l}" "y \<in> {a, b, c, d, e, f, g, h, i, j, k, l}" for x y
    using that parse_pair_hex [of x y] by blast
  then obtain v1 v2 v3 v4 v5 v6 where
    "parse_pair [a, b] = Some v1" "parse_pair [c, d] = Some v2" "parse_pair [e, f] = Some v3"
    "parse_pair [g, h] = Some v4" "parse_pair [i, j] = Some v5" "parse_pair [k, l] = Some v6"
    by (metis insertCI)
  then show ?thesis by (simp add: parse_mac_def Let_def h)
qed (simp add: parse_mac_def Let_def)

lemma parse_pair_fmt_02X [simp]: "parse_pair (fmt_02X b) = Some b"
  by (simp add: parse_pair_def)

lemma parse_pair_fmt_02x [simp]: "parse_pair (fmt_02x b) = Some b"
  by (simp add: parse_pair_def)

lemma hex_digits_fmt [simp]: "hex_digits (fmt_02X b) = fmt_02X b" "hex_digits (fmt_02x b) = fmt_02x b"
  by (simp_all add: fmt_02X_def fmt_02x_def)

lemma fmt_pairs:
  "fmt_02X b = [hex_upper (unat b div 16), hex_upper (unat b mod 16)]"
  "fmt_02x b = [hex_lower (unat b div 16), hex_lower (unat b mod 16)]"
  by (simp_all add: fmt_02X_def fmt_02x_def)

lemma hex_digits_format_mac:
  "hex_digits (format_mac (Mac a b c d e f)) =
     fmt_02X a @ fmt_02X b @ fmt_02X c @ fmt_02X d @ fmt_02X e @ fmt_02X f"
  by simp

lemma parse_format_mac [simp]: "parse_mac (format_mac m) = Some m"
proof (cases m)
  case (Mac a b c d e f)
  have "hex_pairs (fmt_02X a @ fmt_02X b @ fmt_02X c @ fmt_02X d @ fmt_02X e @ fmt_02X f) =
    map fmt_02X [a, b, c, d, e, f]"
    by (simp add: fmt_pairs)
  then show ?thesis
    unfolding Mac parse_mac_def Let_def hex_digits_format_mac by simp
qed

lemma dhcp_format_mac_lower:
  "dhcp_format_mac (mac_bytes m) = to_lowercase (format_mac m)"
  by (cases m) (simp add: dhcp_format_mac_def ccode_def lower_char_def is_upper_ascii_def)

lemma parse_dhcp_format_mac [simp]: "parse_mac (dhcp_format_mac (mac_bytes m)) = Some m"
  by (simp add: dhcp_format_mac_lower parse_mac_lower)

section \<open>What a normaliser promises\<close>

locale mac_canon =
  fixes norm :: "string \<Rightarrow> string option"
  assumes norm_defined: "norm s = None \<longleftrightarrow> length (hex_digits s) \<noteq> 12"
    and norm_digits: "norm s = Some t \<Longrightarrow> to_lowercase (hex_digits t) = to_lowercase (hex_digits s)"
    and norm_same: "to_lowercase (hex_digits s) = to_lowercase (hex_digits t) \<Longrightarrow> norm s = norm t"
begin

lemma norm_idem: "norm s = Some t \<Longrightarrow> norm t = Some t"
  using norm_same [OF norm_digits] by metis

lemma norm_parse: "norm s = Some t \<Longrightarrow> parse_mac t = parse_mac s"
  using norm_digits parse_mac_case by blast

lemma norm_format: "norm (format_mac m) \<noteq> None"
  using parse_mac_None_iff [of "format_mac m"] by (simp add: norm_defined)

lemma norm_None_parse: "norm s = None \<longleftrightarrow> parse_mac s = None"
  by (simp add: norm_defined parse_mac_None_iff)

end

lemma lower_hex_digits_canon:
  assumes "length (hex_digits s) = 12"
  shows "hex_digits (canon_text (to_lowercase (hex_digits s))) = to_lowercase (hex_digits s)"
    and "hex_digits (canon_text (to_uppercase (hex_digits s))) = to_uppercase (hex_digits s)"
  using assms hex_digits_ok [of _ s] by (auto intro!: hex_digits_canon)

lemma length_lower_eq: "to_lowercase s = to_lowercase t \<Longrightarrow> length s = length t"
  by (rule map_eq_imp_length_eq)

interpretation aaa_mac: mac_canon aaa_normalize_mac
proof unfold_locales
  show "aaa_normalize_mac s = aaa_normalize_mac t"
    if "to_lowercase (hex_digits s) = to_lowercase (hex_digits t)" for s t
    using that length_lower_eq [OF that] by (simp add: aaa_normalize_mac_canon)
qed (auto simp: aaa_normalize_mac_canon lower_hex_digits_canon comp_def split: if_splits)

interpretation agent_mac: mac_canon agent_normalize_mac
proof unfold_locales
  show "agent_normalize_mac s = agent_normalize_mac t"
    if "to_lowercase (hex_digits s) = to_lowercase (hex_digits t)" for s t
    using that length_lower_eq [OF that] by (simp add: agent_normalize_mac_canon)
qed (auto simp: agent_normalize_mac_canon lower_hex_digits_canon comp_def split: if_splits)

interpretation nft_canon: mac_canon
  "\<lambda>s. if length (hex_digits s) = 12 then Some (nft_mac s) else None"
proof unfold_locales
  show "(if length (hex_digits s) = 12 then Some (nft_mac s) else None)
      = (if length (hex_digits t) = 12 then Some (nft_mac t) else None)"
    if "to_lowercase (hex_digits s) = to_lowercase (hex_digits t)" for s t
    using that length_lower_eq [OF that] by (simp add: nft_mac_canon)
qed (auto simp: nft_mac_canon lower_hex_digits_canon comp_def split: if_splits)

interpretation ipt_canon: mac_canon
  "\<lambda>s. if length (hex_digits s) = 12 then Some (ipt_mac s) else None"
proof unfold_locales
  show "(if length (hex_digits s) = 12 then Some (ipt_mac s) else None)
      = (if length (hex_digits t) = 12 then Some (ipt_mac t) else None)"
    if "to_lowercase (hex_digits s) = to_lowercase (hex_digits t)" for s t
    using that length_lower_eq [OF that] iffD2 [OF upper_eq_iff_lower_eq that]
    by (simp add: ipt_mac_canon)
qed (auto simp: ipt_mac_canon lower_hex_digits_canon comp_def split: if_splits)

text \<open>The two normalisers are the same function; the two firewalls differ only in case.\<close>

lemma normalizers_agree: "aaa_normalize_mac s = agent_normalize_mac s"
  by (simp add: aaa_normalize_mac_canon agent_normalize_mac_canon)

lemma upper_char_colon [simp]: "upper_char CHR '':'' = CHR '':''"
  by (simp add: upper_char_def is_lower_ascii_def ccode_def)

lemma ipt_nft_mac: "ipt_mac s = to_uppercase (nft_mac s)"
proof (cases "length (hex_digits s) = 12")
  case True
  then show ?thesis
    by (rule length_12_cases) (simp add: ipt_mac_def nft_mac_def)
qed (simp add: ipt_mac_def nft_mac_def Let_def comp_def)

text \<open>The address taken from an old device id is always a full address.\<close>

lemma legacy_mac_parses: "\<exists>m. parse_mac (legacy_device_id_to_mac s) = Some m"
proof -
  have "length (hex_digits (legacy_device_id_to_mac s)) = 12"
  proof (cases "length (take 12 (hex_digits s)) = 12")
    case True
    have "\<forall>c \<in> set (to_lowercase (take 12 (hex_digits s))). is_ascii_hexdigit c"
      using hex_digits_ok by (auto dest: in_set_takeD)
    then have "hex_digits (canon_text (to_lowercase (take 12 (hex_digits s)))) =
        to_lowercase (take 12 (hex_digits s))"
      using True by (intro hex_digits_canon) auto
    with True show ?thesis
      unfolding legacy_device_id_to_mac_def Let_def by (simp add: canon_text_lower [symmetric])
  qed (auto simp: legacy_device_id_to_mac_def Let_def is_ascii_hexdigit_def is_digit_ascii_def ccode_def)
  then show ?thesis using parse_mac_None_iff [of "legacy_device_id_to_mac s"] by auto
qed

end
