(* ===== verification/PolicyEngine.thy ===== *)
theory PolicyEngine
  imports NacText
begin

text \<open>
  The rule engine, \<^verbatim>\<open>crates/nac-policy-engine\<close>: conditions, rules, decisions, the
  recursive matcher and the evaluation of a rule list, which sorts it in place by priority and takes
  the first match. The specification \<open>best_rule\<close> says which rule decides, without sorting:
  the matching rule of least priority, the earliest in the given order among equals.
\<close>

section \<open>Decisions, contexts, conditions and rules\<close>

datatype policy_error = UnknownPolicy string | Evaluation string | Serialization string

datatype policy_decision =
    Allow
  | AllowVlan u16
  | Quarantine (q_vlan: u16) (q_reason: string)
  | Deny (d_reason: string)

record policy_context =
  px_mac_address :: string
  px_ip_address :: "string option"
  px_hostname :: "string option"
  px_os_family :: "string option"
  px_device_type :: "string option"
  px_username :: "string option"
  px_groups :: "string list"
  px_is_compliant :: "bool option"
  px_switch_port :: "string option"

datatype condition =
    OsFamily string
  | UserGroup "string list"
  | Compliant bool
  | DeviceType string
  | And "condition list"
  | Or "condition list"
  | Not condition
  | MacList "string list"
  | OsVersionBelow string
  | OsVersionAtLeast string
  | SoftwareInstalled string
  | SoftwareNotInstalled string
  | HasMissingPatches
  | UsbEnabled
  | BluetoothEnabled
  | FolderSharingEnabled
  | MacBlacklist "string list"

record policy_rule =
  pr_name :: string
  pr_priority :: int
  pr_condition :: condition
  pr_decision :: policy_decision

section \<open>Matching and evaluation\<close>

fun matches_condition :: "condition \<Rightarrow> policy_context \<Rightarrow> bool" where
  "matches_condition (OsFamily v) ctx = (px_os_family ctx = Some v)"
| "matches_condition (UserGroup gs) ctx = list_ex (\<lambda>g. g \<in> set (px_groups ctx)) gs"
| "matches_condition (Compliant req) ctx = (px_is_compliant ctx = Some req)"
| "matches_condition (DeviceType v) ctx = (px_device_type ctx = Some v)"
| "matches_condition (And cs) ctx = list_all (\<lambda>c. matches_condition c ctx) cs"
| "matches_condition (Or cs) ctx = list_ex (\<lambda>c. matches_condition c ctx) cs"
| "matches_condition (Not c) ctx = (\<not> matches_condition c ctx)"
| "matches_condition (MacList ms) ctx =
     list_ex (\<lambda>m. to_uppercase m = to_uppercase (px_mac_address ctx)) ms"
| "matches_condition (MacBlacklist ms) ctx =
     list_ex (\<lambda>m. to_uppercase m = to_uppercase (px_mac_address ctx)) ms"
| "matches_condition (OsVersionBelow v) ctx = False"
| "matches_condition (OsVersionAtLeast v) ctx = False"
| "matches_condition (SoftwareInstalled n) ctx = False"
| "matches_condition (SoftwareNotInstalled n) ctx = False"
| "matches_condition HasMissingPatches ctx = False"
| "matches_condition UsbEnabled ctx = False"
| "matches_condition BluetoothEnabled ctx = False"
| "matches_condition FolderSharingEnabled ctx = False"

fun first_match :: "policy_rule list \<Rightarrow> policy_context \<Rightarrow> policy_decision option" where
  "first_match [] ctx = None"
| "first_match (r # rs) ctx =
     (if matches_condition (pr_condition r) ctx then Some (pr_decision r) else first_match rs ctx)"

text \<open>
  \<^verbatim>\<open>evaluate(&mut rules, ctx)\<close>: the result, and the slice left behind, which
  \<^verbatim>\<open>sort_by_key\<close> (a stable sort) has reordered.
\<close>

definition evaluate ::
  "policy_rule list \<Rightarrow> policy_context \<Rightarrow> (policy_error, policy_decision) rust \<times> policy_rule list"
where
  "evaluate rules ctx =
     (let rules' = sort_key pr_priority rules in
      (case first_match rules' ctx of
         Some d \<Rightarrow> Ok d
       | None \<Rightarrow> Ok (Deny ''no matching policy rule''),
       rules'))"

section \<open>Which rule decides\<close>

text \<open>Specification: scan once, replacing the candidate only by a strictly smaller priority.\<close>

fun best_rule :: "policy_rule list \<Rightarrow> policy_context \<Rightarrow> policy_rule option" where
  "best_rule [] ctx = None"
| "best_rule (r # rs) ctx =
     (case best_rule rs ctx of
        None \<Rightarrow> if matches_condition (pr_condition r) ctx then Some r else None
      | Some b \<Rightarrow>
          if matches_condition (pr_condition r) ctx \<and> pr_priority r \<le> pr_priority b then Some r
          else Some b)"

lemma first_match_filter:
  "first_match rs ctx =
     (case filter (\<lambda>r. matches_condition (pr_condition r) ctx) rs of
        [] \<Rightarrow> None | r # _ \<Rightarrow> Some (pr_decision r))"
  by (induction rs) auto

lemma hd_insort_key:
  "xs \<noteq> [] \<Longrightarrow> hd (insort_key f x xs) = (if f x \<le> f (hd xs) then x else hd xs)"
  by (cases xs) auto

lemma filter_sort_key_hd:
  "filter (\<lambda>r. matches_condition (pr_condition r) ctx) (sort_key pr_priority rs) =
     sort_key pr_priority (filter (\<lambda>r. matches_condition (pr_condition r) ctx) rs)"
  by (rule filter_sort)

lemma best_rule_sorted:
  "best_rule rs ctx =
     (case sort_key pr_priority (filter (\<lambda>r. matches_condition (pr_condition r) ctx) rs) of
        [] \<Rightarrow> None | r # _ \<Rightarrow> Some r)"
proof (induction rs)
  case (Cons r rs)
  let ?s = "sort_key pr_priority (filter (\<lambda>r. matches_condition (pr_condition r) ctx) rs)"
  show ?case
    using Cons by (cases ?s) auto
qed simp

lemma evaluate_best_rule:
  "fst (evaluate rules ctx) =
     (case best_rule rules ctx of
        Some r \<Rightarrow> Ok (pr_decision r)
      | None \<Rightarrow> Ok (Deny ''no matching policy rule''))"
  by (simp add: evaluate_def Let_def first_match_filter filter_sort_key_hd best_rule_sorted
      split: list.splits)

lemma best_rule_None_iff:
  "best_rule rules ctx = None \<longleftrightarrow> (\<forall>r \<in> set rules. \<not> matches_condition (pr_condition r) ctx)"
  by (induction rules) (auto split: option.splits if_splits)

lemma best_rule_SomeD:
  "best_rule rules ctx = Some r \<Longrightarrow>
   \<exists>pre post. rules = pre @ r # post
     \<and> matches_condition (pr_condition r) ctx
     \<and> (\<forall>r' \<in> set pre. matches_condition (pr_condition r') ctx \<longrightarrow> pr_priority r < pr_priority r')
     \<and> (\<forall>r' \<in> set post. matches_condition (pr_condition r') ctx \<longrightarrow> pr_priority r \<le> pr_priority r')"
proof (induction rules arbitrary: r)
  case (Cons a rs)
  show ?case
  proof (cases "best_rule rs ctx")
    case None
    then have "r = a" "matches_condition (pr_condition a) ctx"
      using Cons.prems by (auto split: if_splits)
    moreover have "\<forall>r' \<in> set rs. \<not> matches_condition (pr_condition r') ctx"
      using None by (simp add: best_rule_None_iff)
    ultimately show ?thesis by (intro exI [of _ "[]"] exI [of _ rs]) auto
  next
    case (Some b)
    from Cons.IH [OF Some] obtain pre post where
      rs: "rs = pre @ b # post" "matches_condition (pr_condition b) ctx"
      "\<forall>r' \<in> set pre. matches_condition (pr_condition r') ctx \<longrightarrow> pr_priority b < pr_priority r'"
      "\<forall>r' \<in> set post. matches_condition (pr_condition r') ctx \<longrightarrow> pr_priority b \<le> pr_priority r'"
      by blast
    show ?thesis
    proof (cases "matches_condition (pr_condition a) ctx \<and> pr_priority a \<le> pr_priority b")
      case True
      with Some Cons.prems have "r = a" by simp
      with True rs show ?thesis
        by (intro exI [of _ "[]"] exI [of _ rs]) fastforce
    next
      case False
      with Some Cons.prems have "r = b" by (auto split: if_splits)
      with False rs show ?thesis
        by (intro exI [of _ "a # pre"] exI [of _ post]) auto
    qed
  qed
qed simp

section \<open>The slice left behind\<close>

lemma evaluate_rules_sorted: "sorted (map pr_priority (snd (evaluate rules ctx)))"
  by (simp add: evaluate_def Let_def)

lemma evaluate_rules_stable:
  "filter (\<lambda>r. pr_priority r = k) (snd (evaluate rules ctx)) = filter (\<lambda>r. pr_priority r = k) rules"
  by (simp add: evaluate_def Let_def sort_key_stable)

lemma evaluate_not_panic: "fst (evaluate rules ctx) \<noteq> Panic" "fst (evaluate rules ctx) \<noteq> Err e"
  by (simp_all add: evaluate_best_rule split: option.splits)

lemma evaluate_total: "\<exists>d. fst (evaluate rules ctx) = Ok d"
  by (simp add: evaluate_best_rule split: option.splits)

text \<open>Evaluating again, on the slice left behind, decides the same.\<close>

lemma evaluate_again: "evaluate (snd (evaluate rules ctx)) ctx = evaluate rules ctx"
  by (simp add: evaluate_def Let_def sort_key_id_if_sorted)

section \<open>Logic of conditions\<close>

lemma matches_And_empty [simp]: "matches_condition (And []) ctx"
  by simp

lemma matches_de_morgan:
  "matches_condition (Not (And cs)) ctx = matches_condition (Or (map Not cs)) ctx"
  "matches_condition (Not (Or cs)) ctx = matches_condition (And (map Not cs)) ctx"
  by (auto simp: list_all_iff list_ex_iff)

text \<open>The case of a hardware address never matters.\<close>

lemma matches_mac_case:
  "matches_condition c (ctx\<lparr>px_mac_address := to_lowercase m\<rparr>) =
   matches_condition c (ctx\<lparr>px_mac_address := m\<rparr>)"
  by (induction c) (auto simp: list_all_iff list_ex_iff comp_def)

text \<open>
  A condition on posture data never matches here, so its negation always does: conditions on
  posture are for the bulk evaluation, which has the data.
\<close>

fun posture_free :: "condition \<Rightarrow> bool" where
  "posture_free (And cs) = list_all posture_free cs"
| "posture_free (Or cs) = list_all posture_free cs"
| "posture_free (Not c) = posture_free c"
| "posture_free (OsVersionBelow v) = False"
| "posture_free (OsVersionAtLeast v) = False"
| "posture_free (SoftwareInstalled n) = False"
| "posture_free (SoftwareNotInstalled n) = False"
| "posture_free HasMissingPatches = False"
| "posture_free UsbEnabled = False"
| "posture_free BluetoothEnabled = False"
| "posture_free FolderSharingEnabled = False"
| "posture_free _ = True"

end
