(* ===== verification/DhcpServer.thy ===== *)
theory DhcpServer
  imports NetDhcp MacText
begin

text \<open>
  The DHCP service: the lease pool of \<^verbatim>\<open>services/dhcp/src/pool.rs\<close> and the handlers of
  \<^verbatim>\<open>services/dhcp/src/server.rs\<close>. The pool's cursor is a \<^typ>\<open>u32\<close> and
  wraps as in a release build. The message type, its decoder and its encoder belong to the
  \<^verbatim>\<open>dhcproto\<close> crate: the model has the fields the handlers get and set, and takes
  the decoder, the encoder and the default message as arguments. The locale \<open>lease_store\<close>
  states the contract of an allocator; the pool is its instance.
\<close>

section \<open>The pool\<close>

record lease_pool =
  leases :: "bytes \<rightharpoonup> ipv4"
  next_ip :: u32
  start_ip :: u32
  end_ip :: u32
  subnet_mask :: ipv4
  gateway :: ipv4

fun u32_from_ipv4 :: "ipv4 \<Rightarrow> u32" where
  "u32_from_ipv4 (Ipv4 a b c d) = u32_from_be a b c d"

definition ipv4_from_u32 :: "u32 \<Rightarrow> ipv4" where
  "ipv4_from_u32 w = (case u32_to_be w of [a, b, c, d] \<Rightarrow> Ipv4 a b c d | _ \<Rightarrow> ipv4_unspecified)"

definition pool_new :: "ipv4 \<Rightarrow> ipv4 \<Rightarrow> ipv4 \<Rightarrow> ipv4 \<Rightarrow> lease_pool" where
  "pool_new pool_start pool_end netmask gw =
     \<lparr>leases = Map.empty, next_ip = u32_from_ipv4 pool_start, start_ip = u32_from_ipv4 pool_start,
      end_ip = u32_from_ipv4 pool_end, subnet_mask = netmask, gateway = gw\<rparr>"

definition lease_key :: "bytes \<Rightarrow> bytes" where
  "lease_key mac = take (min 6 (length mac)) mac"

definition get_or_allocate :: "lease_pool \<Rightarrow> bytes \<Rightarrow> ipv4 \<times> lease_pool" where
  "get_or_allocate pool mac =
     (let key = lease_key mac in
      case leases pool key of
        Some ip \<Rightarrow> (ip, pool)
      | None \<Rightarrow>
          if next_ip pool \<le> end_ip pool then
            (let ip = ipv4_from_u32 (next_ip pool) in
             (ip, pool\<lparr>next_ip := next_ip pool + 1, leases := (leases pool)(key \<mapsto> ip)\<rparr>))
          else
            (let ip = ipv4_from_u32 (start_ip pool) in
             (ip, pool\<lparr>leases := (leases pool)(key \<mapsto> ip)\<rparr>)))"

section \<open>Messages and handlers\<close>

datatype message_type = Discover | Offer | Request | Decline | Ack | Nak | Release | Inform
  | UnknownType u8

datatype opcode = BootRequest | BootReply | UnknownOpcode u8

datatype option_code = CMessageType | CServerIdentifier | CAddressLeaseTime | CSubnetMask | CRouter
  | CRequestedIpAddress | COther u8

datatype dhcp_option =
    MessageType message_type
  | ServerIdentifier ipv4
  | AddressLeaseTime u32
  | SubnetMask ipv4
  | Router "ipv4 list"
  | RequestedIpAddress ipv4
  | OtherOption u8 bytes

fun code_of :: "dhcp_option \<Rightarrow> option_code" where
  "code_of (MessageType _) = CMessageType"
| "code_of (ServerIdentifier _) = CServerIdentifier"
| "code_of (AddressLeaseTime _) = CAddressLeaseTime"
| "code_of (SubnetMask _) = CSubnetMask"
| "code_of (Router _) = CRouter"
| "code_of (RequestedIpAddress _) = CRequestedIpAddress"
| "code_of (OtherOption c _) = COther c"

record dhcp_message =
  m_opcode :: opcode
  m_htype :: u8
  m_hops :: u8
  m_xid :: u32
  m_flags :: u16
  m_yiaddr :: ipv4
  m_siaddr :: ipv4
  m_giaddr :: ipv4
  m_chaddr :: bytes
  m_opts :: "option_code \<rightharpoonup> dhcp_option"

definition opt_insert :: "dhcp_option \<Rightarrow> dhcp_message \<Rightarrow> dhcp_message" where
  "opt_insert opt m = m\<lparr>m_opts := (m_opts m)(code_of opt \<mapsto> opt)\<rparr>"

definition msg_type_of :: "dhcp_message \<Rightarrow> message_type option" where
  "msg_type_of m = (case m_opts m CMessageType of Some (MessageType t) \<Rightarrow> Some t | _ \<Rightarrow> None)"

record dhcp_server =
  pool :: lease_pool
  server_ip :: ipv4

definition handle_discover ::
  "dhcp_message \<Rightarrow> dhcp_server \<Rightarrow> dhcp_message \<Rightarrow> dhcp_message \<times> dhcp_server" where
  "handle_discover msg0 srv msg =
     (let mac = m_chaddr msg;
          (offered_ip, pool') = get_or_allocate (pool srv) mac;
          resp = msg0\<lparr>m_opcode := BootReply, m_htype := m_htype msg, m_hops := 0, m_xid := m_xid msg,
            m_flags := m_flags msg, m_yiaddr := offered_ip, m_siaddr := server_ip srv,
            m_giaddr := m_giaddr msg, m_chaddr := mac\<rparr>;
          resp = opt_insert (MessageType Offer) resp;
          resp = opt_insert (ServerIdentifier (server_ip srv)) resp;
          resp = opt_insert (AddressLeaseTime 86400) resp;
          resp = opt_insert (SubnetMask (subnet_mask (pool srv))) resp;
          resp = opt_insert (Router [gateway (pool srv)]) resp
      in (resp, srv\<lparr>pool := pool'\<rparr>))"

definition handle_request ::
  "dhcp_message \<Rightarrow> dhcp_server \<Rightarrow> dhcp_message \<Rightarrow> dhcp_message \<times> dhcp_server" where
  "handle_request msg0 srv msg =
     (let mac = m_chaddr msg;
          (requested_ip, pool') =
            (case m_opts msg CRequestedIpAddress of
               Some (RequestedIpAddress ip) \<Rightarrow> (ip, pool srv)
             | _ \<Rightarrow> get_or_allocate (pool srv) mac);
          resp = msg0\<lparr>m_opcode := BootReply, m_htype := m_htype msg, m_hops := 0, m_xid := m_xid msg,
            m_flags := m_flags msg, m_yiaddr := requested_ip, m_siaddr := server_ip srv,
            m_giaddr := m_giaddr msg, m_chaddr := mac\<rparr>;
          resp = opt_insert (MessageType Ack) resp;
          resp = opt_insert (ServerIdentifier (server_ip srv)) resp;
          resp = opt_insert (AddressLeaseTime 86400) resp;
          resp = opt_insert (SubnetMask (subnet_mask (pool srv))) resp;
          resp = opt_insert (Router [gateway (pool srv)]) resp
      in (resp, srv\<lparr>pool := pool'\<rparr>))"

record dhcp_event =
  ev_mac :: string
  ev_ip :: string
  ev_msg_type :: message_type

datatype dhcp_effect = SendTo bytes | PublishBinding dhcp_event

text \<open>
  \<^verbatim>\<open>handle\<close>: the outcome, the packets and events in order, and the server after
  it. \<open>sent\<close> says whether the socket accepts the datagram.
\<close>

definition dhcp_handle ::
  "dhcp_message \<Rightarrow> (bytes \<Rightarrow> dhcp_message option) \<Rightarrow> (dhcp_message \<Rightarrow> bytes option)
    \<Rightarrow> (bytes \<Rightarrow> bool) \<Rightarrow> dhcp_server \<Rightarrow> bytes
    \<Rightarrow> (string, unit) rust \<times> dhcp_effect list \<times> dhcp_server" where
  "dhcp_handle msg0 from_bytes to_vec sent srv data =
     (case from_bytes data of
        None \<Rightarrow> (Err ''decode'', [], srv)
      | Some msg \<Rightarrow>
          (case msg_type_of msg of
             None \<Rightarrow> (Err ''no msg type'', [], srv)
           | Some t \<Rightarrow>
               (case (if t = Discover then Some (handle_discover msg0 srv msg)
                      else if t = Request then Some (handle_request msg0 srv msg)
                      else None) of
                  None \<Rightarrow> (Ok (), [], srv)
                | Some (response, srv') \<Rightarrow>
                    (case to_vec response of
                       None \<Rightarrow> (Err ''encode'', [], srv')
                     | Some encoded \<Rightarrow>
                         if \<not> sent encoded then (Err ''send'', [], srv')
                         else
                           (Ok (),
                            [SendTo encoded] @
                            (if m_yiaddr response = ipv4_unspecified then []
                             else [PublishBinding \<lparr>ev_mac = dhcp_format_mac (m_chaddr msg),
                                     ev_ip = ipv4_to_string (m_yiaddr response),
                                     ev_msg_type = t\<rparr>]),
                            srv')))))"

section \<open>The addresses of a pool\<close>

lemma ipv4_u32_inverse [simp]: "ipv4_from_u32 (u32_from_ipv4 ip) = ip"
  by (cases ip) (simp add: ipv4_from_u32_def)

lemma u32_ipv4_inverse [simp]: "u32_from_ipv4 (ipv4_from_u32 w) = w"
proof -
  obtain a b c d where w: "u32_to_be w = [a, b, c, d]"
    by (simp add: u32_to_be_def Let_def)
  then show ?thesis by (simp add: ipv4_from_u32_def u32_from_to_be)
qed

lemma ipv4_from_u32_inject [simp]: "ipv4_from_u32 v = ipv4_from_u32 w \<longleftrightarrow> v = w"
  by (metis u32_ipv4_inverse)

text \<open>Addresses are ordered as the numbers they stand for.\<close>

instantiation ipv4 :: linorder
begin

definition less_eq_ipv4 :: "ipv4 \<Rightarrow> ipv4 \<Rightarrow> bool" where
  "less_eq_ipv4 a b \<longleftrightarrow> u32_from_ipv4 a \<le> u32_from_ipv4 b"

definition less_ipv4 :: "ipv4 \<Rightarrow> ipv4 \<Rightarrow> bool" where
  "less_ipv4 a b \<longleftrightarrow> u32_from_ipv4 a < u32_from_ipv4 b"

instance
  by standard (auto simp: less_eq_ipv4_def less_ipv4_def intro: injD [OF inj_on_inverseI [of UNIV ipv4_from_u32 u32_from_ipv4]])

end

lemma ipv4_from_u32_le [simp]: "ipv4_from_u32 v \<le> ipv4_from_u32 w \<longleftrightarrow> v \<le> w"
  by (simp add: less_eq_ipv4_def)

section \<open>The contract of an allocator\<close>

locale lease_store =
  fixes alloc :: "'s \<Rightarrow> 'k \<Rightarrow> 'ip \<times> 's"
    and lookup :: "'s \<Rightarrow> 'k \<Rightarrow> 'ip option"
  assumes lookup_alloc: "alloc s k = (ip, s') \<Longrightarrow> lookup s' k = Some ip"
    and alloc_known: "lookup s k = Some ip \<Longrightarrow> alloc s k = (ip, s)"
    and alloc_keeps: "alloc s k = (ip, s') \<Longrightarrow> lookup s j = Some i \<Longrightarrow> lookup s' j = Some i"
begin

lemma alloc_idem: "alloc s k = (ip, s') \<Longrightarrow> alloc s' k = (ip, s')"
  using lookup_alloc alloc_known by blast

fun alloc_all :: "'s \<Rightarrow> 'k list \<Rightarrow> 's" where
  "alloc_all s [] = s"
| "alloc_all s (k # ks) = alloc_all (snd (alloc s k)) ks"

lemma alloc_all_keeps: "lookup s j = Some i \<Longrightarrow> lookup (alloc_all s ks) j = Some i"
proof (induction ks arbitrary: s)
  case (Cons k ks)
  then show ?case
    using alloc_keeps [of s k "fst (alloc s k)" "snd (alloc s k)" j i] by simp
qed simp

text \<open>A client keeps its address whatever the other clients ask for.\<close>

lemma lease_stable: "alloc s k = (ip, s') \<Longrightarrow> alloc (alloc_all s' ks) k = (ip, alloc_all s' ks)"
  using lookup_alloc alloc_all_keeps alloc_known by blast

end

interpretation lease: lease_store get_or_allocate "\<lambda>p mac. leases p (lease_key mac)"
  by unfold_locales
     (auto simp: get_or_allocate_def Let_def split: option.splits if_splits)

section \<open>The invariant of the pool\<close>

text \<open>
  Every lease is an address between the first and the one before the cursor; while the cursor has
  not passed the end, no address is leased twice.
\<close>

definition pool_inv :: "lease_pool \<Rightarrow> bool" where
  "pool_inv p \<longleftrightarrow>
     start_ip p \<le> next_ip p \<and> unat (next_ip p) \<le> unat (end_ip p) + 1 \<and>
     start_ip p \<le> end_ip p \<and> unat (end_ip p) < 4294967295 \<and>
     (\<forall>k ip. leases p k = Some ip \<longrightarrow> start_ip p \<le> u32_from_ipv4 ip \<and> u32_from_ipv4 ip < next_ip p) \<and>
     (leases p = Map.empty \<or> start_ip p < next_ip p) \<and>
     (next_ip p \<le> end_ip p \<longrightarrow> inj_on (leases p) (dom (leases p)))"

lemma unat_plus_1: "unat (w :: u32) < 4294967295 \<Longrightarrow> unat (w + 1) = unat w + 1"
  by (simp add: unat_word_ariths)

lemma pool_new_inv:
  "u32_from_ipv4 a \<le> u32_from_ipv4 b \<Longrightarrow> unat (u32_from_ipv4 b) < 4294967295 \<Longrightarrow>
   pool_inv (pool_new a b m g)"
  by (simp add: pool_inv_def pool_new_def word_le_nat_alt)

lemma get_or_allocate_bounds [simp]:
  "start_ip (snd (get_or_allocate p mac)) = start_ip p"
  "end_ip (snd (get_or_allocate p mac)) = end_ip p"
  "subnet_mask (snd (get_or_allocate p mac)) = subnet_mask p"
  "gateway (snd (get_or_allocate p mac)) = gateway p"
  by (auto simp: get_or_allocate_def Let_def split: option.splits)

lemma get_or_allocate_inv:
  assumes inv: "pool_inv p"
  shows "pool_inv (snd (get_or_allocate p mac))"
proof (cases "leases p (lease_key mac)")
  case (Some ip)
  then show ?thesis using inv by (simp add: get_or_allocate_def Let_def)
next
  case None
  note defs = pool_inv_def word_le_nat_alt word_less_nat_alt
  show ?thesis
  proof (cases "next_ip p \<le> end_ip p")
    case True
    have n1: "unat (next_ip p + 1) = unat (next_ip p) + 1"
      using True inv by (intro unat_plus_1) (simp add: defs)
    have fresh: "ipv4_from_u32 (next_ip p) \<notin> ran (leases p)"
    proof
      assume "ipv4_from_u32 (next_ip p) \<in> ran (leases p)"
      then obtain k where "leases p k = Some (ipv4_from_u32 (next_ip p))"
        by (auto simp: ran_def)
      then have "u32_from_ipv4 (ipv4_from_u32 (next_ip p)) < next_ip p"
        using inv unfolding pool_inv_def by blast
      then show False by simp
    qed
    have inj: "inj_on (leases p) (dom (leases p))"
      using True inv by (simp add: pool_inv_def)
    have "inj_on ((leases p)(lease_key mac \<mapsto> ipv4_from_u32 (next_ip p)))
            (insert (lease_key mac) (dom (leases p)))"
      using inj fresh None by (auto simp: inj_on_def ran_def)
    then show ?thesis
      using True None inv n1 by (auto simp: defs get_or_allocate_def Let_def intro: less_SucI)
  next
    case False
    then have "start_ip p < next_ip p"
      using inv by (simp add: defs)
    with False None inv show ?thesis
      by (auto simp: pool_inv_def get_or_allocate_def Let_def)
  qed
qed

lemma pool_inv_lease:
  assumes "pool_inv p" and "leases p k = Some ip"
  shows "start_ip p \<le> u32_from_ipv4 ip \<and> u32_from_ipv4 ip \<le> end_ip p"
proof -
  have "start_ip p \<le> u32_from_ipv4 ip" "u32_from_ipv4 ip < next_ip p" "unat (next_ip p) \<le> unat (end_ip p) + 1"
    using assms unfolding pool_inv_def by blast+
  then show ?thesis by (simp add: word_le_nat_alt word_less_nat_alt)
qed

text \<open>The address handed out lies in the configured range.\<close>

lemma get_or_allocate_range:
  assumes "pool_inv p"
  shows "start_ip p \<le> u32_from_ipv4 (fst (get_or_allocate p mac))
    \<and> u32_from_ipv4 (fst (get_or_allocate p mac)) \<le> end_ip p"
proof (cases "leases p (lease_key mac)")
  case (Some ip)
  then show ?thesis using pool_inv_lease [OF assms Some] by (simp add: get_or_allocate_def Let_def)
next
  case None
  then show ?thesis
    using assms by (simp add: get_or_allocate_def Let_def pool_inv_def)
qed

text \<open>
  When the range is used up a new client is given the first address of the range, which the client that
  came first still holds.
\<close>

lemma exhausted_pool_shares:
  assumes "pool_inv p" and "end_ip p < next_ip p" and "leases p (lease_key mac) = None"
    and "leases p k = Some (ipv4_from_u32 (start_ip p))"
  shows "fst (get_or_allocate p mac) = ipv4_from_u32 (start_ip p) \<and> k \<noteq> lease_key mac
    \<and> leases (snd (get_or_allocate p mac)) k = leases (snd (get_or_allocate p mac)) (lease_key mac)"
  using assms by (auto simp: get_or_allocate_def Let_def)

text \<open>Fresh clients get consecutive addresses as long as there are any.\<close>

fun allocate_list :: "lease_pool \<Rightarrow> bytes list \<Rightarrow> ipv4 list \<times> lease_pool" where
  "allocate_list p [] = ([], p)"
| "allocate_list p (m # ms) =
     (let (ip, p') = get_or_allocate p m; (ips, p'') = allocate_list p' ms in (ip # ips, p''))"

lemma allocate_list_fresh:
  assumes "distinct (map lease_key ms)"
    and "\<forall>m \<in> set ms. leases p (lease_key m) = None"
    and "unat (next_ip p) + length ms \<le> unat (end_ip p) + 1"
    and "unat (end_ip p) < 4294967295"
  shows "fst (allocate_list p ms) = map (\<lambda>i. ipv4_from_u32 (next_ip p + of_nat i)) [0..<length ms]"
  using assms
proof (induction ms arbitrary: p)
  case (Cons m ms)
  let ?p = "snd (get_or_allocate p m)"
  have le: "next_ip p \<le> end_ip p"
    using Cons.prems(3) by (simp add: word_le_nat_alt)
  have n1: "unat (next_ip p + 1) = unat (next_ip p) + 1"
    using le Cons.prems(4) by (intro unat_plus_1) (simp add: word_le_nat_alt)
  have step: "get_or_allocate p m = (ipv4_from_u32 (next_ip p), ?p)" "next_ip ?p = next_ip p + 1"
      "leases ?p = (leases p)(lease_key m \<mapsto> ipv4_from_u32 (next_ip p))"
    using le Cons.prems(2) by (auto simp: get_or_allocate_def Let_def)
  have none: "\<forall>m' \<in> set ms. leases ?p (lease_key m') = None"
  proof
    fix m'
    assume m': "m' \<in> set ms"
    then have "lease_key m' \<noteq> lease_key m"
      using Cons.prems(1) by (metis distinct.simps(2) image_eqI list.set_map list.simps(9))
    then show "leases ?p (lease_key m') = None"
      using m' Cons.prems(2) unfolding step(3) by simp
  qed
  have "fst (allocate_list ?p ms) = map (\<lambda>i. ipv4_from_u32 (next_ip ?p + of_nat i)) [0..<length ms]"
    by (rule Cons.IH) (use Cons.prems n1 none in \<open>auto simp: step(2)\<close>)
  then have "fst (allocate_list ?p ms) =
      map (\<lambda>i. ipv4_from_u32 (next_ip p + of_nat (Suc i))) [0..<length ms]"
    by (simp add: step(2) add.assoc)
  then have "fst (allocate_list p (m # ms)) = ipv4_from_u32 (next_ip p) #
      map (\<lambda>i. ipv4_from_u32 (next_ip p + of_nat (Suc i))) [0..<length ms]"
    by (subst allocate_list.simps, subst step(1)) (simp add: split_beta Let_def)
  then show ?case
    by (simp add: upt_conv_Cons map_Suc_upt [symmetric] comp_def del: upt_Suc)
qed simp

section \<open>The handlers\<close>

lemma handle_discover_fields:
  "m_yiaddr (fst (handle_discover msg0 srv msg)) = fst (get_or_allocate (pool srv) (m_chaddr msg))"
  "m_chaddr (fst (handle_discover msg0 srv msg)) = m_chaddr msg"
  "m_xid (fst (handle_discover msg0 srv msg)) = m_xid msg"
  "m_opcode (fst (handle_discover msg0 srv msg)) = BootReply"
  "msg_type_of (fst (handle_discover msg0 srv msg)) = Some Offer"
  "pool (snd (handle_discover msg0 srv msg)) = snd (get_or_allocate (pool srv) (m_chaddr msg))"
  "server_ip (snd (handle_discover msg0 srv msg)) = server_ip srv"
  by (simp_all add: handle_discover_def Let_def split_beta opt_insert_def msg_type_of_def)

lemma handle_request_fields:
  "m_chaddr (fst (handle_request msg0 srv msg)) = m_chaddr msg"
  "m_xid (fst (handle_request msg0 srv msg)) = m_xid msg"
  "m_opcode (fst (handle_request msg0 srv msg)) = BootReply"
  "msg_type_of (fst (handle_request msg0 srv msg)) = Some Ack"
  "server_ip (snd (handle_request msg0 srv msg)) = server_ip srv"
  by (simp_all add: handle_request_def Let_def split_beta opt_insert_def msg_type_of_def)

lemma handle_request_requested:
  "m_opts msg CRequestedIpAddress = Some (RequestedIpAddress ip) \<Longrightarrow>
   m_yiaddr (fst (handle_request msg0 srv msg)) = ip \<and> snd (handle_request msg0 srv msg) = srv"
  by (simp add: handle_request_def Let_def opt_insert_def)

lemma handle_request_none:
  "m_opts msg CRequestedIpAddress = None \<Longrightarrow>
   m_yiaddr (fst (handle_request msg0 srv msg)) = fst (get_or_allocate (pool srv) (m_chaddr msg)) \<and>
   pool (snd (handle_request msg0 srv msg)) = snd (get_or_allocate (pool srv) (m_chaddr msg))"
  by (simp add: handle_request_def Let_def split_beta opt_insert_def)

text \<open>
  An offered address is acknowledged to the client that asks without naming one, whatever other
  clients did in between.
\<close>

lemma offer_then_ack:
  assumes "m_opts msg2 CRequestedIpAddress = None" and "m_chaddr msg2 = m_chaddr msg1"
    and "pool srv2 = lease.alloc_all (pool (snd (handle_discover msg0 srv1 msg1))) others"
  shows "m_yiaddr (fst (handle_request msg0 srv2 msg2)) = m_yiaddr (fst (handle_discover msg0 srv1 msg1))"
  using assms handle_request_none [OF assms(1), of msg0 srv2]
    lease.lease_stable [of "pool srv1" "m_chaddr msg1" "fst (get_or_allocate (pool srv1) (m_chaddr msg1))"
      "snd (get_or_allocate (pool srv1) (m_chaddr msg1))" others]
  by (simp add: handle_discover_fields)

text \<open>Whatever datagram arrives, the pool keeps its invariant.\<close>

lemma handle_inv:
  assumes "pool_inv (pool srv)"
  shows "pool_inv (pool (snd (snd (dhcp_handle msg0 from_bytes to_vec sent srv data))))"
proof -
  have d: "pool_inv (pool (snd (handle_discover msg0 srv msg)))" for msg
    using get_or_allocate_inv [OF assms] by (simp add: handle_discover_fields)
  have r: "pool_inv (pool (snd (handle_request msg0 srv msg)))" for msg
    using get_or_allocate_inv [OF assms] assms
    by (auto simp: handle_request_def Let_def split_beta split: option.splits dhcp_option.splits)
  show ?thesis
    using assms d r by (auto simp: dhcp_handle_def split: option.splits prod.splits) (metis snd_conv)+
qed

text \<open>A binding is published only with a reply sent, and it names the address in the reply.\<close>

lemma handler_chaddr:
  "handle_discover msg0 srv msg = (resp, srv') \<Longrightarrow> m_chaddr resp = m_chaddr msg"
  "handle_request msg0 srv msg = (resp, srv') \<Longrightarrow> m_chaddr resp = m_chaddr msg"
  using handle_discover_fields(2) handle_request_fields(1) by (metis fst_conv)+

lemma handle_publish:
  assumes "dhcp_handle msg0 from_bytes to_vec sent srv data = (r, effs, srv')"
    and "PublishBinding ev \<in> set effs"
  shows "\<exists>msg resp enc. from_bytes data = Some msg \<and> to_vec resp = Some enc \<and> sent enc
    \<and> effs = [SendTo enc, PublishBinding ev] \<and> r = Ok ()
    \<and> ev_ip ev = ipv4_to_string (m_yiaddr resp) \<and> ev_mac ev = dhcp_format_mac (m_chaddr msg)
    \<and> m_yiaddr resp \<noteq> ipv4_unspecified \<and> m_chaddr resp = m_chaddr msg"
proof -
  obtain msg t resp srv'' enc where r: "from_bytes data = Some msg" "msg_type_of msg = Some t"
      "(if t = Discover then Some (handle_discover msg0 srv msg)
        else if t = Request then Some (handle_request msg0 srv msg) else None) = Some (resp, srv'')"
      "to_vec resp = Some enc" "sent enc"
    using assms by (auto simp: dhcp_handle_def split: option.splits prod.splits if_splits)
  then have "m_chaddr resp = m_chaddr msg"
    using handler_chaddr by (auto split: if_splits)
  with r assms show ?thesis
    by (intro exI [of _ msg] exI [of _ resp] exI [of _ enc])
       (simp add: dhcp_handle_def, auto split: if_splits)
qed

section \<open>A run of the server\<close>

definition dhcp_serve ::
  "dhcp_message \<Rightarrow> (bytes \<Rightarrow> dhcp_message option) \<Rightarrow> (dhcp_message \<Rightarrow> bytes option)
    \<Rightarrow> (bytes \<Rightarrow> bool) \<Rightarrow> bytes list \<Rightarrow> dhcp_server \<Rightarrow> dhcp_server" where
  "dhcp_serve msg0 from_bytes to_vec sent datas =
     fold (\<lambda>data srv. snd (snd (dhcp_handle msg0 from_bytes to_vec sent srv data))) datas"

lemma dhcp_serve_inv:
  "pool_inv (pool srv) \<Longrightarrow> pool_inv (pool (dhcp_serve msg0 from_bytes to_vec sent datas srv))"
  unfolding dhcp_serve_def
  by (induction datas arbitrary: srv) (simp_all add: handle_inv)

lemma dhcp_handle_bounds:
  "start_ip (pool (snd (snd (dhcp_handle msg0 from_bytes to_vec sent srv data)))) = start_ip (pool srv)
   \<and> end_ip (pool (snd (snd (dhcp_handle msg0 from_bytes to_vec sent srv data)))) = end_ip (pool srv)"
proof -
  have d: "handle_discover msg0 srv msg = (r, srv') \<Longrightarrow>
      start_ip (pool srv') = start_ip (pool srv) \<and> end_ip (pool srv') = end_ip (pool srv)" for msg r srv'
    using handle_discover_fields(6) [of msg0 srv msg] by simp
  have q: "handle_request msg0 srv msg = (r, srv') \<Longrightarrow>
      start_ip (pool srv') = start_ip (pool srv) \<and> end_ip (pool srv') = end_ip (pool srv)" for msg r srv'
    by (auto simp: handle_request_def Let_def split_beta split: option.splits dhcp_option.splits)
  show ?thesis
    by (auto simp: dhcp_handle_def dest!: d q split: option.split prod.split)
qed

lemma dhcp_serve_bounds:
  "start_ip (pool (dhcp_serve msg0 from_bytes to_vec sent datas srv)) = start_ip (pool srv)
   \<and> end_ip (pool (dhcp_serve msg0 from_bytes to_vec sent datas srv)) = end_ip (pool srv)"
  unfolding dhcp_serve_def
  by (induction datas arbitrary: srv) (simp_all add: dhcp_handle_bounds)

end
