(* ===== verification/Store.thy ===== *)
theory Store
  imports PolicyEngine
begin

text \<open>
  The database and the message bus as the services see them: \<^verbatim>\<open>crates/nac-store\<close> over the
  schema of \<^verbatim>\<open>services/policy-manager/migrations\<close>. A world holds the tables, the
  messages published, a clock, a source of identifiers and a schedule that says which statement or
  message goes through, is refused, or is carried out while its reply is lost. An operation takes a
  world to an outcome and a world. The casts of PostgreSQL and the JSON codec are arguments.
\<close>

section \<open>Values and rows\<close>

type_synonym uuid = nat
type_synonym timestamp = int
type_synonym i16 = "16 word"

datatype json = JNull | JBool bool | JNum int | JStr string | JArr "json list"
  | JObj "(string \<times> json) list"

record software_item =
  sw_name :: string
  sw_version :: string

record patch_item =
  kb_id :: string
  pt_description :: string

record posture_report =
  device_id :: string
  pr_os :: string
  pr_os_version :: string
  installed_software :: "software_item list"
  missing_patches :: "patch_item list"
  usb_enabled :: bool
  bluetooth_enabled :: bool
  folder_sharing_enabled :: bool
  pr_timestamp :: int

record endpoint_row =
  ep_id :: uuid
  ep_mac_address :: string
  ep_ip_address :: "string option"
  ep_hostname :: "string option"
  ep_os_family :: "string option"
  ep_os_version :: "string option"
  ep_device_type :: "string option"
  ep_vendor :: "string option"
  ep_vlan_id :: "i16 option"
  ep_switch_port :: "string option"
  ep_interface :: "string option"
  ep_username :: "string option"
  ep_status :: string
  ep_first_seen :: timestamp
  ep_last_seen :: timestamp
  ep_is_compliant :: "bool option"
  ep_last_posture_check :: "timestamp option"
  ep_assigned_policy_id :: "uuid option"
  ep_policy_exempt :: bool
  ep_posture_sw :: "json option"
  ep_posture_missing_patches :: int
  ep_posture_usb_enabled :: "bool option"
  ep_posture_bluetooth :: "bool option"
  ep_posture_folder_sharing :: "bool option"
  ep_posture_os_version :: "string option"
  ep_agent_id :: "string option"

record upsert_endpoint =
  up_mac_address :: string
  up_ip_address :: "string option"
  up_hostname :: "string option"
  up_os_family :: "string option"
  up_os_version :: "string option"
  up_device_type :: "string option"
  up_vendor :: "string option"
  up_interface :: "string option"
  up_agent_id :: "string option"

record posture_fields =
  pf_sw :: json
  pf_missing_patches :: int
  pf_usb_enabled :: bool
  pf_bluetooth :: bool
  pf_folder_sharing :: bool
  pf_os_version :: string

record session_row =
  se_id :: uuid
  se_endpoint_id :: uuid
  se_username :: "string option"
  se_auth_method :: "string option"
  se_state :: string
  se_vlan_id :: "i16 option"
  se_started_at :: timestamp
  se_ended_at :: "timestamp option"
  se_updated_at :: timestamp

record create_session =
  cs_endpoint_id :: uuid
  cs_auth_method :: string
  cs_vlan_id :: "i16 option"

record policy_row =
  po_id :: uuid
  po_name :: string
  po_description :: "string option"
  po_priority :: int
  po_conditions :: json
  po_action :: string
  po_vlan_id :: "i16 option"
  po_enabled :: bool
  po_created_at :: timestamp

record create_policy =
  cp_name :: string
  cp_description :: "string option"
  cp_priority :: int
  cp_conditions :: "json option"
  cp_action :: string
  cp_vlan_id :: "i16 option"

record update_policy =
  upo_name :: "string option"
  upo_description :: "string option"
  upo_priority :: "int option"
  upo_conditions :: "json option"
  upo_action :: "string option"
  upo_vlan_id :: "i16 option"
  upo_enabled :: "bool option"

record audit_row =
  au_id :: int
  au_event_type :: string
  au_endpoint_id :: "uuid option"
  au_actor :: "string option"
  au_detail :: "json option"
  au_created_at :: timestamp

record posture_row =
  pw_endpoint_id :: uuid
  pw_os :: string
  pw_os_version :: string
  pw_installed_sw :: json
  pw_missing_patches :: json
  pw_usb_enabled :: bool
  pw_bluetooth_enabled :: bool
  pw_folder_sharing :: bool
  pw_is_compliant :: bool
  pw_reported_at :: timestamp

record ip_rule_row =
  ir_id :: uuid
  ir_ip_cidr :: string
  ir_action :: string
  ir_note :: "string option"
  ir_enabled :: bool
  ir_created_at :: timestamp

record user_row =
  us_id :: uuid
  us_username :: string
  us_password_hash :: string
  us_role :: string
  us_enabled :: bool
  us_created_at :: timestamp

section \<open>Messages\<close>

text \<open>
  The payloads the services publish: the JSON object built by \<^verbatim>\<open>json!\<close> in the
  policy manager is the \<^verbatim>\<open>EnforcementCommand\<close> that the enforcement agent decodes.
\<close>

record enforcement_command =
  cmd_mac_address :: string
  cmd_ip_address :: string
  cmd_action :: string
  cmd_gateway_ip :: string
  cmd_gateway_mac :: "string option"
  cmd_vlan_id :: "u16 option"

record auth_response =
  ar_session_id :: "uuid option"
  ar_endpoint_id :: "uuid option"
  ar_mac_address :: string
  ar_ip_address :: string
  ar_success :: bool
  ar_username :: "string option"
  ar_groups :: "string list"
  ar_reason :: "string option"

datatype nats_message =
    Enforcement enforcement_command
  | AuthResponse auth_response
  | PostureEvent posture_report
  | OtherEvent string json

section \<open>The world\<close>

datatype store_error = Connection | InvalidCast string | UniqueViolation string
  | CheckViolation string | ForeignKeyViolation string | InvalidLimit | JsonError

datatype delivery = Delivered | Refused | ReplyLost

record world =
  endpoints :: "endpoint_row list"
  sessions :: "session_row list"
  policies :: "policy_row list"
  audit_log :: "audit_row list"
  posture_reports :: "posture_row list"
  ip_rules :: "ip_rule_row list"
  nac_users :: "user_row list"
  published :: "nats_message list"
  clock :: timestamp
  fresh :: nat
  schedule :: "delivery list"

type_synonym 'a io = "world \<Rightarrow> (store_error, 'a) rust \<times> world"

text \<open>The functions of PostgreSQL and of \<^verbatim>\<open>serde_json\<close> that the statements rely on.\<close>

record pg =
  mac_in :: "string \<Rightarrow> string option"
  inet_in :: "string \<Rightarrow> string option"
  inet_host :: "string \<Rightarrow> string"
  conditions_from_json :: "json \<Rightarrow> condition list option"
  software_to_json :: "software_item list \<Rightarrow> json"
  software_from_json :: "json \<Rightarrow> software_item list option"
  patches_to_json :: "patch_item list \<Rightarrow> json"
  debug_decision :: "policy_decision \<Rightarrow> string"

section \<open>Operations\<close>

definition io_return :: "'a \<Rightarrow> 'a io" where
  "io_return x w = (Ok x, w)"

definition io_fail :: "store_error \<Rightarrow> 'a io" where
  "io_fail e w = (Err e, w)"

definition io_bind :: "'a io \<Rightarrow> ('a \<Rightarrow> 'b io) \<Rightarrow> 'b io" where
  "io_bind m k w =
     (case m w of (Ok x, w') \<Rightarrow> k x w' | (Err e, w') \<Rightarrow> (Err e, w') | (Panic, w') \<Rightarrow> (Panic, w'))"

definition io_seq :: "'a io \<Rightarrow> 'b io \<Rightarrow> 'b io" where
  "io_seq m k = io_bind m (\<lambda>_. k)"

text \<open>\<^verbatim>\<open>.ok()\<close>: the error is dropped and the computation goes on.\<close>

definition io_ok :: "'a io \<Rightarrow> 'a option io" where
  "io_ok m w =
     (case m w of (Ok x, w') \<Rightarrow> (Ok (Some x), w') | (Err e, w') \<Rightarrow> (Ok None, w')
      | (Panic, w') \<Rightarrow> (Panic, w'))"

definition io_when :: "bool \<Rightarrow> unit io \<Rightarrow> unit io" where
  "io_when b m = (if b then m else io_return ())"

fun io_list :: "('a \<Rightarrow> unit io) \<Rightarrow> 'a list \<Rightarrow> unit io" where
  "io_list f [] = io_return ()"
| "io_list f (x # xs) = io_seq (f x) (io_list f xs)"

text \<open>One statement: it takes a turn of the schedule and of the clock.\<close>

definition tick :: "world \<Rightarrow> world" where
  "tick w = w\<lparr>schedule := tl (schedule w), clock := clock w + 1\<rparr>"

definition stmt :: "'a io \<Rightarrow> 'a io" where
  "stmt f w =
     (case schedule w of
        Refused # _ \<Rightarrow> (Err Connection, tick w)
      | ReplyLost # _ \<Rightarrow> (Err Connection, snd (f (tick w)))
      | _ \<Rightarrow> f (tick w))"

text \<open>\<^verbatim>\<open>nats.publish\<close>: takes a turn of the schedule as well.\<close>

definition nats_publish :: "nats_message \<Rightarrow> unit io" where
  "nats_publish m = stmt (\<lambda>w. (Ok (), w\<lparr>published := published w @ [m]\<rparr>))"

section \<open>Rows by key\<close>

definition find_row :: "('r \<Rightarrow> bool) \<Rightarrow> 'r list \<Rightarrow> 'r option" where
  "find_row P rows = List.find P rows"

definition update_rows :: "('r \<Rightarrow> bool) \<Rightarrow> ('r \<Rightarrow> 'r) \<Rightarrow> 'r list \<Rightarrow> 'r list" where
  "update_rows P f rows = map (\<lambda>r. if P r then f r else r) rows"

definition coalesce :: "'a option \<Rightarrow> 'a option \<Rightarrow> 'a option" where
  "coalesce a b = opt_or a b"

section \<open>Endpoints\<close>

definition statuses :: "string list" where
  "statuses = [''allowed'', ''quarantined'', ''denied'', ''pending'']"

text \<open>The partial unique index on the agent identifier.\<close>

definition agent_taken :: "endpoint_row list \<Rightarrow> string option \<Rightarrow> uuid \<Rightarrow> bool" where
  "agent_taken rows a self \<longleftrightarrow>
     a \<noteq> None \<and> list_ex (\<lambda>r. ep_agent_id r = a \<and> ep_id r \<noteq> self) rows"

definition cast_inet :: "pg \<Rightarrow> string option \<Rightarrow> (store_error, string option) rust" where
  "cast_inet db s =
     (case s of None \<Rightarrow> Ok None
      | Some t \<Rightarrow> (case inet_in db t of None \<Rightarrow> Err (InvalidCast t) | Some i \<Rightarrow> Ok (Some i)))"

definition new_endpoint :: "upsert_endpoint \<Rightarrow> string \<Rightarrow> string option \<Rightarrow> world \<Rightarrow> endpoint_row" where
  "new_endpoint ep mac ip w =
     \<lparr>ep_id = fresh w, ep_mac_address = mac, ep_ip_address = ip, ep_hostname = up_hostname ep,
      ep_os_family = up_os_family ep, ep_os_version = up_os_version ep,
      ep_device_type = up_device_type ep, ep_vendor = up_vendor ep, ep_vlan_id = None,
      ep_switch_port = None, ep_interface = up_interface ep, ep_username = None,
      ep_status = ''pending'', ep_first_seen = clock w, ep_last_seen = clock w,
      ep_is_compliant = None, ep_last_posture_check = None, ep_assigned_policy_id = None,
      ep_policy_exempt = False, ep_posture_sw = None, ep_posture_missing_patches = 0,
      ep_posture_usb_enabled = None, ep_posture_bluetooth = None, ep_posture_folder_sharing = None,
      ep_posture_os_version = None, ep_agent_id = up_agent_id ep\<rparr>"

definition merge_endpoint ::
  "upsert_endpoint \<Rightarrow> string option \<Rightarrow> timestamp \<Rightarrow> endpoint_row \<Rightarrow> endpoint_row" where
  "merge_endpoint ep ip t r =
     r\<lparr>ep_ip_address := coalesce ip (ep_ip_address r),
       ep_hostname := coalesce (up_hostname ep) (ep_hostname r),
       ep_os_family := coalesce (up_os_family ep) (ep_os_family r),
       ep_os_version := coalesce (up_os_version ep) (ep_os_version r),
       ep_device_type := coalesce (up_device_type ep) (ep_device_type r),
       ep_vendor := coalesce (up_vendor ep) (ep_vendor r),
       ep_interface := coalesce (up_interface ep) (ep_interface r),
       ep_agent_id := coalesce (up_agent_id ep) (ep_agent_id r),
       ep_last_seen := t\<rparr>"

text \<open>\<^verbatim>\<open>EndpointRepo::upsert\<close>.\<close>

definition ep_upsert :: "pg \<Rightarrow> upsert_endpoint \<Rightarrow> endpoint_row io" where
  "ep_upsert db ep = stmt (\<lambda>w.
     case mac_in db (up_mac_address ep) of
       None \<Rightarrow> (Err (InvalidCast (up_mac_address ep)), w)
     | Some mac \<Rightarrow>
         (case cast_inet db (up_ip_address ep) of
            Err e \<Rightarrow> (Err e, w)
          | Panic \<Rightarrow> (Panic, w)
          | Ok ip \<Rightarrow>
              (case find_row (\<lambda>r. ep_mac_address r = mac) (endpoints w) of
                 None \<Rightarrow>
                   if agent_taken (endpoints w) (up_agent_id ep) (fresh w)
                   then (Err (UniqueViolation ''agent_id''), w)
                   else
                     (let r = new_endpoint ep mac ip w in
                      (Ok r, w\<lparr>endpoints := endpoints w @ [r], fresh := fresh w + 1\<rparr>))
               | Some old \<Rightarrow>
                   (let r = merge_endpoint ep ip (clock w) old in
                    if agent_taken (endpoints w) (ep_agent_id r) (ep_id old)
                    then (Err (UniqueViolation ''agent_id''), w)
                    else
                      (Ok r, w\<lparr>endpoints :=
                         update_rows (\<lambda>x. ep_id x = ep_id old) (\<lambda>_. r) (endpoints w)\<rparr>)))))"

text \<open>\<^verbatim>\<open>EndpointRepo::upsert_by_agent_id\<close>.\<close>

definition ep_upsert_by_agent_id :: "pg \<Rightarrow> upsert_endpoint \<Rightarrow> endpoint_row option io" where
  "ep_upsert_by_agent_id db ep =
     (case up_agent_id ep of
        None \<Rightarrow> io_return None
      | Some a \<Rightarrow>
          if a = [] then io_return None
          else stmt (\<lambda>w.
            case mac_in db (up_mac_address ep) of
              None \<Rightarrow> (Err (InvalidCast (up_mac_address ep)), w)
            | Some mac \<Rightarrow>
                (case cast_inet db (up_ip_address ep) of
                   Err e \<Rightarrow> (Err e, w)
                 | Panic \<Rightarrow> (Panic, w)
                 | Ok ip \<Rightarrow>
                     (case find_row (\<lambda>r. ep_agent_id r = Some a) (endpoints w) of
                        None \<Rightarrow> (Ok None, w)
                      | Some old \<Rightarrow>
                          if list_ex (\<lambda>x. ep_mac_address x = mac \<and> ep_id x \<noteq> ep_id old) (endpoints w)
                          then (Err (UniqueViolation ''mac_address''), w)
                          else
                            (let r = old\<lparr>ep_mac_address := mac,
                                   ep_ip_address := coalesce ip (ep_ip_address old),
                                   ep_hostname := coalesce (up_hostname ep) (ep_hostname old),
                                   ep_os_family := coalesce (up_os_family ep) (ep_os_family old),
                                   ep_os_version := coalesce (up_os_version ep) (ep_os_version old),
                                   ep_last_seen := clock w\<rparr>
                             in (Ok (Some r), w\<lparr>endpoints :=
                                   update_rows (\<lambda>x. ep_id x = ep_id old) (\<lambda>_. r) (endpoints w)\<rparr>))))))"

definition page :: "int \<Rightarrow> int \<Rightarrow> 'r list \<Rightarrow> (store_error, 'r list) rust" where
  "page limit offset rows =
     (if limit < 0 \<or> offset < 0 then Err InvalidLimit
      else Ok (take (nat limit) (drop (nat offset) rows)))"

definition ep_list :: "int \<Rightarrow> int \<Rightarrow> endpoint_row list io" where
  "ep_list limit offset = stmt (\<lambda>w.
     (page limit offset (sort_key (\<lambda>r. - ep_last_seen r) (endpoints w)), w))"

definition ep_find_by_mac :: "pg \<Rightarrow> string \<Rightarrow> endpoint_row option io" where
  "ep_find_by_mac db mac = stmt (\<lambda>w.
     case mac_in db mac of
       None \<Rightarrow> (Err (InvalidCast mac), w)
     | Some m \<Rightarrow> (Ok (find_row (\<lambda>r. ep_mac_address r = m) (endpoints w)), w))"

definition ep_find_by_agent_id :: "string \<Rightarrow> endpoint_row option io" where
  "ep_find_by_agent_id a = stmt (\<lambda>w.
     (Ok (find_row (\<lambda>r. ep_agent_id r = Some a) (endpoints w)), w))"

definition ep_find_by_id :: "uuid \<Rightarrow> endpoint_row option io" where
  "ep_find_by_id i = stmt (\<lambda>w. (Ok (find_row (\<lambda>r. ep_id r = i) (endpoints w)), w))"

definition has_endpoint :: "world \<Rightarrow> uuid \<Rightarrow> bool" where
  "has_endpoint w i \<longleftrightarrow> list_ex (\<lambda>r. ep_id r = i) (endpoints w)"

definition update_endpoint :: "uuid \<Rightarrow> (endpoint_row \<Rightarrow> endpoint_row) \<Rightarrow> world \<Rightarrow> world" where
  "update_endpoint i f w = w\<lparr>endpoints := update_rows (\<lambda>r. ep_id r = i) f (endpoints w)\<rparr>"

definition ep_set_status :: "uuid \<Rightarrow> string \<Rightarrow> unit io" where
  "ep_set_status i status = stmt (\<lambda>w.
     if has_endpoint w i \<and> status \<notin> set statuses then (Err (CheckViolation ''status''), w)
     else (Ok (), update_endpoint i (\<lambda>r. r\<lparr>ep_status := status\<rparr>) w))"

definition ep_set_policy :: "uuid \<Rightarrow> uuid option \<Rightarrow> unit io" where
  "ep_set_policy i p = stmt (\<lambda>w.
     if has_endpoint w i \<and> p \<noteq> None \<and> \<not> list_ex (\<lambda>r. Some (po_id r) = p) (policies w)
     then (Err (ForeignKeyViolation ''assigned_policy_id''), w)
     else (Ok (), update_endpoint i (\<lambda>r. r\<lparr>ep_assigned_policy_id := p\<rparr>) w))"

definition ep_set_exempt :: "uuid \<Rightarrow> bool \<Rightarrow> unit io" where
  "ep_set_exempt i b = stmt (\<lambda>w. (Ok (), update_endpoint i (\<lambda>r. r\<lparr>ep_policy_exempt := b\<rparr>) w))"

definition ep_set_username :: "uuid \<Rightarrow> string \<Rightarrow> unit io" where
  "ep_set_username i u = stmt (\<lambda>w. (Ok (), update_endpoint i (\<lambda>r. r\<lparr>ep_username := Some u\<rparr>) w))"

definition ep_set_compliance :: "uuid \<Rightarrow> bool \<Rightarrow> unit io" where
  "ep_set_compliance i b = stmt (\<lambda>w.
     (Ok (), update_endpoint i
        (\<lambda>r. r\<lparr>ep_is_compliant := Some b, ep_last_posture_check := Some (clock w)\<rparr>) w))"

definition ep_update_posture_fields :: "uuid \<Rightarrow> posture_fields \<Rightarrow> unit io" where
  "ep_update_posture_fields i f = stmt (\<lambda>w.
     (Ok (), update_endpoint i
        (\<lambda>r. r\<lparr>ep_posture_sw := Some (pf_sw f),
              ep_posture_missing_patches := pf_missing_patches f,
              ep_posture_usb_enabled := Some (pf_usb_enabled f),
              ep_posture_bluetooth := Some (pf_bluetooth f),
              ep_posture_folder_sharing := Some (pf_folder_sharing f),
              ep_posture_os_version := Some (pf_os_version f)\<rparr>) w))"

definition ep_count :: "int io" where
  "ep_count = stmt (\<lambda>w. (Ok (int (length (endpoints w))), w))"

section \<open>Sessions\<close>

definition session_states :: "string list" where
  "session_states = [''detecting'', ''authenticating'', ''checking_integrity'', ''active'',
     ''quarantined'', ''terminated'']"

definition se_create :: "create_session \<Rightarrow> session_row io" where
  "se_create s = stmt (\<lambda>w.
     if \<not> has_endpoint w (cs_endpoint_id s) then (Err (ForeignKeyViolation ''endpoint_id''), w)
     else
       (let r = \<lparr>se_id = fresh w, se_endpoint_id = cs_endpoint_id s, se_username = None,
              se_auth_method = Some (cs_auth_method s), se_state = ''detecting'',
              se_vlan_id = cs_vlan_id s, se_started_at = clock w, se_ended_at = None,
              se_updated_at = clock w\<rparr>
        in (Ok r, w\<lparr>sessions := sessions w @ [r], fresh := fresh w + 1\<rparr>)))"

text \<open>\<^verbatim>\<open>ORDER BY started_at DESC LIMIT 1\<close>.\<close>

definition se_find_active_by_endpoint :: "uuid \<Rightarrow> session_row option io" where
  "se_find_active_by_endpoint i = stmt (\<lambda>w.
     (Ok (case sort_key (\<lambda>s. - se_started_at s)
             (filter (\<lambda>s. se_endpoint_id s = i \<and> se_ended_at s = None) (sessions w)) of
            [] \<Rightarrow> None | s # _ \<Rightarrow> Some s), w))"

definition se_find_by_id :: "uuid \<Rightarrow> session_row option io" where
  "se_find_by_id i = stmt (\<lambda>w. (Ok (find_row (\<lambda>s. se_id s = i) (sessions w)), w))"

definition se_transition :: "uuid \<Rightarrow> string \<Rightarrow> string option \<Rightarrow> unit io" where
  "se_transition i st u = stmt (\<lambda>w.
     if list_ex (\<lambda>s. se_id s = i) (sessions w) \<and> st \<notin> set session_states
     then (Err (CheckViolation ''state''), w)
     else (Ok (), w\<lparr>sessions := update_rows (\<lambda>s. se_id s = i)
             (\<lambda>s. s\<lparr>se_state := st, se_username := coalesce u (se_username s),
                    se_updated_at := clock w\<rparr>) (sessions w)\<rparr>))"

definition se_terminate :: "uuid \<Rightarrow> unit io" where
  "se_terminate i = stmt (\<lambda>w.
     (Ok (), w\<lparr>sessions := update_rows (\<lambda>s. se_id s = i)
             (\<lambda>s. s\<lparr>se_state := ''terminated'', se_ended_at := Some (clock w),
                    se_updated_at := clock w\<rparr>) (sessions w)\<rparr>))"

section \<open>Policies\<close>

definition policy_actions :: "string list" where
  "policy_actions = [''allow'', ''quarantine'', ''deny'']"

definition to_policy_rule :: "pg \<Rightarrow> policy_row \<Rightarrow> (store_error, policy_rule) rust" where
  "to_policy_rule db row =
     (case (if po_conditions row = JNull \<or> po_conditions row = JArr [] then Some []
            else conditions_from_json db (po_conditions row)) of
        None \<Rightarrow> Err JsonError
      | Some conditions \<Rightarrow>
          (let cond = (case conditions of [] \<Rightarrow> And [] | [c] \<Rightarrow> c | _ \<Rightarrow> And conditions);
               decision =
                 (if po_action row = ''allow'' then Allow
                  else if po_action row = ''quarantine'' then
                    Quarantine (runwrap_or 99 (po_vlan_id row)) (''policy: '' @ po_name row)
                  else Deny (''policy: '' @ po_name row))
           in Ok \<lparr>pr_name = po_name row, pr_priority = po_priority row, pr_condition = cond,
                  pr_decision = decision\<rparr>))"

fun collect_rules :: "pg \<Rightarrow> policy_row list \<Rightarrow> (store_error, policy_rule list) rust" where
  "collect_rules db [] = Ok []"
| "collect_rules db (r # rs) =
     rbind (to_policy_rule db r) (\<lambda>x. rbind (collect_rules db rs) (\<lambda>xs. Ok (x # xs)))"

definition enabled_policies :: "world \<Rightarrow> policy_row list" where
  "enabled_policies w = sort_key po_priority (filter po_enabled (policies w))"

definition po_load_rules :: "pg \<Rightarrow> policy_rule list io" where
  "po_load_rules db = io_bind (stmt (\<lambda>w. (Ok (enabled_policies w), w)))
     (\<lambda>rows w. (collect_rules db rows, w))"

definition po_load_rules_with_id :: "pg \<Rightarrow> (uuid \<times> policy_rule) list io" where
  "po_load_rules_with_id db = io_bind (stmt (\<lambda>w. (Ok (enabled_policies w), w)))
     (\<lambda>rows w. (rbind (collect_rules db rows) (\<lambda>rules. Ok (zip (map po_id rows) rules)), w))"

definition po_list_all :: "policy_row list io" where
  "po_list_all = stmt (\<lambda>w. (Ok (sort_key po_priority (policies w)), w))"

definition po_find_by_id :: "uuid \<Rightarrow> policy_row option io" where
  "po_find_by_id i = stmt (\<lambda>w. (Ok (find_row (\<lambda>p. po_id p = i) (policies w)), w))"

definition po_create :: "create_policy \<Rightarrow> policy_row io" where
  "po_create p = stmt (\<lambda>w.
     if list_ex (\<lambda>r. po_name r = cp_name p) (policies w) then (Err (UniqueViolation ''name''), w)
     else if cp_action p \<notin> set policy_actions then (Err (CheckViolation ''action''), w)
     else
       (let r = \<lparr>po_id = fresh w, po_name = cp_name p, po_description = cp_description p,
              po_priority = cp_priority p,
              po_conditions = (case cp_conditions p of None \<Rightarrow> JArr [] | Some c \<Rightarrow> c),
              po_action = cp_action p, po_vlan_id = cp_vlan_id p, po_enabled = True,
              po_created_at = clock w\<rparr>
        in (Ok r, w\<lparr>policies := policies w @ [r], fresh := fresh w + 1\<rparr>)))"

definition po_update :: "uuid \<Rightarrow> update_policy \<Rightarrow> policy_row option io" where
  "po_update i p = io_bind (po_find_by_id i) (\<lambda>found.
     case found of
       None \<Rightarrow> io_return None
     | Some existing \<Rightarrow>
         (let name = runwrap_or (po_name existing) (upo_name p);
              description = opt_or (upo_description p) (po_description existing);
              priority = runwrap_or (po_priority existing) (upo_priority p);
              conditions = runwrap_or (po_conditions existing) (upo_conditions p);
              action = runwrap_or (po_action existing) (upo_action p);
              vlan = (if upo_vlan_id p \<noteq> None then upo_vlan_id p else po_vlan_id existing);
              enabled = runwrap_or (po_enabled existing) (upo_enabled p)
          in stmt (\<lambda>w.
            case find_row (\<lambda>r. po_id r = i) (policies w) of
              None \<Rightarrow> (Ok None, w)
            | Some old \<Rightarrow>
                if list_ex (\<lambda>r. po_name r = name \<and> po_id r \<noteq> i) (policies w)
                then (Err (UniqueViolation ''name''), w)
                else if action \<notin> set policy_actions then (Err (CheckViolation ''action''), w)
                else
                  (let r = old\<lparr>po_name := name, po_description := description,
                         po_priority := priority, po_conditions := conditions, po_action := action,
                         po_vlan_id := vlan, po_enabled := enabled\<rparr>
                   in (Ok (Some r), w\<lparr>policies :=
                         update_rows (\<lambda>x. po_id x = i) (\<lambda>_. r) (policies w)\<rparr>)))))"

text \<open>The foreign key of the endpoints is \<^verbatim>\<open>ON DELETE SET NULL\<close>.\<close>

definition po_delete :: "uuid \<Rightarrow> bool io" where
  "po_delete i = stmt (\<lambda>w.
     (Ok (list_ex (\<lambda>r. po_id r = i) (policies w)),
      w\<lparr>policies := filter (\<lambda>r. po_id r \<noteq> i) (policies w),
        endpoints := update_rows (\<lambda>r. ep_assigned_policy_id r = Some i)
          (\<lambda>r. r\<lparr>ep_assigned_policy_id := None\<rparr>) (endpoints w)\<rparr>))"

definition po_find_rule_by_id :: "pg \<Rightarrow> uuid \<Rightarrow> policy_rule option io" where
  "po_find_rule_by_id db i = io_bind (po_find_by_id i) (\<lambda>found w.
     case found of
       None \<Rightarrow> (Ok None, w)
     | Some r \<Rightarrow> (rbind (to_policy_rule db r) (\<lambda>rule. Ok (Some rule)), w))"

definition decision_to_status :: "policy_decision \<Rightarrow> string" where
  "decision_to_status d =
     (case d of Allow \<Rightarrow> ''allowed'' | AllowVlan v \<Rightarrow> ''allowed''
      | Quarantine v r \<Rightarrow> ''quarantined'' | Deny r \<Rightarrow> ''denied'')"

section \<open>Audit log and posture reports\<close>

definition audit :: "string \<Rightarrow> uuid option \<Rightarrow> string \<Rightarrow> json \<Rightarrow> unit io" where
  "audit event eid actor detail = stmt (\<lambda>w.
     if (case eid of None \<Rightarrow> False | Some i \<Rightarrow> \<not> has_endpoint w i)
     then (Err (ForeignKeyViolation ''endpoint_id''), w)
     else (Ok (), w\<lparr>audit_log := audit_log w @
            [\<lparr>au_id = int (length (audit_log w)) + 1, au_event_type = event, au_endpoint_id = eid,
              au_actor = Some actor, au_detail = Some detail, au_created_at = clock w\<rparr>]\<rparr>))"

definition audit_list :: "int \<Rightarrow> int \<Rightarrow> uuid option \<Rightarrow> audit_row list io" where
  "audit_list limit offset eid = stmt (\<lambda>w.
     (page limit offset (sort_key (\<lambda>r. - au_created_at r)
        (case eid of Some i \<Rightarrow> filter (\<lambda>r. au_endpoint_id r = Some i) (audit_log w)
         | None \<Rightarrow> audit_log w)), w))"

definition audit_count :: "uuid option \<Rightarrow> int io" where
  "audit_count eid = stmt (\<lambda>w.
     (Ok (int (length
        (case eid of Some i \<Rightarrow> filter (\<lambda>r. au_endpoint_id r = Some i) (audit_log w)
         | None \<Rightarrow> audit_log w))), w))"

definition posture_save :: "pg \<Rightarrow> uuid \<Rightarrow> posture_report \<Rightarrow> bool \<Rightarrow> unit io" where
  "posture_save db i rep compliant = stmt (\<lambda>w.
     if \<not> has_endpoint w i then (Err (ForeignKeyViolation ''endpoint_id''), w)
     else (Ok (), w\<lparr>posture_reports := posture_reports w @
            [\<lparr>pw_endpoint_id = i, pw_os = pr_os rep, pw_os_version = pr_os_version rep,
              pw_installed_sw = software_to_json db (installed_software rep),
              pw_missing_patches = patches_to_json db (missing_patches rep),
              pw_usb_enabled = usb_enabled rep, pw_bluetooth_enabled = bluetooth_enabled rep,
              pw_folder_sharing = folder_sharing_enabled rep, pw_is_compliant = compliant,
              pw_reported_at = clock w\<rparr>]\<rparr>))"

section \<open>Compliance\<close>

record compliance_policy =
  required_software :: "string list"
  require_patches :: bool
  allow_usb :: bool
  allow_bluetooth :: bool
  allow_folder_sharing :: bool

definition default_policy :: compliance_policy where
  "default_policy = \<lparr>required_software = [], require_patches = True, allow_usb = True,
     allow_bluetooth = True, allow_folder_sharing = False\<rparr>"

definition compliance_evaluate :: "compliance_policy \<Rightarrow> posture_report \<Rightarrow> bool" where
  "compliance_evaluate p rep =
     (if list_ex (\<lambda>req. \<not> list_ex (\<lambda>s. contains (to_lowercase req) (to_lowercase (sw_name s)))
           (installed_software rep)) (required_software p) then False
      else if require_patches p \<and> missing_patches rep \<noteq> [] then False
      else if \<not> allow_usb p \<and> usb_enabled rep then False
      else if \<not> allow_bluetooth p \<and> bluetooth_enabled rep then False
      else if \<not> allow_folder_sharing p \<and> folder_sharing_enabled rep then False
      else True)"

end
