(* ===== verification/StoreLogic.thy ===== *)
theory StoreLogic
  imports Store
begin

text \<open>
  A logic for the operations of the store. A triple \<open>valid P m Q E\<close> says that from a world
  satisfying \<open>P\<close> the operation does not panic, ends in \<open>Q\<close> when it succeeds and in
  \<open>E\<close> when it fails, for every schedule of refused statements and lost replies. The locale
  \<open>io_invariant\<close> is the contract of an invariant that survives a turn of the schedule; the
  rules for handlers are proved in it once and instantiated by the invariant of the database.
\<close>

named_theorems store_keeps "operations that keep the invariant of the database"

section \<open>Triples\<close>

definition valid ::
  "(world \<Rightarrow> bool) \<Rightarrow> 'a io \<Rightarrow> ('a \<Rightarrow> world \<Rightarrow> bool) \<Rightarrow> (world \<Rightarrow> bool) \<Rightarrow> bool" where
  "valid P m Q E \<longleftrightarrow>
     (\<forall>w. P w \<longrightarrow> (case m w of (Ok x, w') \<Rightarrow> Q x w' | (Err e, w') \<Rightarrow> E w' | (Panic, w') \<Rightarrow> False))"

definition keeps :: "(world \<Rightarrow> bool) \<Rightarrow> 'a io \<Rightarrow> bool" where
  "keeps I m \<longleftrightarrow> valid I m (\<lambda>_. I) I"

lemma validI:
  "(\<And>w x w'. P w \<Longrightarrow> m w = (Ok x, w') \<Longrightarrow> Q x w') \<Longrightarrow>
   (\<And>w e w'. P w \<Longrightarrow> m w = (Err e, w') \<Longrightarrow> E w') \<Longrightarrow>
   (\<And>w w'. P w \<Longrightarrow> m w \<noteq> (Panic, w')) \<Longrightarrow> valid P m Q E"
  by (auto simp: valid_def split: prod.splits rust.splits)

lemma valid_OkD: "valid P m Q E \<Longrightarrow> P w \<Longrightarrow> m w = (Ok x, w') \<Longrightarrow> Q x w'"
  by (auto simp: valid_def split: prod.splits rust.splits)

lemma valid_ErrD: "valid P m Q E \<Longrightarrow> P w \<Longrightarrow> m w = (Err e, w') \<Longrightarrow> E w'"
  by (auto simp: valid_def split: prod.splits rust.splits)

lemma valid_PanicD: "valid P m Q E \<Longrightarrow> P w \<Longrightarrow> fst (m w) \<noteq> Panic"
  by (cases "m w") (auto simp: valid_def split: prod.splits rust.splits)

lemma valid_weaken:
  "valid P' m Q' E' \<Longrightarrow> (\<And>w. P w \<Longrightarrow> P' w) \<Longrightarrow> (\<And>x w. Q' x w \<Longrightarrow> Q x w) \<Longrightarrow> (\<And>w. E' w \<Longrightarrow> E w) \<Longrightarrow>
   valid P m Q E"
  by (fastforce simp: valid_def split: prod.splits rust.splits)

lemma valid_return: "(\<And>w. P w \<Longrightarrow> Q x w) \<Longrightarrow> valid P (io_return x) Q E"
  by (simp add: valid_def io_return_def)

lemma valid_fail: "(\<And>w. P w \<Longrightarrow> E w) \<Longrightarrow> valid P (io_fail e) Q E"
  by (simp add: valid_def io_fail_def)

lemma valid_bind:
  assumes m: "valid P m R E" and k: "\<And>x. valid (R x) (k x) Q E"
  shows "valid P (io_bind m k) Q E"
  unfolding valid_def
proof (intro allI impI)
  fix w
  assume "P w"
  with m have m': "case m w of (Ok x, w') \<Rightarrow> R x w' | (Err e, w') \<Rightarrow> E w' | (Panic, w') \<Rightarrow> False"
    by (simp add: valid_def)
  have k': "R x w' \<Longrightarrow> case k x w' of (Ok x, w') \<Rightarrow> Q x w' | (Err e, w') \<Rightarrow> E w' | (Panic, w') \<Rightarrow> False"
    for x w' using k by (simp add: valid_def)
  show "case io_bind m k w of (Ok x, w') \<Rightarrow> Q x w' | (Err e, w') \<Rightarrow> E w' | (Panic, w') \<Rightarrow> False"
  proof (cases "m w")
    case (Pair r w1)
    then show ?thesis using m' k' by (cases r) (simp_all add: io_bind_def)
  qed
qed

lemma valid_seq: "valid P m (\<lambda>_. R) E \<Longrightarrow> valid R k Q E \<Longrightarrow> valid P (io_seq m k) Q E"
  unfolding io_seq_def by (rule valid_bind)

lemma valid_ok:
  assumes "valid P m (\<lambda>x. Q (Some x)) (Q None)"
  shows "valid P (io_ok m) Q E"
  unfolding valid_def
proof (intro allI impI)
  fix w
  assume "P w"
  then show "case io_ok m w of (Ok x, w') \<Rightarrow> Q x w' | (Err e, w') \<Rightarrow> E w' | (Panic, w') \<Rightarrow> False"
    using assms by (cases "m w"; cases "fst (m w)") (auto simp: io_ok_def valid_def)
qed

lemma valid_when:
  "(b \<Longrightarrow> valid P m (\<lambda>_. Q) E) \<Longrightarrow> (\<And>w. \<not> b \<Longrightarrow> P w \<Longrightarrow> Q w) \<Longrightarrow> valid P (io_when b m) (\<lambda>_. Q) E"
  by (simp add: io_when_def valid_return)

lemma valid_if:
  "(b \<Longrightarrow> valid P m Q E) \<Longrightarrow> (\<not> b \<Longrightarrow> valid P k Q E) \<Longrightarrow> valid P (if b then m else k) Q E"
  by simp

lemma valid_list:
  "(\<And>x. x \<in> set xs \<Longrightarrow> valid P (f x) (\<lambda>_. P) E) \<Longrightarrow> valid P (io_list f xs) (\<lambda>_. P) E"
  by (induction xs) (auto intro: valid_return valid_seq)

lemma valid_stmt:
  assumes "\<And>w. P w \<Longrightarrow> P (tick w)"
    and "\<And>w. P w \<Longrightarrow> E w"
    and "valid P f Q E"
    and "\<And>x w. Q x w \<Longrightarrow> E w"
  shows "valid P (stmt f) Q E"
  unfolding valid_def
proof (intro allI impI)
  fix w
  assume P: "P w"
  then have t: "P (tick w)" by (rule assms(1))
  have f: "case f (tick w) of (Ok x, w') \<Rightarrow> Q x w' | (Err e, w') \<Rightarrow> E w' | (Panic, w') \<Rightarrow> False"
    using assms(3) t by (simp add: valid_def)
  then have "E (snd (f (tick w)))"
    using assms(4) by (cases "f (tick w)"; cases "fst (f (tick w))") auto
  with f t assms(2)
  show "case stmt f w of (Ok x, w') \<Rightarrow> Q x w' | (Err e, w') \<Rightarrow> E w' | (Panic, w') \<Rightarrow> False"
    by (auto simp: stmt_def split: list.splits delivery.splits)
qed

text \<open>An operation that keeps \<open>I\<close> and, when it succeeds, returns a value with the property \<open>V\<close>.\<close>

definition yields :: "(world \<Rightarrow> bool) \<Rightarrow> ('a \<Rightarrow> bool) \<Rightarrow> 'a io \<Rightarrow> bool" where
  "yields I V m \<longleftrightarrow> valid I m (\<lambda>x w. I w \<and> V x) I"

lemma yields_keeps: "yields I V m \<Longrightarrow> keeps I m"
  unfolding yields_def keeps_def by (erule valid_weaken) auto

lemma keeps_yields: "keeps I m \<Longrightarrow> (\<And>x. V x) \<Longrightarrow> yields I V m"
  unfolding yields_def keeps_def by (erule valid_weaken) auto

lemma yields_return: "V x \<Longrightarrow> yields I V (io_return x)"
  by (simp add: yields_def valid_return)

lemma yields_ok: "yields I V m \<Longrightarrow> yields I (pred_option V) (io_ok m)"
  unfolding yields_def by (rule valid_ok) (auto elim: valid_weaken)

lemma yields_bind:
  assumes "yields I V m" and "\<And>x. V x \<Longrightarrow> yields I U (k x)"
  shows "yields I U (io_bind m k)"
  unfolding yields_def
proof (rule valid_bind [OF assms(1) [unfolded yields_def]])
  show "valid (\<lambda>w. I w \<and> V x) (k x) (\<lambda>x w. I w \<and> U x) I" for x
    using assms(2) [of x] by (cases "V x") (simp_all add: yields_def valid_def)
qed

lemma bind_yields: "yields I V m \<Longrightarrow> (\<And>x. V x \<Longrightarrow> keeps I (k x)) \<Longrightarrow> keeps I (io_bind m k)"
  by (rule yields_keeps, rule yields_bind, assumption, rule keeps_yields [where V = "\<lambda>_. True"]) auto

section \<open>Delivered statements\<close>

text \<open>A statement that succeeds was carried out.\<close>

lemma stmt_OkD: "stmt f w = (Ok x, w') \<Longrightarrow> f (tick w) = (Ok x, w')"
  by (auto simp: stmt_def split: list.splits delivery.splits)

lemma valid_stmt_Ok:
  assumes "\<And>w. fst (f w) \<noteq> Panic" and "\<And>w x w'. f w = (Ok x, w') \<Longrightarrow> Q x w'"
  shows "valid P (stmt f) Q (\<lambda>_. True)"
proof (rule validI)
  fix w w'
  show "stmt f w \<noteq> (Panic, w')"
    using assms(1) [of "tick w"] by (auto simp: stmt_def split: list.splits delivery.splits)
qed (auto dest!: stmt_OkD intro: assms(2))

lemma stmt_delivered: "schedule w = [] \<Longrightarrow> stmt f w = f (tick w)"
  by (simp add: stmt_def)

lemma tick_fields [simp]:
  "endpoints (tick w) = endpoints w" "sessions (tick w) = sessions w"
  "policies (tick w) = policies w" "audit_log (tick w) = audit_log w"
  "posture_reports (tick w) = posture_reports w" "ip_rules (tick w) = ip_rules w"
  "nac_users (tick w) = nac_users w" "published (tick w) = published w"
  "fresh (tick w) = fresh w" "clock (tick w) = clock w + 1" "schedule (tick w) = tl (schedule w)"
  by (simp_all add: tick_def)

lemma io_simps [simp]:
  "io_return x w = (Ok x, w)" "io_fail e w = (Err e, w)"
  by (simp_all add: io_return_def io_fail_def)

section \<open>Invariants\<close>

locale io_steps =
  fixes I :: "world \<Rightarrow> bool"
  assumes I_tick: "I w \<Longrightarrow> I (tick w)"
begin

lemma keeps_return: "keeps I (io_return x)"
  by (simp add: keeps_def valid_return)

lemma keeps_fail: "keeps I (io_fail e)"
  by (simp add: keeps_def valid_fail)

lemma keeps_bind: "keeps I m \<Longrightarrow> (\<And>x. keeps I (k x)) \<Longrightarrow> keeps I (io_bind m k)"
  unfolding keeps_def by (rule valid_bind)

lemma keeps_seq: "keeps I m \<Longrightarrow> keeps I k \<Longrightarrow> keeps I (io_seq m k)"
  unfolding io_seq_def by (rule keeps_bind)

lemma keeps_ok: "keeps I m \<Longrightarrow> keeps I (io_ok m)"
  unfolding keeps_def by (rule valid_ok)

lemma keeps_when: "keeps I m \<Longrightarrow> keeps I (io_when b m)"
  unfolding keeps_def by (rule valid_when)

lemma keeps_list: "(\<And>x. x \<in> set xs \<Longrightarrow> keeps I (f x)) \<Longrightarrow> keeps I (io_list f xs)"
  unfolding keeps_def by (rule valid_list)

lemma keeps_stmt:
  "(\<And>w. I w \<Longrightarrow> I (snd (f w))) \<Longrightarrow> (\<And>w. I w \<Longrightarrow> fst (f w) \<noteq> Panic) \<Longrightarrow> keeps I (stmt f)"
  unfolding keeps_def
proof (rule valid_stmt)
  assume f: "\<And>w. I w \<Longrightarrow> I (snd (f w))" "\<And>w. I w \<Longrightarrow> fst (f w) \<noteq> Panic"
  show "valid I f (\<lambda>_. I) I"
    by (rule validI) (metis f fst_conv snd_conv)+
qed (auto intro: I_tick)

lemma yields_stmt:
  assumes "\<And>w. I w \<Longrightarrow> I (snd (f w))" and "\<And>w. I w \<Longrightarrow> fst (f w) \<noteq> Panic"
    and "\<And>w x. I w \<Longrightarrow> fst (f w) = Ok x \<Longrightarrow> V x"
  shows "yields I V (stmt f)"
  unfolding yields_def
proof (rule valid_stmt)
  show "valid I f (\<lambda>x w. I w \<and> V x) I"
    by (rule validI) (metis assms fst_conv snd_conv)+
qed (auto intro: I_tick)

lemma keeps_pure: "(\<And>w. snd (f w) = w \<and> fst (f w) \<noteq> Panic) \<Longrightarrow> keeps I f"
  by (auto simp: keeps_def intro!: validI) (metis fst_conv snd_conv)+

lemma keeps_read: "(\<And>w. snd (f w) = w \<and> fst (f w) \<noteq> Panic) \<Longrightarrow> keeps I (stmt f)"
  by (rule keeps_stmt) auto

end

text \<open>An invariant that says nothing about the messages also survives a publication.\<close>

locale io_invariant = io_steps +
  assumes I_publish: "I w \<Longrightarrow> I (w\<lparr>published := ms\<rparr>)"
begin

lemma keeps_publish: "keeps I (nats_publish m)"
  unfolding nats_publish_def by (rule keeps_stmt) (auto intro: I_publish)

end

section \<open>The invariant of the database\<close>

definition agents_ok :: "endpoint_row list \<Rightarrow> bool" where
  "agents_ok rows \<longleftrightarrow>
     (\<forall>r \<in> set rows. \<forall>s \<in> set rows.
        ep_agent_id r \<noteq> None \<longrightarrow> ep_agent_id r = ep_agent_id s \<longrightarrow> ep_id r = ep_id s)"

definition endpoints_ok :: "world \<Rightarrow> bool" where
  "endpoints_ok w \<longleftrightarrow>
     distinct (map ep_id (endpoints w)) \<and>
     distinct (map ep_mac_address (endpoints w)) \<and>
     agents_ok (endpoints w) \<and>
     (\<forall>r \<in> set (endpoints w). ep_status r \<in> set statuses \<and> ep_id r < fresh w)"

definition sessions_ok :: "world \<Rightarrow> bool" where
  "sessions_ok w \<longleftrightarrow>
     distinct (map se_id (sessions w)) \<and>
     (\<forall>s \<in> set (sessions w). se_state s \<in> set session_states \<and> se_id s < fresh w
        \<and> has_endpoint w (se_endpoint_id s))"

definition policies_ok :: "world \<Rightarrow> bool" where
  "policies_ok w \<longleftrightarrow>
     distinct (map po_id (policies w)) \<and> distinct (map po_name (policies w)) \<and>
     (\<forall>p \<in> set (policies w). po_action p \<in> set policy_actions \<and> po_id p < fresh w)"

definition store_inv :: "world \<Rightarrow> bool" where
  "store_inv w \<longleftrightarrow> endpoints_ok w \<and> sessions_ok w \<and> policies_ok w"

lemma has_endpoint_iff: "has_endpoint w i \<longleftrightarrow> i \<in> ep_id ` set (endpoints w)"
  by (auto simp: has_endpoint_def list_ex_iff)

interpretation inv: io_invariant store_inv
  by unfold_locales
     (simp_all add: store_inv_def endpoints_ok_def sessions_ok_def policies_ok_def has_endpoint_def)

lemmas inv_rules = inv.keeps_return inv.keeps_fail inv.keeps_bind inv.keeps_seq inv.keeps_ok
  inv.keeps_when inv.keeps_list inv.keeps_publish

section \<open>Updates of rows\<close>

lemma update_rows_keys [simp]:
  "(\<And>r. key (f r) = key r) \<Longrightarrow> map key (update_rows P f rows) = map key rows"
  by (induction rows) (auto simp: update_rows_def)

lemma set_update_rows: "set (update_rows P f rows) = {if P r then f r else r | r. r \<in> set rows}"
  by (auto simp: update_rows_def)

lemma find_row_SomeD: "find_row P rows = Some r \<Longrightarrow> r \<in> set rows \<and> P r"
  by (auto simp: find_row_def find_Some_iff)

lemma find_row_None_iff: "find_row P rows = None \<longleftrightarrow> (\<forall>r \<in> set rows. \<not> P r)"
  by (auto simp: find_row_def find_None_iff)

lemma find_row_unique:
  "distinct (map key rows) \<Longrightarrow> r \<in> set rows \<Longrightarrow> find_row (\<lambda>x. key x = key r) rows = Some r"
proof (induction rows)
  case (Cons a rows)
  then show ?case by (cases "key a = key r") (auto simp: find_row_def image_iff)
qed (simp add: find_row_def)

lemma update_rows_key_inj:
  "distinct (map key rows) \<Longrightarrow> old \<in> set rows \<Longrightarrow>
   set (update_rows (\<lambda>x. key x = key old) (\<lambda>_. r) rows) = insert r (set rows - {old})"
  by (auto simp: update_rows_def distinct_map inj_on_def)

text \<open>A row rewritten under its own key keeps the keys, and a second key stays distinct when the
  new value is free.\<close>

lemma update_rows_const_keys:
  "key r = key old \<Longrightarrow>
   map key (update_rows (\<lambda>x. key x = key old) (\<lambda>_. r) rows) = map key rows"
  by (induction rows) (auto simp: update_rows_def)

lemma update_rows_absent: "k \<notin> key ` set rows \<Longrightarrow> update_rows (\<lambda>x. key x = k) f rows = rows"
  by (induction rows) (auto simp: update_rows_def)

lemma update_rows_distinct:
  assumes "distinct (map key rows)" and "distinct (map k2 rows)" and "old \<in> set rows"
    and "\<And>x. x \<in> set rows \<Longrightarrow> key x \<noteq> key old \<Longrightarrow> k2 x \<noteq> k2 r"
  shows "distinct (map k2 (update_rows (\<lambda>x. key x = key old) (\<lambda>_. r) rows))"
  using assms
proof (induction rows)
  case (Cons a rows)
  show ?case
  proof (cases "key a = key old")
    case True
    then have "key old \<notin> key ` set rows" using Cons.prems(1) by auto
    then have "update_rows (\<lambda>x. key x = key old) (\<lambda>_. r) (a # rows) = r # rows"
      using True update_rows_absent [of "key old" key rows] by (simp add: update_rows_def)
    moreover have "k2 x \<noteq> k2 r" if "x \<in> set rows" for x
      using Cons.prems(4) [of x] that \<open>key old \<notin> key ` set rows\<close> by (metis image_eqI list.set_intros(2))
    then have "k2 r \<notin> k2 ` set rows" by fastforce
    ultimately show ?thesis using Cons.prems(2) by simp
  next
    case False
    then have old: "old \<in> set rows" using Cons.prems(3) by auto
    have "k2 a \<noteq> k2 r" using Cons.prems(4) [of a] False by simp
    moreover have "distinct (map k2 (update_rows (\<lambda>x. key x = key old) (\<lambda>_. r) rows))"
      by (rule Cons.IH) (use Cons.prems old in auto)
    moreover have "k2 a \<notin> k2 ` set (update_rows (\<lambda>x. key x = key old) (\<lambda>_. r) rows)"
      using Cons.prems(2) \<open>k2 a \<noteq> k2 r\<close> by (auto simp: set_update_rows image_iff split: if_splits)
    moreover have "update_rows (\<lambda>x. key x = key old) (\<lambda>_. r) (a # rows) =
        a # update_rows (\<lambda>x. key x = key old) (\<lambda>_. r) rows"
      using False by (simp add: update_rows_def)
    ultimately show ?thesis by simp
  qed
qed (simp add: update_rows_def)


section \<open>Every operation keeps the invariant\<close>

lemma agents_ok_update:
  assumes "agents_ok rows" and "\<And>r. ep_id (f r) = ep_id r" and "\<And>r. ep_agent_id (f r) = ep_agent_id r"
  shows "agents_ok (update_rows P f rows)"
  unfolding agents_ok_def
proof (intro ballI impI)
  have same: "\<exists>y \<in> set rows. ep_id x = ep_id y \<and> ep_agent_id x = ep_agent_id y"
    if "x \<in> set (update_rows P f rows)" for x
    using that assms(2,3) by (auto simp: set_update_rows)
  fix r s
  assume rs: "r \<in> set (update_rows P f rows)" "s \<in> set (update_rows P f rows)"
    "ep_agent_id r \<noteq> None" "ep_agent_id r = ep_agent_id s"
  obtain r' s' where "r' \<in> set rows" "s' \<in> set rows" "ep_id r = ep_id r'" "ep_id s = ep_id s'"
    "ep_agent_id r = ep_agent_id r'" "ep_agent_id s = ep_agent_id s'"
    using same [OF rs(1)] same [OF rs(2)] by blast
  then show "ep_id r = ep_id s"
    using assms(1) rs(3,4) unfolding agents_ok_def by metis
qed

lemma agents_ok_snoc:
  assumes "agents_ok rows" and "ep_agent_id r \<noteq> None \<Longrightarrow> \<forall>x \<in> set rows. ep_agent_id x \<noteq> ep_agent_id r"
  shows "agents_ok (rows @ [r])"
  unfolding agents_ok_def
proof (intro ballI impI)
  fix x y
  assume xy: "x \<in> set (rows @ [r])" "y \<in> set (rows @ [r])" "ep_agent_id x \<noteq> None"
    "ep_agent_id x = ep_agent_id y"
  consider "x \<in> set rows" "y \<in> set rows" | "x = r" "y = r" | "x = r" "y \<in> set rows" | "x \<in> set rows" "y = r"
    using xy by auto
  then show "ep_id x = ep_id y"
  proof cases
    case 1
    with assms(1) xy show ?thesis unfolding agents_ok_def by blast
  next
    case 3
    with assms(2) xy show ?thesis by auto
  next
    case 4
    with assms(2) xy show ?thesis by auto
  qed simp
qed

lemma has_endpoint_update:
  "(\<And>r. ep_id (f r) = ep_id r) \<Longrightarrow> has_endpoint (w\<lparr>endpoints := update_rows P f (endpoints w)\<rparr>) i = has_endpoint w i"
  unfolding has_endpoint_iff by (simp add: set_map [symmetric] del: set_map)

lemma update_rows_inv:
  assumes "store_inv w"
    and "\<And>r. ep_id (f r) = ep_id r" and "\<And>r. ep_mac_address (f r) = ep_mac_address r"
    and "\<And>r. ep_agent_id (f r) = ep_agent_id r"
    and "\<And>r. r \<in> set (endpoints w) \<Longrightarrow> P r \<Longrightarrow> ep_status (f r) \<in> set statuses"
  shows "store_inv (w\<lparr>endpoints := update_rows P f (endpoints w)\<rparr>)"
  using assms agents_ok_update [of "endpoints w" f P] has_endpoint_update [where f = f and w = w and P = P]
  by (auto simp: store_inv_def endpoints_ok_def sessions_ok_def policies_ok_def set_update_rows)

lemma update_endpoint_inv:
  assumes "store_inv w"
    and "\<And>r. ep_id (f r) = ep_id r" and "\<And>r. ep_mac_address (f r) = ep_mac_address r"
    and "\<And>r. ep_agent_id (f r) = ep_agent_id r"
    and "\<And>r. r \<in> set (endpoints w) \<Longrightarrow> ep_id r = i \<Longrightarrow> ep_status (f r) \<in> set statuses"
  shows "store_inv (update_endpoint i f w)"
  unfolding update_endpoint_def using assms by (intro update_rows_inv) auto

lemma inv_status: "store_inv w \<Longrightarrow> r \<in> set (endpoints w) \<Longrightarrow> ep_status r \<in> set statuses"
  by (simp add: store_inv_def endpoints_ok_def)

lemma statuses_iff:
  "s \<in> set statuses \<longleftrightarrow> s = ''allowed'' \<or> s = ''quarantined'' \<or> s = ''denied'' \<or> s = ''pending''"
  by (simp add: statuses_def)

lemma new_endpoint_simps [simp]:
  "ep_id (new_endpoint ep mac ip w) = fresh w"
  "ep_mac_address (new_endpoint ep mac ip w) = mac"
  "ep_agent_id (new_endpoint ep mac ip w) = up_agent_id ep"
  "ep_status (new_endpoint ep mac ip w) = ''pending''"
  "ep_ip_address (new_endpoint ep mac ip w) = ip"
  "ep_username (new_endpoint ep mac ip w) = None"
  by (simp_all add: new_endpoint_def)

lemma merge_endpoint_simps [simp]:
  "ep_id (merge_endpoint ep ip t r) = ep_id r"
  "ep_mac_address (merge_endpoint ep ip t r) = ep_mac_address r"
  "ep_agent_id (merge_endpoint ep ip t r) = coalesce (up_agent_id ep) (ep_agent_id r)"
  "ep_status (merge_endpoint ep ip t r) = ep_status r"
  "ep_ip_address (merge_endpoint ep ip t r) = coalesce ip (ep_ip_address r)"
  "ep_username (merge_endpoint ep ip t r) = ep_username r"
  by (simp_all add: merge_endpoint_def)

lemma insert_endpoint_inv:
  assumes inv: "store_inv w" and r: "ep_id r = fresh w" "ep_status r \<in> set statuses"
    and mac: "\<forall>x \<in> set (endpoints w). ep_mac_address x \<noteq> ep_mac_address r"
    and ag: "\<not> agent_taken (endpoints w) (ep_agent_id r) (fresh w)"
  shows "store_inv (w\<lparr>endpoints := endpoints w @ [r], fresh := fresh w + 1\<rparr>)"
proof -
  have ids: "\<forall>x \<in> set (endpoints w). ep_id x < fresh w"
    using inv by (simp add: store_inv_def endpoints_ok_def)
  have "agents_ok (endpoints w @ [r])"
    using inv ids ag by (intro agents_ok_snoc)
      (auto simp: store_inv_def endpoints_ok_def agent_taken_def list_ex_iff)
  then show ?thesis
    using inv ids r mac
    by (auto simp: store_inv_def endpoints_ok_def sessions_ok_def policies_ok_def has_endpoint_iff)
qed

lemma replace_endpoint_inv:
  assumes inv: "store_inv w" and old: "old \<in> set (endpoints w)"
    and r: "ep_id r = ep_id old" "ep_status r \<in> set statuses"
    and mac: "\<forall>x \<in> set (endpoints w). ep_id x \<noteq> ep_id old \<longrightarrow> ep_mac_address x \<noteq> ep_mac_address r"
    and ag: "\<not> agent_taken (endpoints w) (ep_agent_id r) (ep_id old)"
  shows "store_inv (w\<lparr>endpoints := update_rows (\<lambda>x. ep_id x = ep_id old) (\<lambda>_. r) (endpoints w)\<rparr>)"
proof -
  let ?rows = "update_rows (\<lambda>x. ep_id x = ep_id old) (\<lambda>_. r) (endpoints w)"
  have d: "distinct (map ep_id (endpoints w))" "distinct (map ep_mac_address (endpoints w))"
    using inv by (simp_all add: store_inv_def endpoints_ok_def)
  have s: "set ?rows = insert r (set (endpoints w) - {old})"
    using d(1) old by (rule update_rows_key_inj)
  have ids: "map ep_id ?rows = map ep_id (endpoints w)"
    using r(1) by (rule update_rows_const_keys)
  have macs: "distinct (map ep_mac_address ?rows)"
    using d old mac by (intro update_rows_distinct) auto
  have other: "ep_id x \<noteq> ep_id old" if "x \<in> set (endpoints w)" "x \<noteq> old" for x
    using d(1) old that by (auto simp: distinct_map inj_on_def)
  have ag': "ep_agent_id r \<noteq> ep_agent_id x" if "x \<in> set (endpoints w)" "x \<noteq> old" "ep_agent_id r \<noteq> None" for x
    using ag other [OF that(1,2)] that by (auto simp: agent_taken_def list_ex_iff)
  have "agents_ok ?rows"
    using inv ag' r(1) unfolding store_inv_def endpoints_ok_def agents_ok_def s
    by (metis DiffE insertE singletonI)
  moreover have "ep_id ` set ?rows = ep_id ` set (endpoints w)"
    using ids by (metis set_map)
  ultimately show ?thesis
    using inv ids macs s r old
    by (auto simp: store_inv_def endpoints_ok_def sessions_ok_def policies_ok_def has_endpoint_iff)
qed

lemma ep_upsert_keeps [store_keeps]: "keeps store_inv (ep_upsert db ep)"
  unfolding ep_upsert_def
proof (rule inv.keeps_stmt, goal_cases)
  case (1 w)
  show ?case
  proof (cases "mac_in db (up_mac_address ep)")
    case (Some mac)
    show ?thesis
    proof (cases "cast_inet db (up_ip_address ep)")
      case (Ok ip)
      show ?thesis
      proof (cases "find_row (\<lambda>r. ep_mac_address r = mac) (endpoints w)")
        case None
        then have "\<forall>x \<in> set (endpoints w). ep_mac_address x \<noteq> mac" by (simp add: find_row_None_iff)
        then show ?thesis
          using 1 Some Ok None insert_endpoint_inv [OF 1, of "new_endpoint ep mac ip w"]
          by (simp add: Let_def statuses_def)
      next
        case (Some old)
        then have old: "old \<in> set (endpoints w)" "ep_mac_address old = mac"
          using find_row_SomeD by fastforce+
        then have "\<forall>x \<in> set (endpoints w). ep_id x \<noteq> ep_id old \<longrightarrow> ep_mac_address x \<noteq> mac"
          using 1 by (auto simp: store_inv_def endpoints_ok_def distinct_map inj_on_def)
        then show ?thesis
          using 1 old Some \<open>mac_in db _ = _\<close> Ok inv_status [OF 1 old(1)]
            replace_endpoint_inv [OF 1 old(1), of "merge_endpoint ep ip (clock w) old"]
          by (simp add: Let_def)
      qed
    qed (use 1 Some in simp_all)
  qed (use 1 in simp)
next
  case (2 w)
  show ?case
    by (auto simp: cast_inet_def Let_def split: option.splits rust.splits)
qed

lemma ep_reads_keep [store_keeps]:
  "keeps store_inv (ep_list l f)" "keeps store_inv (ep_find_by_mac db m)"
  "keeps store_inv (ep_find_by_agent_id a)" "keeps store_inv (ep_find_by_id i)"
  "keeps store_inv ep_count"
  unfolding ep_list_def ep_find_by_mac_def ep_find_by_agent_id_def ep_find_by_id_def ep_count_def
  by (rule inv.keeps_read; auto simp: page_def split: option.splits)+

lemma ep_set_status_keeps [store_keeps]: "keeps store_inv (ep_set_status i s)"
  unfolding ep_set_status_def
  by (rule inv.keeps_stmt) (auto intro!: update_endpoint_inv simp: has_endpoint_iff)

lemma ep_updates_keep [store_keeps]:
  "keeps store_inv (ep_set_policy i p)" "keeps store_inv (ep_set_exempt i b)"
  "keeps store_inv (ep_set_username i u)" "keeps store_inv (ep_set_compliance i b)"
  "keeps store_inv (ep_update_posture_fields i f)"
  unfolding ep_set_policy_def ep_set_exempt_def ep_set_username_def ep_set_compliance_def
    ep_update_posture_fields_def
  by (rule inv.keeps_stmt; auto intro!: update_endpoint_inv intro: inv_status)+

lemma session_update_inv:
  assumes "store_inv w" and "\<And>s. se_id (f s) = se_id s" and "\<And>s. se_endpoint_id (f s) = se_endpoint_id s"
    and "\<And>s. s \<in> set (sessions w) \<Longrightarrow> P s \<Longrightarrow> se_state (f s) \<in> set session_states"
  shows "store_inv (w\<lparr>sessions := update_rows P f (sessions w)\<rparr>)"
  using assms
  by (auto simp: store_inv_def endpoints_ok_def sessions_ok_def policies_ok_def set_update_rows has_endpoint_def)

lemma se_create_keeps [store_keeps]: "keeps store_inv (se_create s)"
  unfolding se_create_def
proof (rule inv.keeps_stmt, goal_cases)
  case (1 w)
  have "\<forall>s \<in> set (sessions w). se_id s < fresh w"
    using 1 by (simp add: store_inv_def sessions_ok_def)
  then have "fresh w \<notin> se_id ` set (sessions w)" by auto
  with 1 show ?case
    by (auto simp: Let_def store_inv_def endpoints_ok_def sessions_ok_def policies_ok_def
        session_states_def has_endpoint_def less_SucI)
qed (simp add: Let_def)

lemma se_updates_keep [store_keeps]:
  "keeps store_inv (se_transition i st u)" "keeps store_inv (se_terminate i)"
  unfolding se_transition_def se_terminate_def
  by (rule inv.keeps_stmt; auto intro!: session_update_inv simp: list_ex_iff session_states_def)+

lemma se_reads_keep [store_keeps]:
  "keeps store_inv (se_find_active_by_endpoint i)" "keeps store_inv (se_find_by_id i)"
  unfolding se_find_active_by_endpoint_def se_find_by_id_def
  by (rule inv.keeps_read; simp)+

lemma ep_upsert_by_agent_id_keeps [store_keeps]: "keeps store_inv (ep_upsert_by_agent_id db ep)"
proof (cases "up_agent_id ep")
  case None
  then show ?thesis by (simp add: ep_upsert_by_agent_id_def inv.keeps_return)
next
  case a: (Some a)
  show ?thesis
  proof (cases "a = []")
    case True
    with a show ?thesis by (simp add: ep_upsert_by_agent_id_def inv.keeps_return)
  next
    case False
    show ?thesis
      unfolding ep_upsert_by_agent_id_def a option.case if_not_P [OF False]
    proof (rule inv.keeps_stmt, goal_cases)
      case (1 w)
      have ag: "\<not> agent_taken (endpoints w) (Some a) (ep_id old)"
        if "old \<in> set (endpoints w)" "ep_agent_id old = Some a" for old
        using 1 that unfolding store_inv_def endpoints_ok_def agents_ok_def agent_taken_def list_ex_iff
        by (metis option.distinct(1))
      show ?case
        using 1
        by (auto simp: Let_def list_ex_iff split: option.splits rust.splits
            dest!: find_row_SomeD intro!: replace_endpoint_inv intro: inv_status simp: ag)
    next
      case (2 w)
      show ?case by (auto simp: cast_inet_def Let_def split: option.splits rust.splits)
    qed
  qed
qed

lemma collect_rules_not_Panic: "collect_rules db rs \<noteq> Panic"
  by (induction rs)
     (auto simp: rbind_Panic_iff to_policy_rule_def Let_def split: option.splits)

lemma po_reads_keep [store_keeps]:
  "keeps store_inv (po_load_rules db)" "keeps store_inv (po_load_rules_with_id db)"
  "keeps store_inv po_list_all" "keeps store_inv (po_find_by_id i)"
  "keeps store_inv (po_find_rule_by_id db i)"
proof -
  show load: "keeps store_inv (po_load_rules db)" "keeps store_inv (po_load_rules_with_id db)"
    unfolding po_load_rules_def po_load_rules_with_id_def
    by (rule inv.keeps_bind, rule inv.keeps_read, simp, rule inv.keeps_pure,
        simp add: rbind_Panic_iff collect_rules_not_Panic)+
  show "keeps store_inv po_list_all" and f: "keeps store_inv (po_find_by_id i)"
    unfolding po_list_all_def po_find_by_id_def by (rule inv.keeps_read; simp)+
  show "keeps store_inv (po_find_rule_by_id db i)"
    unfolding po_find_rule_by_id_def
    by (rule inv.keeps_bind, rule f, rule inv.keeps_pure)
       (auto simp: rbind_Panic_iff to_policy_rule_def Let_def split: option.splits)
qed

lemma audit_keeps [store_keeps]:
  "keeps store_inv (audit e i a d)" "keeps store_inv (audit_list l f i)" "keeps store_inv (audit_count i)"
proof -
  show "keeps store_inv (audit e i a d)"
    unfolding audit_def
    by (rule inv.keeps_stmt)
       (auto simp: store_inv_def endpoints_ok_def sessions_ok_def policies_ok_def has_endpoint_def)
  show "keeps store_inv (audit_list l f i)" "keeps store_inv (audit_count i)"
    unfolding audit_list_def audit_count_def by (rule inv.keeps_read; simp add: page_def)+
qed

lemma posture_save_keeps [store_keeps]: "keeps store_inv (posture_save db i r c)"
  unfolding posture_save_def
  by (rule inv.keeps_stmt)
     (auto simp: store_inv_def endpoints_ok_def sessions_ok_def policies_ok_def has_endpoint_def)

lemma po_create_keeps [store_keeps]: "keeps store_inv (po_create p)"
  unfolding po_create_def
proof (rule inv.keeps_stmt, goal_cases)
  case (1 w)
  have "\<forall>r \<in> set (policies w). po_id r < fresh w"
    using 1 by (simp add: store_inv_def policies_ok_def)
  then have "fresh w \<notin> po_id ` set (policies w)" by auto
  with 1 show ?case
    by (auto simp: Let_def store_inv_def endpoints_ok_def sessions_ok_def policies_ok_def
        list_ex_iff has_endpoint_def less_SucI)
qed (simp add: Let_def)

lemma replace_policy_inv:
  assumes inv: "store_inv w" and old: "old \<in> set (policies w)" and r: "po_id r = po_id old"
    "po_action r \<in> set policy_actions"
    and nm: "\<forall>x \<in> set (policies w). po_id x \<noteq> po_id old \<longrightarrow> po_name x \<noteq> po_name r"
  shows "store_inv (w\<lparr>policies := update_rows (\<lambda>x. po_id x = po_id old) (\<lambda>_. r) (policies w)\<rparr>)"
proof -
  let ?rows = "update_rows (\<lambda>x. po_id x = po_id old) (\<lambda>_. r) (policies w)"
  have d: "distinct (map po_id (policies w))" "distinct (map po_name (policies w))"
    using inv by (simp_all add: store_inv_def policies_ok_def)
  have "map po_id ?rows = map po_id (policies w)"
    using r(1) by (rule update_rows_const_keys)
  moreover have "distinct (map po_name ?rows)"
    using d old nm by (intro update_rows_distinct) auto
  moreover have "set ?rows = insert r (set (policies w) - {old})"
    using d(1) old by (rule update_rows_key_inj)
  ultimately show ?thesis
    using inv r old
    by (auto simp: store_inv_def endpoints_ok_def sessions_ok_def policies_ok_def has_endpoint_def)
qed

lemma po_update_keeps [store_keeps]: "keeps store_inv (po_update i p)"
  unfolding po_update_def
proof (rule inv.keeps_bind, goal_cases)
  case 1
  show ?case by (rule store_keeps)
next
  case (2 found)
  show ?case
  proof (cases found)
    case (Some existing)
    show ?thesis
      unfolding Some option.case Let_def
    proof (rule inv.keeps_stmt, goal_cases)
      case (1 w)
      show ?case
      proof (cases "find_row (\<lambda>r. po_id r = i) (policies w)")
        case (Some old)
        then have old: "old \<in> set (policies w)" "po_id old = i" using find_row_SomeD by fastforce+
        then have i: "i = po_id old" by simp
        show ?thesis
          using 1 Some old(1)
          by (auto simp: i list_ex_iff Let_def intro!: replace_policy_inv)
      qed (use 1 in simp)
    qed (auto split: option.splits)
  qed (simp add: inv.keeps_return)
qed

lemma po_delete_keeps [store_keeps]: "keeps store_inv (po_delete i)"
  unfolding po_delete_def
proof (rule inv.keeps_stmt, goal_cases)
  case (1 w)
  have "store_inv (w\<lparr>endpoints := update_rows (\<lambda>r. ep_assigned_policy_id r = Some i)
          (\<lambda>r. r\<lparr>ep_assigned_policy_id := None\<rparr>) (endpoints w)\<rparr>)"
    using 1 by (intro update_rows_inv) (auto intro: inv_status)
  then show ?case
    by (auto simp: store_inv_def endpoints_ok_def sessions_ok_def policies_ok_def has_endpoint_def
        distinct_map_filter)
qed simp

section \<open>Decisions and statuses\<close>

lemma decision_to_status_ok [simp]: "decision_to_status d \<in> set statuses"
  by (cases d) (simp_all add: decision_to_status_def statuses_def)

lemma decision_to_status_not_pending [simp]: "decision_to_status d \<noteq> ''pending''"
  by (cases d) (simp_all add: decision_to_status_def)

section \<open>Messages and rows that an operation leaves alone\<close>

named_theorems store_quiet "operations that publish nothing"
named_theorems store_frame "operations that leave the endpoints alone"

interpretation quiet: io_steps "\<lambda>w. published w = p" for p
  by unfold_locales simp

interpretation frame: io_steps "\<lambda>w. endpoints w = es" for es
  by unfold_locales simp

lemmas quiet_rules = quiet.keeps_return quiet.keeps_fail quiet.keeps_bind quiet.keeps_seq
  quiet.keeps_ok quiet.keeps_when quiet.keeps_list

lemmas frame_rules = frame.keeps_return frame.keeps_fail frame.keeps_bind frame.keeps_seq
  frame.keeps_ok frame.keeps_when frame.keeps_list

lemma keeps_conj: "keeps A m \<Longrightarrow> keeps B m \<Longrightarrow> keeps (\<lambda>w. A w \<and> B w) m"
  by (fastforce simp: keeps_def valid_def split: prod.splits rust.splits)

lemma keepsD: "keeps I m \<Longrightarrow> valid I m (\<lambda>_. I) I"
  by (simp add: keeps_def)

text \<open>A predicate of the endpoints only is kept by what leaves the endpoints alone.\<close>

lemma frame_keeps:
  assumes "\<And>es. keeps (\<lambda>w. endpoints w = es) m"
  shows "keeps (\<lambda>w. P (endpoints w)) m"
  unfolding keeps_def valid_def
proof (intro allI impI)
  fix w :: world
  assume "P (endpoints w)"
  then show "case m w of (Ok x, w') \<Rightarrow> P (endpoints w') | (Err e, w') \<Rightarrow> P (endpoints w')
      | (Panic, w') \<Rightarrow> False"
    using assms [of "endpoints w"] by (fastforce simp: keeps_def valid_def split: prod.splits rust.splits)
qed

lemma quiet_ops [store_quiet]:
  "keeps (\<lambda>w. published w = p) (ep_upsert db ep)"
  "keeps (\<lambda>w. published w = p) (ep_list l o1)"
  "keeps (\<lambda>w. published w = p) (ep_find_by_mac db m)"
  "keeps (\<lambda>w. published w = p) (ep_find_by_agent_id a)"
  "keeps (\<lambda>w. published w = p) (ep_find_by_id i)"
  "keeps (\<lambda>w. published w = p) (ep_set_status i s)"
  "keeps (\<lambda>w. published w = p) (ep_set_policy i pid)"
  "keeps (\<lambda>w. published w = p) (ep_set_exempt i b)"
  "keeps (\<lambda>w. published w = p) (ep_set_username i u)"
  "keeps (\<lambda>w. published w = p) (ep_set_compliance i b)"
  "keeps (\<lambda>w. published w = p) (ep_update_posture_fields i f)"
  "keeps (\<lambda>w. published w = p) (se_create cs)"
  "keeps (\<lambda>w. published w = p) (se_find_active_by_endpoint i)"
  "keeps (\<lambda>w. published w = p) (se_find_by_id i)"
  "keeps (\<lambda>w. published w = p) (se_transition i st u')"
  "keeps (\<lambda>w. published w = p) (se_terminate i)"
  "keeps (\<lambda>w. published w = p) (po_find_by_id i)"
  "keeps (\<lambda>w. published w = p) (audit e eid a' d)"
  "keeps (\<lambda>w. published w = p) (posture_save db i rep c)"
  unfolding ep_upsert_def ep_list_def ep_find_by_mac_def ep_find_by_agent_id_def ep_find_by_id_def
    ep_set_status_def ep_set_policy_def ep_set_exempt_def ep_set_username_def ep_set_compliance_def
    ep_update_posture_fields_def se_create_def se_find_active_by_endpoint_def se_find_by_id_def
    se_transition_def se_terminate_def po_find_by_id_def audit_def posture_save_def
  by (rule quiet.keeps_stmt; auto simp: page_def update_endpoint_def Let_def cast_inet_def
        split: option.splits rust.splits)+

lemma quiet_loads [store_quiet]:
  "keeps (\<lambda>w. published w = p) (po_load_rules db)"
  "keeps (\<lambda>w. published w = p) (po_load_rules_with_id db)"
  "keeps (\<lambda>w. published w = p) (po_find_rule_by_id db i)"
proof -
  show "keeps (\<lambda>w. published w = p) (po_load_rules db)"
    "keeps (\<lambda>w. published w = p) (po_load_rules_with_id db)"
    unfolding po_load_rules_def po_load_rules_with_id_def
    by (rule quiet.keeps_bind, rule quiet.keeps_read, simp, rule quiet.keeps_pure,
        simp add: rbind_Panic_iff collect_rules_not_Panic)+
  show "keeps (\<lambda>w. published w = p) (po_find_rule_by_id db i)"
    unfolding po_find_rule_by_id_def
    by (rule quiet.keeps_bind, rule quiet_ops, rule quiet.keeps_pure)
       (auto simp: rbind_Panic_iff to_policy_rule_def Let_def split: option.splits)
qed

lemma frame_ops [store_frame]:
  "keeps (\<lambda>w. endpoints w = es) (ep_list l o1)"
  "keeps (\<lambda>w. endpoints w = es) (ep_find_by_mac db m)"
  "keeps (\<lambda>w. endpoints w = es) (ep_find_by_agent_id a)"
  "keeps (\<lambda>w. endpoints w = es) (ep_find_by_id i)"
  "keeps (\<lambda>w. endpoints w = es) (se_create cs)"
  "keeps (\<lambda>w. endpoints w = es) (se_find_active_by_endpoint i)"
  "keeps (\<lambda>w. endpoints w = es) (se_find_by_id i)"
  "keeps (\<lambda>w. endpoints w = es) (se_transition i st u')"
  "keeps (\<lambda>w. endpoints w = es) (se_terminate i)"
  "keeps (\<lambda>w. endpoints w = es) (po_find_by_id i)"
  "keeps (\<lambda>w. endpoints w = es) (audit e eid a' d)"
  "keeps (\<lambda>w. endpoints w = es) (posture_save db i rep c)"
  "keeps (\<lambda>w. endpoints w = es) (nats_publish msg)"
  unfolding ep_list_def ep_find_by_mac_def ep_find_by_agent_id_def ep_find_by_id_def
    se_create_def se_find_active_by_endpoint_def se_find_by_id_def nats_publish_def
    se_transition_def se_terminate_def po_find_by_id_def audit_def posture_save_def
  by (rule frame.keeps_stmt; auto simp: page_def Let_def split: option.splits rust.splits)+

lemma frame_loads [store_frame]:
  "keeps (\<lambda>w. endpoints w = es) (po_load_rules db)"
  "keeps (\<lambda>w. endpoints w = es) (po_load_rules_with_id db)"
  "keeps (\<lambda>w. endpoints w = es) (po_find_rule_by_id db i)"
proof -
  show "keeps (\<lambda>w. endpoints w = es) (po_load_rules db)"
    "keeps (\<lambda>w. endpoints w = es) (po_load_rules_with_id db)"
    unfolding po_load_rules_def po_load_rules_with_id_def
    by (rule frame.keeps_bind, rule frame.keeps_read, simp, rule frame.keeps_pure,
        simp add: rbind_Panic_iff collect_rules_not_Panic)+
  show "keeps (\<lambda>w. endpoints w = es) (po_find_rule_by_id db i)"
    unfolding po_find_rule_by_id_def
    by (rule frame.keeps_bind, rule frame_ops, rule frame.keeps_pure)
       (auto simp: rbind_Panic_iff to_policy_rule_def Let_def split: option.splits)
qed

section \<open>The row of a device\<close>

definition row_at :: "uuid \<Rightarrow> string \<Rightarrow> string \<Rightarrow> endpoint_row list \<Rightarrow> bool" where
  "row_at i m s es \<longleftrightarrow> (\<exists>r \<in> set es. ep_id r = i \<and> ep_mac_address r = m \<and> ep_status r = s)"

text \<open>What is known of a device while a handler works on it.\<close>

definition device :: "nats_message list \<Rightarrow> uuid \<Rightarrow> string \<Rightarrow> string \<Rightarrow> world \<Rightarrow> bool" where
  "device p i m s w \<longleftrightarrow> published w = p \<and> row_at i m s (endpoints w)"

lemma device_keeps:
  assumes "\<And>p. keeps (\<lambda>w. published w = p) m" and "\<And>es. keeps (\<lambda>w. endpoints w = es) m"
  shows "keeps (device p i mc s) m"
proof -
  have "keeps (\<lambda>w. published w = p \<and> row_at i mc s (endpoints w)) m"
    by (rule keeps_conj [OF assms(1) frame_keeps [OF assms(2)]])
  then show ?thesis by (simp add: device_def [abs_def])
qed

lemma ep_upsert_device:
  "valid (\<lambda>w. published w = p) (ep_upsert db ep)
     (\<lambda>r. device p (ep_id r) (ep_mac_address r) (ep_status r)) (\<lambda>w. published w = p)"
  unfolding ep_upsert_def
proof (rule valid_stmt)
  show "valid (\<lambda>w. published w = p)
     (\<lambda>w. case mac_in db (up_mac_address ep) of
       None \<Rightarrow> (Err (InvalidCast (up_mac_address ep)), w)
     | Some mac \<Rightarrow>
         (case cast_inet db (up_ip_address ep) of
            Ok ip \<Rightarrow>
              (case find_row (\<lambda>r. ep_mac_address r = mac) (endpoints w) of
                 None \<Rightarrow>
                   if agent_taken (endpoints w) (up_agent_id ep) (fresh w)
                   then (Err (UniqueViolation ''agent_id''), w)
                   else
                     (let r = new_endpoint ep mac ip w in
                      (Ok r, w\<lparr>endpoints := endpoints w @ [r], fresh := fresh w + 1\<rparr>))
               | Some old \<Rightarrow>
                   (let r = merge_endpoint ep ip (clock w) old in
                    if agent_taken (endpoints w) (ep_agent_id r) (ep_id old)
                    then (Err (UniqueViolation ''agent_id''), w)
                    else
                      (Ok r, w\<lparr>endpoints :=
                         update_rows (\<lambda>x. ep_id x = ep_id old) (\<lambda>_. r) (endpoints w)\<rparr>)))
          | Err e \<Rightarrow> (Err e, w)
          | Panic \<Rightarrow> (Panic, w)))
     (\<lambda>r. device p (ep_id r) (ep_mac_address r) (ep_status r)) (\<lambda>w. published w = p)"
    by (rule validI)
       (auto simp: Let_def cast_inet_def device_def row_at_def set_update_rows
          split: option.splits rust.splits if_splits dest!: find_row_SomeD)
qed (auto simp: device_def)

lemma row_at_update:
  "row_at i m s es \<Longrightarrow> row_at i m s' (update_rows (\<lambda>r. ep_id r = i) (\<lambda>r. r\<lparr>ep_status := s'\<rparr>) es)"
proof -
  assume "row_at i m s es"
  then obtain r where r: "r \<in> set es" "ep_id r = i" "ep_mac_address r = m" by (auto simp: row_at_def)
  then have "r\<lparr>ep_status := s'\<rparr> \<in> set (update_rows (\<lambda>r. ep_id r = i) (\<lambda>r. r\<lparr>ep_status := s'\<rparr>) es)"
    unfolding set_update_rows by force
  with r show ?thesis unfolding row_at_def by (intro bexI) auto
qed

lemma ep_set_status_device:
  "valid (device p i m s) (ep_set_status i s')
     (\<lambda>_. device p i m s') (\<lambda>w. published w = p)"
  unfolding ep_set_status_def
proof (rule valid_stmt)
  show "valid (device p i m s)
     (\<lambda>w. if has_endpoint w i \<and> s' \<notin> set statuses then (Err (CheckViolation ''status''), w)
          else (Ok (), update_endpoint i (\<lambda>r. r\<lparr>ep_status := s'\<rparr>) w))
     (\<lambda>_. device p i m s') (\<lambda>w. published w = p)"
    by (rule validI)
       (auto simp: device_def update_endpoint_def row_at_update split: if_splits)
qed (auto simp: device_def)

end
