(* ===== verification/PmConsumer.thy ===== *)
theory PmConsumer
  imports StoreLogic
begin

text \<open>
  The policy manager's handlers of endpoint and authentication events:
  \<^verbatim>\<open>services/policy-manager/src/consumer.rs\<close> and \<^verbatim>\<open>session_handler.rs\<close>. An event
  upserts the endpoint, evaluates the policies and, when the access status changes, stores the new
  status and publishes an enforcement command. The lemmas show, for every schedule of faults, that the
  handlers keep the invariant of the database, that a handler that fails has published nothing, and
  that a published command names the address and the action of the status that is stored.
\<close>

section \<open>JSON helpers\<close>

definition jopt :: "string option \<Rightarrow> json" where
  "jopt s = (case s of None \<Rightarrow> JNull | Some t \<Rightarrow> JStr t)"

definition strip_cidr :: "string \<Rightarrow> string" where
  "strip_cidr ip = before_char CHR ''/'' ip"

definition flatten :: "'a option option \<Rightarrow> 'a option" where
  "flatten x = (case x of None \<Rightarrow> None | Some y \<Rightarrow> y)"

definition decision_vlan :: "policy_decision \<Rightarrow> u16 option" where
  "decision_vlan d = (case d of Quarantine v r \<Rightarrow> Some v | AllowVlan v \<Rightarrow> Some v | _ \<Rightarrow> None)"

section \<open>Endpoint events\<close>

record endpoint_detected =
  de_mac_address :: string
  de_ip_address :: string
  de_interface :: string
  de_source :: string
  de_timestamp :: int
  de_hostname :: "string option"
  de_os_family :: "string option"
  de_os_version :: "string option"
  de_device_type :: "string option"
  de_vendor :: "string option"

definition status_action :: "string \<Rightarrow> string option" where
  "status_action status =
     (if status = ''quarantined'' then Some ''quarantine''
      else if status = ''denied'' then Some ''block''
      else if status = ''allowed'' then Some ''allow''
      else None)"

definition publish_enforcement_command ::
  "string \<Rightarrow> string option \<Rightarrow> string \<Rightarrow> policy_decision \<Rightarrow> unit io" where
  "publish_enforcement_command mac ip status decision =
     (case status_action status of
        None \<Rightarrow> io_return ()
      | Some action \<Rightarrow>
          (let ip_str = (case ip of None \<Rightarrow> [] | Some s \<Rightarrow> before_char CHR ''/'' s);
               cmd = \<lparr>cmd_mac_address = mac, cmd_ip_address = ip_str, cmd_action = action,
                 cmd_gateway_ip = [], cmd_gateway_mac = None, cmd_vlan_id = decision_vlan decision\<rparr>
           in io_seq (io_ok (nats_publish (Enforcement cmd))) (io_return ())))"

definition endpoint_context ::
  "endpoint_row \<Rightarrow> string option \<Rightarrow> string option \<Rightarrow> string list \<Rightarrow> bool option \<Rightarrow> policy_context" where
  "endpoint_context r os user gs compliant =
     \<lparr>px_mac_address = ep_mac_address r, px_ip_address = ep_ip_address r,
      px_hostname = ep_hostname r, px_os_family = os, px_device_type = ep_device_type r,
      px_username = user, px_groups = gs, px_is_compliant = compliant,
      px_switch_port = ep_switch_port r\<rparr>"

text \<open>
  An engine error ends the handler with \<^verbatim>\<open>?\<close>.
\<close>

definition io_evaluate :: "policy_rule list \<Rightarrow> policy_context \<Rightarrow> policy_decision io" where
  "io_evaluate rules ctx w =
     (case fst (evaluate rules ctx) of Ok d \<Rightarrow> (Ok d, w) | Err e \<Rightarrow> (Err JsonError, w) | Panic \<Rightarrow> (Panic, w))"

text \<open>The changes that follow a new status: store it, log it, open a session, publish.\<close>

definition change_status ::
  "pg \<Rightarrow> endpoint_row \<Rightarrow> string option \<Rightarrow> policy_decision \<Rightarrow> unit io" where
  "change_status db row new_ip decision =
     (let new_status = decision_to_status decision in
      io_seq (ep_set_status (ep_id row) new_status)
     (io_seq (audit ''policy_decision'' (Some (ep_id row)) ''policy-manager''
        (JObj [(''mac'', JStr (ep_mac_address row)), (''old_status'', JStr (ep_status row)),
               (''new_status'', JStr new_status), (''decision'', JStr (debug_decision db decision))]))
     (io_seq (if new_status = ''quarantined'' then
                io_seq (io_ok (se_create \<lparr>cs_endpoint_id = ep_id row, cs_auth_method = ''captive_portal'',
                   cs_vlan_id = (case decision of Quarantine v r \<Rightarrow> Some v | _ \<Rightarrow> None)\<rparr>))
                  (io_return ())
              else io_return ())
     (publish_enforcement_command (ep_mac_address row) new_ip new_status decision))))"

definition process_event :: "pg \<Rightarrow> endpoint_detected \<Rightarrow> unit io" where
  "process_event db event =
     io_bind (io_ok (ep_find_by_mac db (de_mac_address event))) (\<lambda>found.
     let old_ip = map_option strip_cidr
           (case flatten found of None \<Rightarrow> None | Some e \<Rightarrow> ep_ip_address e);
         ip = (if de_ip_address event = [] then None else Some (de_ip_address event));
         ep = \<lparr>up_mac_address = de_mac_address event, up_ip_address = ip,
               up_hostname = de_hostname event, up_os_family = de_os_family event,
               up_os_version = de_os_version event, up_device_type = de_device_type event,
               up_vendor = de_vendor event,
               up_interface = (if de_interface event = [] then None else Some (de_interface event)),
               up_agent_id = None\<rparr> in
     io_bind (ep_upsert db ep) (\<lambda>row.
     let new_ip = map_option strip_cidr (ep_ip_address row);
         ip_changed = (new_ip \<noteq> None \<and> old_ip \<noteq> new_ip) in
     io_seq (audit ''endpoint_detected'' (Some (ep_id row)) (''sensor/'' @ de_source event)
       (JObj [(''mac'', JStr (ep_mac_address row)), (''ip'', jopt new_ip),
              (''source'', JStr (de_source event)), (''os_family'', jopt (ep_os_family row)),
              (''device_type'', jopt (ep_device_type row))]))
     (io_seq (io_when ip_changed
        (audit ''endpoint_ip_changed'' (Some (ep_id row)) ''sensor''
          (JObj [(''mac'', JStr (ep_mac_address row)), (''old_ip'', jopt old_ip),
                 (''new_ip'', jopt new_ip)])))
     (io_bind (po_load_rules db) (\<lambda>rules.
      if rules = [] then io_return ()
      else
        io_bind (io_evaluate rules (endpoint_context row (ep_os_family row) (ep_username row) [] None))
          (\<lambda>decision.
        let new_status = decision_to_status decision in
        io_bind
          (if ep_status row = ''allowed'' \<and> ep_username row \<noteq> None then
             io_bind (io_ok (se_find_active_by_endpoint (ep_id row))) (\<lambda>s.
               io_return (case flatten s of None \<Rightarrow> False | Some x \<Rightarrow> se_state x = ''active''))
           else io_return False)
          (\<lambda>already_authenticated.
        let status_changed = (\<not> already_authenticated \<and> ep_status row \<noteq> new_status);
            needs_update = (ip_changed \<and> ep_status row \<in> {''denied'', ''quarantined''}) in
        if status_changed then change_status db row new_ip decision
        else if needs_update then
          publish_enforcement_command (ep_mac_address row) new_ip (ep_status row) decision
        else io_return ())))))))"

section \<open>Authentication events\<close>

definition auth_action :: "string \<Rightarrow> string" where
  "auth_action status =
     (if status = ''quarantined'' then ''quarantine''
      else if status = ''denied'' then ''block''
      else if status = ''allowed'' then ''allow''
      else ''allow'')"

definition publish_auth_command ::
  "string \<Rightarrow> string option \<Rightarrow> string \<Rightarrow> policy_decision \<Rightarrow> unit io" where
  "publish_auth_command mac ip status decision =
     (let cmd = \<lparr>cmd_mac_address = mac, cmd_ip_address = runwrap_or [] ip,
            cmd_action = auth_action status, cmd_gateway_ip = [], cmd_gateway_mac = None,
            cmd_vlan_id = decision_vlan decision\<rparr>
      in io_seq (io_ok (nats_publish (Enforcement cmd))) (io_return ()))"

text \<open>
  \<^verbatim>\<open>SELECT ... WHERE host(ip_address) = $1 LIMIT 1\<close>.
\<close>

definition ep_find_by_host :: "pg \<Rightarrow> string \<Rightarrow> endpoint_row option io" where
  "ep_find_by_host db ip = stmt (\<lambda>w.
     (Ok (find_row (\<lambda>r. map_option (inet_host db) (ep_ip_address r) = Some ip) (endpoints w)), w))"

text \<open>
  The endpoint the event is about: \<open>None\<close> when the handler returns early. An event without
  identifier, address and IP is skipped; an unknown endpoint is registered when its address is known.
\<close>

definition resolve_endpoint :: "pg \<Rightarrow> auth_response \<Rightarrow> endpoint_row option io" where
  "resolve_endpoint db resp =
     io_bind
       (case ar_endpoint_id resp of
          Some eid \<Rightarrow> io_bind (ep_find_by_id eid) (\<lambda>e. io_return (Some e))
        | None \<Rightarrow>
            if ar_mac_address resp \<noteq> [] then
              io_bind (ep_find_by_mac db (ar_mac_address resp)) (\<lambda>e. io_return (Some e))
            else if ar_ip_address resp \<noteq> [] then
              io_bind (ep_find_by_host db (ar_ip_address resp)) (\<lambda>e. io_return (Some e))
            else io_return None)
       (\<lambda>looked.
     case looked of
       None \<Rightarrow> io_return None
     | Some (Some e) \<Rightarrow> io_return (Some e)
     | Some None \<Rightarrow>
         if ar_mac_address resp = [] then io_return None
         else
           io_bind (ep_upsert db
              \<lparr>up_mac_address = ar_mac_address resp,
               up_ip_address = (if ar_ip_address resp = [] then None else Some (ar_ip_address resp)),
               up_hostname = None, up_os_family = None, up_os_version = None,
               up_device_type = None, up_vendor = None, up_interface = None, up_agent_id = None\<rparr>)
             (\<lambda>e. io_return (Some e)))"

definition auth_success :: "pg \<Rightarrow> auth_response \<Rightarrow> endpoint_row \<Rightarrow> session_row option \<Rightarrow> unit io" where
  "auth_success db resp endpoint sess =
     (let username = runwrap_or [] (ar_username resp) in
      io_seq (io_when (username \<noteq> []) (ep_set_username (ep_id endpoint) username))
     (io_seq (case sess of
                Some s \<Rightarrow> se_transition (se_id s) ''active'' (Some username)
              | None \<Rightarrow> io_return ())
     (io_bind (po_load_rules db) (\<lambda>rules.
      if rules = [] then io_return ()
      else
        io_bind (io_evaluate rules
            (endpoint_context endpoint (ep_os_family endpoint) (Some username) (ar_groups resp) None))
          (\<lambda>decision.
        let new_status = decision_to_status decision in
        io_seq (io_when (ep_status endpoint \<noteq> new_status) (ep_set_status (ep_id endpoint) new_status))
       (io_seq (publish_auth_command (ep_mac_address endpoint) (ep_ip_address endpoint) new_status decision)
        (audit ''auth_success'' (Some (ep_id endpoint)) ''aaa/captive_portal''
          (JObj [(''mac'', JStr (ep_mac_address endpoint)), (''username'', JStr username),
                 (''groups'', JArr (map JStr (ar_groups resp))),
                 (''decision'', JStr (debug_decision db decision)),
                 (''status'', JStr new_status)])))))))) "

definition auth_failure :: "auth_response \<Rightarrow> endpoint_row \<Rightarrow> session_row option \<Rightarrow> unit io" where
  "auth_failure resp endpoint sess =
     io_seq (case sess of Some s \<Rightarrow> se_terminate (se_id s) | None \<Rightarrow> io_return ())
       (audit ''auth_failed'' (Some (ep_id endpoint)) ''aaa/captive_portal''
         (JObj [(''mac'', JStr (ar_mac_address resp)), (''reason'', jopt (ar_reason resp))]))"

definition process_auth_response :: "pg \<Rightarrow> auth_response \<Rightarrow> unit io" where
  "process_auth_response db resp =
     io_bind (resolve_endpoint db resp) (\<lambda>resolved.
     case resolved of
       None \<Rightarrow> io_return ()
     | Some endpoint \<Rightarrow>
         io_bind (case ar_session_id resp of
                    Some sid \<Rightarrow> se_find_by_id sid
                  | None \<Rightarrow> se_find_active_by_endpoint (ep_id endpoint)) (\<lambda>sess.
         if \<not> ar_success resp then auth_failure resp endpoint sess
         else auth_success db resp endpoint sess))"

section \<open>The handlers keep the invariant\<close>

lemma io_evaluate_keeps [store_keeps]: "keeps store_inv (io_evaluate rules ctx)"
  unfolding io_evaluate_def
  by (rule inv.keeps_pure) (auto simp: evaluate_not_panic split: rust.splits)

lemma publish_keeps [store_keeps]:
  "keeps store_inv (publish_enforcement_command m ip s d)"
  "keeps store_inv (publish_auth_command m ip s d)"
  unfolding publish_enforcement_command_def publish_auth_command_def
  by (auto intro!: inv_rules split: option.split)

lemma change_status_keeps [store_keeps]: "keeps store_inv (change_status db row ip d)"
  unfolding change_status_def Let_def
  by (auto intro!: inv_rules store_keeps)

lemma process_event_keeps: "keeps store_inv (process_event db event)"
  unfolding process_event_def Let_def
  by (auto intro!: inv_rules store_keeps split: if_split)

lemma ep_find_by_host_keeps [store_keeps]: "keeps store_inv (ep_find_by_host db ip)"
  unfolding ep_find_by_host_def by (rule inv.keeps_read) simp

lemma resolve_endpoint_keeps [store_keeps]: "keeps store_inv (resolve_endpoint db resp)"
  unfolding resolve_endpoint_def
  by (auto intro!: inv_rules store_keeps split: option.split)

lemma process_auth_response_keeps: "keeps store_inv (process_auth_response db resp)"
  unfolding process_auth_response_def auth_success_def auth_failure_def Let_def
  by (auto intro!: inv_rules store_keeps split: option.split)

section \<open>What is commanded is what is stored\<close>

text \<open>
  After a handler: either nothing was published, or one command, for the address of a stored row and
  with the action of its stored status.
\<close>

definition told :: "nats_message list \<Rightarrow> world \<Rightarrow> bool" where
  "told p w \<longleftrightarrow> published w = p \<or>
     (\<exists>c i s. published w = p @ [Enforcement c] \<and> row_at i (cmd_mac_address c) s (endpoints w)
        \<and> status_action s = Some (cmd_action c))"

lemma device_step:
  assumes "\<And>p. keeps (\<lambda>w. published w = p) m" and "\<And>es. keeps (\<lambda>w. endpoints w = es) m"
  shows "valid (device p i mc s) m (\<lambda>_. device p i mc s) (\<lambda>w. published w = p)"
proof (rule valid_weaken)
  show "valid (device p i mc s) m (\<lambda>_. device p i mc s) (device p i mc s)"
    by (rule keepsD [OF device_keeps [OF assms]])
qed (auto simp: device_def)

lemma device_evaluate:
  "valid (device p i m s) (io_evaluate rules ctx) (\<lambda>_. device p i m s) (\<lambda>w. published w = p)"
  using evaluate_total [of rules ctx] by (auto simp: valid_def io_evaluate_def)

lemma nats_publish_told:
  assumes "status_action s = Some (cmd_action c)" and "cmd_mac_address c = m"
  shows "valid (device p i m s) (io_ok (nats_publish (Enforcement c))) (\<lambda>_. told p) E"
proof (rule valid_ok)
  show "valid (device p i m s) (nats_publish (Enforcement c)) (\<lambda>_. told p) (told p)"
    unfolding nats_publish_def
  proof (rule valid_stmt)
    show "valid (device p i m s) (\<lambda>w. (Ok (), w\<lparr>published := published w @ [Enforcement c]\<rparr>))
       (\<lambda>_. told p) (told p)"
      using assms by (auto simp: valid_def device_def told_def)
  qed (auto simp: device_def told_def)
qed

lemma publish_command_told:
  "valid (device p i m s) (publish_enforcement_command m ip s d) (\<lambda>_. told p) E"
proof (cases "status_action s")
  case None
  then show ?thesis
    by (auto simp: publish_enforcement_command_def device_def told_def intro!: valid_return)
next
  case (Some a)
  then show ?thesis
    unfolding publish_enforcement_command_def Some option.case Let_def
    by (intro valid_seq [where R = "told p"] nats_publish_told valid_return) (auto simp: Some)
qed

lemma change_status_told:
  "valid (device p (ep_id row) (ep_mac_address row) s) (change_status db row ip d)
     (\<lambda>_. told p) (\<lambda>w. published w = p)"
proof -
  let ?dev = "device p (ep_id row) (ep_mac_address row) (decision_to_status d)"
  have session: "valid ?dev (if decision_to_status d = ''quarantined'' then
        io_seq (io_ok (se_create cs)) (io_return ()) else io_return ()) (\<lambda>_. ?dev) (\<lambda>w. published w = p)" for cs
    by (rule device_step) (auto intro!: quiet_rules frame_rules store_quiet store_frame)
  show ?thesis
    unfolding change_status_def Let_def
    by (intro valid_seq [OF ep_set_status_device] valid_seq [OF device_step [OF quiet_ops(18) frame_ops(11)]]
        valid_seq [OF session] publish_command_told)
qed

theorem process_event_told:
  "valid (\<lambda>w. published w = p) (process_event db event) (\<lambda>_. told p) (\<lambda>w. published w = p)"
proof -
  have find: "valid (\<lambda>w. published w = p) (io_ok (ep_find_by_mac db m)) (\<lambda>_ w. published w = p)
      (\<lambda>w. published w = p)" for m
    by (intro keepsD quiet_rules store_quiet)
  have ret: "valid (device p i m s) (io_return ()) (\<lambda>_. told p) (\<lambda>w. published w = p)" for i m s
    by (rule valid_return) (simp add: device_def told_def)
  have whn: "valid (device p i m s) (io_when b (audit e eid a j)) (\<lambda>_. device p i m s)
      (\<lambda>w. published w = p)" for i m s b e eid a j
    by (rule device_step) (auto intro!: quiet_rules frame_rules store_quiet store_frame)
  have auth: "valid (device p i m s)
      (if b then io_bind (io_ok (se_find_active_by_endpoint j)) (\<lambda>x. io_return (f x)) else io_return False)
      (\<lambda>_. device p i m s) (\<lambda>w. published w = p)" for i m s b j f
    by (rule device_step) (auto intro!: quiet_rules frame_rules store_quiet store_frame)
  show ?thesis
    unfolding process_event_def Let_def
    by (intro valid_bind [OF find] valid_bind [OF ep_upsert_device]
        valid_seq [OF device_step [OF quiet_ops(18) frame_ops(11)]] valid_seq [OF whn]
        valid_bind [OF device_step [OF quiet_loads(1) frame_loads(1)]] valid_bind [OF device_evaluate]
        valid_bind [OF auth] valid_if ret change_status_told publish_command_told)
qed

section \<open>Authentication\<close>

lemma quiet_frame_keeps:
  assumes "\<And>p. keeps (\<lambda>w. published w = p) m" and "\<And>es. keeps (\<lambda>w. endpoints w = es) m"
  shows "keeps (\<lambda>w. P (published w) (endpoints w)) m"
  unfolding keeps_def valid_def
proof (intro allI impI)
  fix w :: world
  assume "P (published w) (endpoints w)"
  then show "case m w of (Ok x, w') \<Rightarrow> P (published w') (endpoints w')
      | (Err e, w') \<Rightarrow> P (published w') (endpoints w') | (Panic, w') \<Rightarrow> False"
    using assms(1) [of "published w"] assms(2) [of "endpoints w"]
    by (fastforce simp: keeps_def valid_def split: prod.splits rust.splits)
qed

lemma told_keeps:
  assumes "\<And>p. keeps (\<lambda>w. published w = p) m" and "\<And>es. keeps (\<lambda>w. endpoints w = es) m"
  shows "valid (told p) m (\<lambda>_. told p) (told p)"
proof -
  have "keeps (told p) m"
    unfolding told_def [abs_def] by (rule quiet_frame_keeps [OF assms])
  then show ?thesis by (rule keepsD)
qed

lemma device_told: "device p i m s w \<Longrightarrow> told p w"
  by (simp add: device_def told_def)

lemma publish_auth_told:
  "valid (device p i m (decision_to_status d)) (publish_auth_command m ip (decision_to_status d) d)
     (\<lambda>_. told p) E"
proof -
  have "status_action (decision_to_status d) = Some (auth_action (decision_to_status d))"
    by (cases d) (simp_all add: decision_to_status_def status_action_def auth_action_def)
  then show ?thesis
    unfolding publish_auth_command_def Let_def
    by (intro valid_seq [where R = "told p"] nats_publish_told valid_return) auto
qed

lemma valid_find:
  assumes "\<And>w. published (snd (f w)) = published w \<and> endpoints (snd (f w)) = endpoints w"
    and "\<And>w. fst (f w) \<noteq> Panic"
    and "\<And>w e. fst (f w) = Ok (Some e) \<Longrightarrow> e \<in> set (endpoints w)"
  shows "valid (\<lambda>w. published w = p) (stmt f)
    (\<lambda>x w. published w = p \<and> (\<forall>e. x = Some e \<longrightarrow> row_at (ep_id e) (ep_mac_address e) (ep_status e) (endpoints w)))
    (\<lambda>w. published w = p)"
proof (rule valid_stmt)
  show "valid (\<lambda>w. published w = p) f
    (\<lambda>x w. published w = p \<and> (\<forall>e. x = Some e \<longrightarrow> row_at (ep_id e) (ep_mac_address e) (ep_status e) (endpoints w)))
    (\<lambda>w. published w = p)"
  proof (rule validI)
    fix w x w'
    assume w: "published w = p" "f w = (Ok x, w')"
    then have "published w' = p" "endpoints w' = endpoints w"
      using assms(1) [of w] by simp_all
    moreover have "x = Some e \<Longrightarrow> e \<in> set (endpoints w)" for e
      using assms(3) [of w e] w by simp
    ultimately show "published w' = p \<and>
        (\<forall>e. x = Some e \<longrightarrow> row_at (ep_id e) (ep_mac_address e) (ep_status e) (endpoints w'))"
      by (auto simp: row_at_def)
  next
    fix w e w'
    assume "published w = p" "f w = (Err e, w')"
    then show "published w' = p" using assms(1) [of w] by simp
  next
    fix w w'
    show "f w \<noteq> (Panic, w')" using assms(2) [of w] by auto
  qed
qed simp_all

definition resolved :: "nats_message list \<Rightarrow> endpoint_row option \<Rightarrow> world \<Rightarrow> bool" where
  "resolved p x w \<longleftrightarrow> published w = p \<and>
     (\<forall>e. x = Some e \<longrightarrow> row_at (ep_id e) (ep_mac_address e) (ep_status e) (endpoints w))"

lemma finds_resolved:
  "valid (\<lambda>w. published w = p) (ep_find_by_id i) (resolved p) (\<lambda>w. published w = p)"
  "valid (\<lambda>w. published w = p) (ep_find_by_mac db m) (resolved p) (\<lambda>w. published w = p)"
  "valid (\<lambda>w. published w = p) (ep_find_by_host db h) (resolved p) (\<lambda>w. published w = p)"
  unfolding ep_find_by_id_def ep_find_by_mac_def ep_find_by_host_def resolved_def [abs_def]
  by (rule valid_find; auto split: option.splits dest: find_row_SomeD)+

lemma resolve_endpoint_resolved:
  "valid (\<lambda>w. published w = p) (resolve_endpoint db resp) (resolved p) (\<lambda>w. published w = p)"
proof -
  have none: "valid (\<lambda>w. published w = p) (io_return None) (resolved p) (\<lambda>w. published w = p)"
    by (rule valid_return) (simp add: resolved_def)
  have up: "valid (\<lambda>w. published w = p) (io_bind (ep_upsert db ep) (\<lambda>e. io_return (Some e))) (resolved p)
      (\<lambda>w. published w = p)" for ep
    by (rule valid_bind [OF ep_upsert_device], rule valid_return) (auto simp: device_def resolved_def)
  have look: "valid (\<lambda>w. published w = p) (io_bind f (\<lambda>e. io_return (Some e)))
      (\<lambda>y w. published w = p \<and> (\<forall>x. y = Some x \<longrightarrow> resolved p x w)) (\<lambda>w. published w = p)"
    if "valid (\<lambda>w. published w = p) f (resolved p) (\<lambda>w. published w = p)" for f
    by (rule valid_bind [OF that], rule valid_return) (auto simp: resolved_def)
  have look_none: "valid (\<lambda>w. published w = p) (io_return None)
      (\<lambda>y w. published w = p \<and> (\<forall>x. y = Some x \<longrightarrow> resolved p x w)) (\<lambda>w. published w = p)"
    by (rule valid_return) simp
  show ?thesis
    unfolding resolve_endpoint_def
  proof (rule valid_bind [where R = "\<lambda>y w. published w = p \<and> (\<forall>x. y = Some x \<longrightarrow> resolved p x w)"], goal_cases)
    case 1
    show ?case
      by (cases "ar_endpoint_id resp")
         (auto intro: look look_none finds_resolved)
  next
    case (2 y)
    show ?case
    proof (cases y)
      case (Some x)
      show ?thesis
      proof (cases x)
        case None
        show ?thesis
          unfolding Some None option.case
          by (rule valid_if; rule valid_weaken [OF none] valid_weaken [OF up]; simp)
      qed (use Some in \<open>auto intro!: valid_return simp: resolved_def\<close>)
    qed (auto intro: valid_weaken [OF none])
  qed
qed

lemma set_username_device:
  "valid (device p i m s) (ep_set_username j u) (\<lambda>_. device p i m s) (\<lambda>w. published w = p)"
  unfolding ep_set_username_def
proof (rule valid_stmt)
  show "valid (device p i m s) (\<lambda>w. (Ok (), update_endpoint j (\<lambda>r. r\<lparr>ep_username := Some u\<rparr>) w))
    (\<lambda>_. device p i m s) (\<lambda>w. published w = p)"
  proof (rule validI)
    fix w x w'
    assume "device p i m s w" "(Ok (), update_endpoint j (\<lambda>r. r\<lparr>ep_username := Some u\<rparr>) w) = (Ok x, w')"
    then obtain r where r: "published w = p" "r \<in> set (endpoints w)" "ep_id r = i" "ep_mac_address r = m"
        "ep_status r = s" "w' = update_endpoint j (\<lambda>r. r\<lparr>ep_username := Some u\<rparr>) w"
      by (auto simp: device_def row_at_def)
    then have "(if ep_id r = j then r\<lparr>ep_username := Some u\<rparr> else r) \<in> set (endpoints w')"
      by (force simp: update_endpoint_def set_update_rows)
    moreover have "published w' = p" using r by (simp add: update_endpoint_def)
    ultimately show "device p i m s w'"
      using r unfolding device_def row_at_def by (intro conjI bexI) auto
  qed simp_all
qed (auto simp: device_def)

lemma auth_success_told:
  "valid (device p (ep_id e) (ep_mac_address e) (ep_status e)) (auth_success db resp e sess)
     (\<lambda>_. told p) (told p)"
proof -
  let ?dev = "\<lambda>s. device p (ep_id e) (ep_mac_address e) s"
  have weak: "valid P m Q (\<lambda>w. published w = p) \<Longrightarrow> valid P m Q (told p)" for P and m :: "'a io" and Q
    by (erule valid_weaken) (auto simp: told_def)
  have user: "valid (?dev (ep_status e)) (io_when b (ep_set_username j u)) (\<lambda>_. ?dev (ep_status e)) (told p)"
    for b j u
    by (rule valid_when) (auto intro: valid_weaken [OF set_username_device] simp: told_def)
  have trans: "valid (?dev s) (case x of None \<Rightarrow> io_return () | Some y \<Rightarrow> se_transition (f y) g h)
      (\<lambda>_. ?dev s) (\<lambda>w. published w = p)" for s and x :: "session_row option" and f g h
    by (rule device_step) (auto intro!: quiet_rules frame_rules store_quiet store_frame split: option.split)
  have status: "valid (?dev (ep_status e)) (io_when (ep_status e \<noteq> s) (ep_set_status (ep_id e) s))
      (\<lambda>_. ?dev s) (told p)" for s
    by (rule valid_when) (auto intro: valid_weaken [OF ep_set_status_device] simp: told_def)
  have load: "valid (?dev s) (po_load_rules db) (\<lambda>_. ?dev s) (told p)" for s
    by (rule valid_weaken [OF device_step [OF quiet_loads(1) frame_loads(1)]]) (auto simp: told_def)
  have eval: "valid (?dev s) (io_evaluate rules ctx) (\<lambda>_. ?dev s) (told p)" for s rules ctx
    by (rule valid_weaken [OF device_evaluate]) (auto simp: told_def)
  have trans': "valid (?dev s) (case x of None \<Rightarrow> io_return () | Some y \<Rightarrow> se_transition (f y) g h)
      (\<lambda>_. ?dev s) (told p)" for s and x :: "session_row option" and f g h
    by (rule valid_weaken [OF trans]) (auto simp: told_def)
  have ret: "valid (?dev s) (io_return ()) (\<lambda>_. told p) (told p)" for s
    by (rule valid_return) (rule device_told)
  show ?thesis
    unfolding auth_success_def Let_def
    by (intro valid_seq [OF user] valid_seq [OF trans'] valid_bind [OF load] valid_bind [OF eval]
        valid_seq [OF status] valid_seq [OF publish_auth_told] valid_if ret
        told_keeps [OF quiet_ops(18) frame_ops(11)])
qed

theorem process_auth_response_told:
  "valid (\<lambda>w. published w = p) (process_auth_response db resp) (\<lambda>_. told p) (told p)"
proof -
  have res: "valid (\<lambda>w. published w = p) (resolve_endpoint db resp) (resolved p) (told p)"
    by (rule valid_weaken [OF resolve_endpoint_resolved]) (auto simp: told_def)
  have sess: "valid (device p i m s) (case x of None \<Rightarrow> se_find_active_by_endpoint j | Some y \<Rightarrow> se_find_by_id y)
      (\<lambda>_. device p i m s) (told p)" for i m s j and x :: "uuid option"
    by (rule valid_weaken [OF device_step])
       (auto intro!: store_quiet store_frame simp: told_def split: option.split)
  have fail: "valid (device p i m s) (auth_failure resp e x) (\<lambda>_. told p) (told p)" for i m s e x
  proof (rule valid_weaken [OF device_step])
    show "keeps (\<lambda>w. published w = p) (auth_failure resp e x)" for p
      unfolding auth_failure_def by (auto intro!: quiet_rules store_quiet split: option.split)
    show "keeps (\<lambda>w. endpoints w = es) (auth_failure resp e x)" for es
      unfolding auth_failure_def by (auto intro!: frame_rules store_frame split: option.split)
  qed (assumption, erule device_told, simp add: told_def)
  show ?thesis
    unfolding process_auth_response_def
  proof (rule valid_bind [OF res], goal_cases)
    case (1 x)
    show ?case
    proof (cases x)
      case None
      then show ?thesis by (auto intro!: valid_return simp: resolved_def told_def)
    next
      case (Some e)
      have dev: "resolved p x w \<Longrightarrow> device p (ep_id e) (ep_mac_address e) (ep_status e) w" for w
        by (simp add: resolved_def device_def Some)
      show ?thesis
        unfolding Some option.case
        by (rule valid_weaken [of "device p (ep_id e) (ep_mac_address e) (ep_status e)"])
           (use dev Some in \<open>auto intro!: valid_bind [OF sess] valid_if auth_success_told fail\<close>)
    qed
  qed
qed

text \<open>A failed authentication publishes nothing.\<close>

lemma auth_failure_quiet:
  "\<not> ar_success resp \<Longrightarrow> keeps (\<lambda>w. published w = p) (process_auth_response db resp)"
  unfolding process_auth_response_def resolve_endpoint_def auth_failure_def
  by (auto intro!: quiet_rules store_quiet quiet.keeps_read simp: ep_find_by_host_def split: option.split)

section \<open>Commands that are not sent\<close>

text \<open>
  When the audit entry cannot be written, the new status stays stored and no command is published; the
  next sighting finds nothing to change.
\<close>

lemma lost_audit_silences:
  assumes "schedule w = [Delivered, Refused]"
  shows "\<exists>w'. change_status db row ip d w = (Err Connection, w') \<and> published w' = published w
    \<and> endpoints w' = update_rows (\<lambda>r. ep_id r = ep_id row) (\<lambda>r. r\<lparr>ep_status := decision_to_status d\<rparr>) (endpoints w)"
  using assms
  by (simp add: change_status_def Let_def io_seq_def io_bind_def ep_set_status_def audit_def stmt_def
      update_endpoint_def)

text \<open>Without an enabled policy a successful login publishes no command.\<close>

lemma login_without_policies_silent:
  assumes "schedule w = []" and "enabled_policies w = []" and "ar_username resp = None"
  shows "published (snd (auth_success db resp endpoint None w)) = published w"
  using assms
  by (simp add: auth_success_def Let_def io_seq_def io_bind_def io_when_def po_load_rules_def stmt_delivered
      enabled_policies_def)

end
