(* ===== verification/PmPosture.thy ===== *)
theory PmPosture
  imports PmConsumer
begin

text \<open>
  Posture reports: \<^verbatim>\<open>services/policy-manager/src/posture_handler.rs\<close>. A report is judged
  against the compliance policy, stored, and the policies are evaluated again with the verdict.
  The lemmas mirror those of the other two handlers.
\<close>

section \<open>The handler\<close>

text \<open>\<^verbatim>\<open>n as i32\<close>.\<close>

definition as_i32 :: "nat \<Rightarrow> int" where
  "as_i32 n = sint (of_nat n :: 32 word)"

definition posture_fields_of :: "pg \<Rightarrow> posture_report \<Rightarrow> posture_fields" where
  "posture_fields_of db rep =
     \<lparr>pf_sw = software_to_json db (installed_software rep),
      pf_missing_patches = as_i32 (length (missing_patches rep)),
      pf_usb_enabled = usb_enabled rep, pf_bluetooth = bluetooth_enabled rep,
      pf_folder_sharing = folder_sharing_enabled rep, pf_os_version = pr_os_version rep\<rparr>"

definition status_command :: "endpoint_row \<Rightarrow> string \<Rightarrow> enforcement_command" where
  "status_command e status =
     \<lparr>cmd_mac_address = ep_mac_address e, cmd_ip_address = runwrap_or [] (ep_ip_address e),
      cmd_action = status, cmd_gateway_ip = [], cmd_gateway_mac = None, cmd_vlan_id = None\<rparr>"

definition posture_known :: "pg \<Rightarrow> posture_report \<Rightarrow> endpoint_row \<Rightarrow> unit io" where
  "posture_known db rep e =
     (let is_compliant = compliance_evaluate default_policy rep in
      io_seq (posture_save db (ep_id e) rep is_compliant)
     (io_seq (ep_set_compliance (ep_id e) is_compliant)
     (io_seq (ep_update_posture_fields (ep_id e) (posture_fields_of db rep))
     (io_seq (audit ''posture_report'' (Some (ep_id e)) ''agent-gateway''
        (JObj [(''mac'', JStr (device_id rep)), (''is_compliant'', JBool is_compliant),
               (''missing_patches'', JNum (int (length (missing_patches rep)))),
               (''usb_enabled'', JBool (usb_enabled rep))]))
     (io_bind (po_load_rules db) (\<lambda>rules.
      if rules = [] then io_return ()
      else
        io_bind (io_evaluate rules
            (endpoint_context e (opt_or (ep_os_family e) (Some (pr_os rep))) (ep_username e) []
               (Some is_compliant))) (\<lambda>decision.
        let new_status = decision_to_status decision in
        if ep_status e \<noteq> new_status then
          io_seq (ep_set_status (ep_id e) new_status)
         (io_seq (audit ''posture_status_change'' (Some (ep_id e)) ''policy-manager''
            (JObj [(''mac'', JStr (device_id rep)), (''old_status'', JStr (ep_status e)),
                   (''new_status'', JStr new_status), (''is_compliant'', JBool is_compliant)]))
         (io_seq (io_ok (nats_publish (Enforcement (status_command e new_status))))
            (io_return ())))
        else io_return ())))))))"

definition process_posture :: "pg \<Rightarrow> posture_report \<Rightarrow> unit io" where
  "process_posture db rep =
     io_bind (ep_find_by_mac db (device_id rep)) (\<lambda>found.
     case found of
       None \<Rightarrow> io_return ()
     | Some e \<Rightarrow>
         posture_known db rep e)"

section \<open>Invariant\<close>

lemma process_posture_keeps: "keeps store_inv (process_posture db rep)"
  unfolding process_posture_def posture_known_def Let_def
  by (auto intro!: inv_rules store_keeps split: option.split)

section \<open>What is commanded is what is stored\<close>

text \<open>Here the action is the stored status itself, which the enforcement agent also understands.\<close>

definition told_status :: "nats_message list \<Rightarrow> world \<Rightarrow> bool" where
  "told_status p w \<longleftrightarrow> published w = p \<or>
     (\<exists>c i. published w = p @ [Enforcement c] \<and> row_at i (cmd_mac_address c) (cmd_action c) (endpoints w))"

lemma device_told_status: "device p i m s w \<Longrightarrow> told_status p w"
  by (simp add: device_def told_status_def)

lemma update_device:
  assumes "\<And>w r. ep_id (f w r) = ep_id r \<and> ep_mac_address (f w r) = ep_mac_address r \<and>
      ep_status (f w r) = ep_status r"
  shows "valid (device p i m s) (stmt (\<lambda>w. (Ok (), update_endpoint j (f w) w)))
    (\<lambda>_. device p i m s) (\<lambda>w. published w = p)"
proof (rule valid_stmt)
  show "valid (device p i m s) (\<lambda>w. (Ok (), update_endpoint j (f w) w))
    (\<lambda>_. device p i m s) (\<lambda>w. published w = p)"
  proof (rule validI)
    fix w x w'
    assume "device p i m s w" "(Ok (), update_endpoint j (f w) w) = (Ok x, w')"
    then obtain r where r: "published w = p" "r \<in> set (endpoints w)" "ep_id r = i" "ep_mac_address r = m"
        "ep_status r = s" "w' = update_endpoint j (f w) w"
      by (auto simp: device_def row_at_def)
    then have "(if ep_id r = j then f w r else r) \<in> set (endpoints w')"
      by (force simp: update_endpoint_def set_update_rows)
    moreover have "published w' = p" using r by (simp add: update_endpoint_def)
    ultimately show "device p i m s w'"
      using r assms unfolding device_def row_at_def by (intro conjI bexI) auto
  qed simp_all
qed (auto simp: device_def)

lemma posture_updates_device:
  "valid (device p i m s) (ep_set_compliance j b) (\<lambda>_. device p i m s) (\<lambda>w. published w = p)"
  "valid (device p i m s) (ep_update_posture_fields j g) (\<lambda>_. device p i m s) (\<lambda>w. published w = p)"
  unfolding ep_set_compliance_def ep_update_posture_fields_def
  by (rule update_device; simp)+

lemma publish_status_of:
  assumes "cmd_mac_address c = m" and "cmd_action c = s"
  shows "valid (device p i m s) (io_ok (nats_publish (Enforcement c))) (\<lambda>_. told_status p) E"
proof (rule valid_ok)
  show "valid (device p i m s) (nats_publish (Enforcement c)) (\<lambda>_. told_status p) (told_status p)"
    unfolding nats_publish_def
  proof (rule valid_stmt)
    show "valid (device p i m s) (\<lambda>w. (Ok (), w\<lparr>published := published w @ [Enforcement c]\<rparr>))
       (\<lambda>_. told_status p) (told_status p)"
      using assms by (auto simp: valid_def device_def told_status_def)
  qed (auto simp: device_def told_status_def)
qed

lemma publish_status:
  "ep_mac_address e = m \<Longrightarrow>
   valid (device p i m s) (io_ok (nats_publish (Enforcement (status_command e s)))) (\<lambda>_. told_status p) E"
  by (rule publish_status_of) (simp_all add: status_command_def)

lemma process_posture_told:
  "valid (\<lambda>w. published w = p) (process_posture db rep) (\<lambda>_. told_status p) (\<lambda>w. published w = p)"
proof -
  have find: "valid (\<lambda>w. published w = p) (ep_find_by_mac db m)
      (\<lambda>x w. published w = p \<and>
        (\<forall>e. x = Some e \<longrightarrow> row_at (ep_id e) (ep_mac_address e) (ep_status e) (endpoints w)))
      (\<lambda>w. published w = p)" for m
    unfolding ep_find_by_mac_def
    by (rule valid_find) (auto dest!: find_row_SomeD split: option.splits)
  have ret: "valid (device p i m s) (io_return ()) (\<lambda>_. told_status p) (\<lambda>w. published w = p)" for i m s
    by (rule valid_return) (rule device_told_status)
  have fin: "valid (told_status p) (io_return ()) (\<lambda>_. told_status p) (\<lambda>w. published w = p)"
    by (rule valid_return)
  show ?thesis
    unfolding process_posture_def
  proof (rule valid_bind [OF find], goal_cases)
    case (1 x)
    show ?case
    proof (cases x)
      case None
      then show ?thesis by (auto intro!: valid_return simp: told_status_def)
    next
      case (Some e)
      have "valid (device p (ep_id e) (ep_mac_address e) (ep_status e)) (posture_known db rep e)
        (\<lambda>_. told_status p) (\<lambda>w. published w = p)"
        unfolding posture_known_def Let_def
        by (intro valid_seq [OF device_step [OF quiet_ops(19) frame_ops(12)]]
            valid_seq [OF device_step [OF quiet_ops(18) frame_ops(11)]]
            valid_seq [OF posture_updates_device(1)] valid_seq [OF posture_updates_device(2)]
            valid_bind [OF device_step [OF quiet_loads(1) frame_loads(1)]] valid_bind [OF device_evaluate]
            valid_if ret valid_seq [OF ep_set_status_device] valid_seq [OF publish_status] fin refl)
      then show ?thesis
        unfolding Some option.case
        by (rule valid_weaken) (auto simp: device_def)
    qed
  qed
qed

text \<open>
  The agent gateway publishes the agent's identifier as \<^verbatim>\<open>device_id\<close>. The cast of
  such a text to a hardware address fails, and the report has no effect.
\<close>

lemma posture_of_agent_id:
  "mac_in db (device_id rep) = None \<Longrightarrow> \<exists>e. process_posture db rep w = (Err e, tick w)"
  by (auto simp: process_posture_def ep_find_by_mac_def stmt_def io_bind_def split: list.split delivery.split)

end
