(* ===== verification/PmBackground.thy ===== *)
theory PmBackground
  imports PmPosture "HOL-Library.Multiset"
begin

text \<open>
  The background tasks of the policy manager, \<^verbatim>\<open>services/policy-manager/src/background.rs\<close>:
  the reconciliation at start and one round of the ARP synchronisation. The proc files and the time
  are arguments; the ARP table of a round is a list without repeated addresses, and the order in which
  the code's hash map is visited is an argument.
\<close>

section \<open>Reconciliation\<close>

definition publish_enforcement :: "string \<Rightarrow> string \<Rightarrow> string \<Rightarrow> unit io" where
  "publish_enforcement mac ip action =
     io_seq (io_ok (nats_publish (Enforcement
       \<lparr>cmd_mac_address = mac, cmd_ip_address = ip, cmd_action = action, cmd_gateway_ip = [],
        cmd_gateway_mac = None, cmd_vlan_id = None\<rparr>))) (io_return ())"

definition plain_ip :: "string option \<Rightarrow> string" where
  "plain_ip ip = runwrap_or [] (map_option (before_char CHR ''/'') ip)"

definition terminate_open_sessions :: "nat io" where
  "terminate_open_sessions = stmt (\<lambda>w.
     (Ok (length (filter (\<lambda>s. se_ended_at s = None) (sessions w))),
      w\<lparr>sessions := update_rows (\<lambda>s. se_ended_at s = None)
          (\<lambda>s. s\<lparr>se_state := ''terminated'', se_ended_at := Some (clock w), se_updated_at := clock w\<rparr>)
          (sessions w)\<rparr>))"

definition needs_reauth :: "endpoint_row \<Rightarrow> bool" where
  "needs_reauth r \<longleftrightarrow> ep_status r = ''allowed'' \<and> ep_username r \<noteq> None"

definition reset_authenticated :: "(uuid \<times> string \<times> string option) list io" where
  "reset_authenticated = stmt (\<lambda>w.
     (Ok (map (\<lambda>r. (ep_id r, ep_mac_address r, ep_ip_address r)) (filter needs_reauth (endpoints w))),
      w\<lparr>endpoints := update_rows needs_reauth
          (\<lambda>r. r\<lparr>ep_status := ''quarantined'', ep_username := None\<rparr>) (endpoints w)\<rparr>))"

definition select_enforced :: "(string \<times> string option \<times> string) list io" where
  "select_enforced = stmt (\<lambda>w.
     (Ok (map (\<lambda>r. (ep_mac_address r, ep_ip_address r, ep_status r))
        (filter (\<lambda>r. ep_status r = ''denied'' \<or> ep_status r = ''quarantined'') (endpoints w))), w))"

definition select_ip_rules :: "(string \<times> string) list io" where
  "select_ip_rules = stmt (\<lambda>w.
     (Ok (map (\<lambda>r. (ir_ip_cidr r, ir_action r)) (filter ir_enabled (ip_rules w))), w))"

definition reauth_one :: "uuid \<times> string \<times> string option \<Rightarrow> unit io" where
  "reauth_one x = (case x of (i, mac, ip) \<Rightarrow>
     io_seq (io_ok (se_create \<lparr>cs_endpoint_id = i, cs_auth_method = ''captive_portal'', cs_vlan_id = None\<rparr>))
       (publish_enforcement mac (plain_ip ip) ''quarantine''))"

definition reapply_one :: "string \<times> string option \<times> string \<Rightarrow> unit io" where
  "reapply_one x = (case x of (mac, ip, status) \<Rightarrow>
     publish_enforcement mac (plain_ip ip) (if status = ''denied'' then ''block'' else ''quarantine''))"

definition reapply_rule :: "string \<times> string \<Rightarrow> unit io" where
  "reapply_rule x = (case x of (ip_cidr, action) \<Rightarrow>
     if action = ''block'' \<or> action = ''quarantine''
     then publish_enforcement ''00:00:00:00:00:00'' (before_char CHR ''/'' ip_cidr) action
     else io_return ())"

definition reconcile :: "unit io" where
  "reconcile =
     io_seq (io_ok terminate_open_sessions)
    (io_bind reset_authenticated (\<lambda>reauth.
     io_seq (io_list reauth_one reauth)
    (io_bind select_enforced (\<lambda>rows.
     io_seq (io_list reapply_one rows)
    (io_bind select_ip_rules (\<lambda>rules.
     io_list reapply_rule rules))))))"

section \<open>Reading the proc files\<close>

fun gateways :: "string list \<Rightarrow> string list" where
  "gateways [] = []"
| "gateways (line # rest) =
     (let parts = split_whitespace line in
      if length parts < 3 then gateways rest
      else case (from_str_radix 16 (2 ^ 32) (parts ! 1), from_str_radix 16 (2 ^ 32) (parts ! 2)) of
          (Some dest, Some gw) \<Rightarrow>
            if dest = 0 \<and> gw \<noteq> 0
            then join ''.'' (map (\<lambda>b. dec (unat b)) (u32_to_le (of_nat gw))) # gateways rest
            else gateways rest
        | _ \<Rightarrow> gateways rest)"

definition detect_default_gateways :: "string option \<Rightarrow> string list" where
  "detect_default_gateways route =
     (case route of None \<Rightarrow> [] | Some content \<Rightarrow> gateways (drop 1 (lines content)))"

type_synonym arp_raw = "(string \<times> string \<times> nat) list"

text \<open>\<^verbatim>\<open>entry(mac).or_insert(..)\<close>, and a strictly greater flag replaces.\<close>

fun arp_entry_insert :: "string \<Rightarrow> string \<Rightarrow> nat \<Rightarrow> arp_raw \<Rightarrow> arp_raw" where
  "arp_entry_insert mac ip flags [] = [(mac, ip, flags)]"
| "arp_entry_insert mac ip flags ((m, i, f) # rest) =
     (if m = mac then (if f < flags then (m, ip, flags) # rest else (m, i, f) # rest)
      else (m, i, f) # arp_entry_insert mac ip flags rest)"

definition arp_line :: "string \<Rightarrow> (string \<times> string \<times> nat) option" where
  "arp_line line =
     (let parts = split_whitespace line in
      if length parts < 4 then None
      else
        let ip = parts ! 0;
            flags = runwrap_or 0 (from_str_radix 16 256 (trim_start_matches ''0x'' (parts ! 2)));
            mac = to_lowercase (parts ! 3)
        in if mac = ''00:00:00:00:00:00'' \<or> flags = 0 then None
           else if starts_with ''172.'' ip \<or> starts_with ''127.'' ip \<or> starts_with ''169.254.'' ip then None
           else Some (mac, ip, flags))"

fun arp_rows :: "string list \<Rightarrow> arp_raw \<Rightarrow> arp_raw" where
  "arp_rows [] acc = acc"
| "arp_rows (line # rest) acc =
     (case arp_line line of
        None \<Rightarrow> arp_rows rest acc
      | Some (mac, ip, flags) \<Rightarrow> arp_rows rest (arp_entry_insert mac ip flags acc))"

definition arp_map :: "string \<Rightarrow> (string \<times> string) list" where
  "arp_map content = map (\<lambda>(m, i, f). (m, i)) (arp_rows (drop 1 (lines content)) [])"

section \<open>One round of the synchronisation\<close>

definition detected_event :: "string \<Rightarrow> string \<Rightarrow> int \<Rightarrow> nats_message" where
  "detected_event mac ip now = OtherEvent ''nac.events.endpoint.detected''
     (JObj [(''mac_address'', JStr mac), (''ip_address'', JStr ip), (''interface'', JStr []),
            (''source'', JStr ''arp-sync''), (''timestamp'', JNum now)])"

definition select_addresses :: "(string \<times> string option) list io" where
  "select_addresses = stmt (\<lambda>w.
     (Ok (map (\<lambda>r. (ep_mac_address r, ep_ip_address r)) (endpoints w)), w))"

definition update_ip :: "pg \<Rightarrow> string \<Rightarrow> string \<Rightarrow> unit io" where
  "update_ip db ip mac = stmt (\<lambda>w.
     case inet_in db ip of None \<Rightarrow> (Err (InvalidCast ip), w)
     | Some i \<Rightarrow>
         (case mac_in db mac of None \<Rightarrow> (Err (InvalidCast mac), w)
          | Some m \<Rightarrow> (Ok (), w\<lparr>endpoints := update_rows (\<lambda>r. ep_mac_address r = m)
              (\<lambda>r. r\<lparr>ep_ip_address := Some i, ep_last_seen := clock w\<rparr>) (endpoints w)\<rparr>)))"

definition resend :: "string \<Rightarrow> string \<Rightarrow> endpoint_row option \<Rightarrow> unit io" where
  "resend mac ip found =
     (case found of None \<Rightarrow> io_return ()
      | Some ep \<Rightarrow>
          if ep_status ep = ''denied'' then publish_enforcement mac ip ''block''
          else if ep_status ep = ''quarantined'' then publish_enforcement mac ip ''quarantine''
          else io_return ())"

type_synonym pending = "string \<Rightarrow> string option"

definition sync_one ::
  "pg \<Rightarrow> int \<Rightarrow> string list \<Rightarrow> (string \<Rightarrow> string option option) \<Rightarrow> string \<Rightarrow> string \<Rightarrow> pending \<Rightarrow> pending io"
where
  "sync_one db now gws existing mac ip pend =
     (if ip \<in> set gws then io_return (pend(mac := None))
      else
        (let current_ip = Option.bind (existing mac) (map_option (before_char CHR ''/''));
             is_new = (existing mac = None);
             ip_changed = (\<not> is_new \<and> current_ip \<noteq> Some ip)
         in if is_new then
              io_seq (io_ok (nats_publish (detected_event mac ip now))) (io_return (pend(mac := None)))
            else if ip_changed then
              (if pend mac = Some ip then
                 io_seq (io_ok (update_ip db ip mac))
                (io_bind (io_ok (ep_find_by_mac db mac)) (\<lambda>found.
                 io_seq (resend mac ip (flatten found))
                   (io_return (pend(mac := None)))))
               else io_return (pend(mac \<mapsto> ip)))
            else io_return (pend(mac := None))))"

fun sync_loop ::
  "pg \<Rightarrow> int \<Rightarrow> string list \<Rightarrow> (string \<Rightarrow> string option option) \<Rightarrow> (string \<times> string) list \<Rightarrow> pending \<Rightarrow> pending io"
where
  "sync_loop db now gws existing [] pend = io_return pend"
| "sync_loop db now gws existing ((mac, ip) # rest) pend =
     io_bind (sync_one db now gws existing mac ip pend) (\<lambda>pend'.
       sync_loop db now gws existing rest pend')"

text \<open>
  The result is the new map of candidates, which is kept when a statement of the round fails: the
  code has changed it in place by then, and only \<^verbatim>\<open>retain\<close> and the loop change it, which come
  after the one statement that can end the round.
\<close>

definition existing_map :: "(string \<times> string option) list \<Rightarrow> string \<Rightarrow> string option option" where
  "existing_map rows = map_of (rev (map (\<lambda>(m, i). (to_lowercase m, i)) rows))"

definition arp_sync ::
  "pg \<Rightarrow> int \<Rightarrow> string option \<Rightarrow> string option \<Rightarrow> ((string \<times> string) list \<Rightarrow> (string \<times> string) list) \<Rightarrow>
   pending \<Rightarrow> pending io"
where
  "arp_sync db now arp route order pend =
     (case arp of
        None \<Rightarrow> io_return pend
      | Some content \<Rightarrow>
          (let table = arp_map content; gws = detect_default_gateways route in
           io_bind select_addresses (\<lambda>rows.
             let pend' = (\<lambda>mac. if mac \<in> fst ` set table then pend mac else None) in
             sync_loop db now gws (existing_map rows) (order table) pend')))"

section \<open>The reconciliation resets authentication\<close>

lemma publish_enforcement_keeps [store_keeps]: "keeps store_inv (publish_enforcement m i a)"
  unfolding publish_enforcement_def by (intro inv_rules)

lemma reconcile_steps_keep:
  "keeps (\<lambda>w. endpoints w = es) (publish_enforcement m i a)"
  "keeps (\<lambda>w. endpoints w = es) terminate_open_sessions"
  "keeps (\<lambda>w. endpoints w = es) select_enforced"
  "keeps (\<lambda>w. endpoints w = es) select_ip_rules"
  unfolding publish_enforcement_def terminate_open_sessions_def select_enforced_def select_ip_rules_def
  by (intro frame_rules store_frame frame.keeps_stmt; simp)+

lemma reconcile_loops_keep:
  "keeps (\<lambda>w. endpoints w = es) (io_list reauth_one xs)"
  "keeps (\<lambda>w. endpoints w = es) (io_list reapply_one ys)"
  "keeps (\<lambda>w. endpoints w = es) (io_list reapply_rule zs)"
  by (rule frame.keeps_list;
      auto simp: reauth_one_def reapply_one_def reapply_rule_def
        intro!: frame_rules store_frame reconcile_steps_keep)+

definition none_authenticated :: "endpoint_row list \<Rightarrow> bool" where
  "none_authenticated es \<longleftrightarrow> (\<forall>r \<in> set es. \<not> needs_reauth r)"

lemma reset_row:
  "\<not> needs_reauth (if needs_reauth r then r\<lparr>ep_status := ''quarantined'', ep_username := None\<rparr> else r)"
  by (cases "needs_reauth r") (simp_all add: needs_reauth_def)

lemma none_authenticated_reset:
  "none_authenticated (update_rows needs_reauth
     (\<lambda>r. r\<lparr>ep_status := ''quarantined'', ep_username := None\<rparr>) es)"
  unfolding none_authenticated_def update_rows_def set_map using reset_row by blast

lemma reset_authenticated_ok:
  "valid (\<lambda>w. True) reset_authenticated (\<lambda>_ w. none_authenticated (endpoints w)) (\<lambda>w. True)"
  unfolding reset_authenticated_def
proof (rule valid_stmt)
  show "valid (\<lambda>w. True) (\<lambda>w.
     (Ok (map (\<lambda>r. (ep_id r, ep_mac_address r, ep_ip_address r)) (filter needs_reauth (endpoints w))),
      w\<lparr>endpoints := update_rows needs_reauth
          (\<lambda>r. r\<lparr>ep_status := ''quarantined'', ep_username := None\<rparr>) (endpoints w)\<rparr>))
     (\<lambda>_ w. none_authenticated (endpoints w)) (\<lambda>w. True)"
    by (simp add: valid_def none_authenticated_reset)
qed simp_all

lemma reconcile_resets:
  "valid (\<lambda>w. True) reconcile (\<lambda>_ w. none_authenticated (endpoints w)) (\<lambda>w. True)"
proof -
  have step: "valid (\<lambda>w. none_authenticated (endpoints w)) m (\<lambda>_ w. none_authenticated (endpoints w)) (\<lambda>w. True)"
    if "\<And>es. keeps (\<lambda>w. endpoints w = es) m" for m :: "'a io"
    by (rule valid_weaken [OF keepsD [OF frame_keeps [OF that]]]) auto
  have first: "valid (\<lambda>w. True) (io_ok terminate_open_sessions) (\<lambda>_ w. True) (\<lambda>w. True)"
    by (rule valid_weaken [OF keepsD [OF frame_keeps [of _ "\<lambda>_. True"]]])
       (auto intro: frame.keeps_ok reconcile_steps_keep)
  show ?thesis
    unfolding reconcile_def
    by (intro valid_seq [OF first] valid_bind [OF reset_authenticated_ok]
        valid_seq [OF step [OF reconcile_loops_keep(1)]] valid_bind [OF step [OF reconcile_steps_keep(3)]]
        valid_seq [OF step [OF reconcile_loops_keep(2)]] valid_bind [OF step [OF reconcile_steps_keep(4)]]
        step [OF reconcile_loops_keep(3)])
qed

section \<open>The synchronisation\<close>

text \<open>The table has one entry for each hardware address.\<close>

lemma arp_entry_insert_keys: "fst ` set (arp_entry_insert m i f t) = insert m (fst ` set t)"
  by (induction m i f t rule: arp_entry_insert.induct) auto

lemma arp_entry_insert_distinct: "distinct (map fst t) \<Longrightarrow> distinct (map fst (arp_entry_insert m i f t))"
  by (induction m i f t rule: arp_entry_insert.induct)
     (auto simp: arp_entry_insert_keys)

lemma arp_rows_distinct: "distinct (map fst acc) \<Longrightarrow> distinct (map fst (arp_rows ls acc))"
  by (induction ls acc rule: arp_rows.induct) (auto simp: arp_entry_insert_distinct split: option.split)

lemma arp_map_distinct: "distinct (map fst (arp_map content))"
  using arp_rows_distinct [of "[]" "drop 1 (lines content)"]
  by (simp add: arp_map_def comp_def case_prod_unfold)

text \<open>No local address, no null address and no incomplete entry enters the table.\<close>

definition arp_ok :: "string \<times> string \<Rightarrow> bool" where
  "arp_ok x \<longleftrightarrow> fst x \<noteq> ''00:00:00:00:00:00'' \<and> \<not> starts_with ''172.'' (snd x) \<and>
     \<not> starts_with ''127.'' (snd x) \<and> \<not> starts_with ''169.254.'' (snd x)"

lemma arp_line_ok: "arp_line l = Some (m, i, f) \<Longrightarrow> arp_ok (m, i)"
  by (auto simp: arp_line_def arp_ok_def Let_def split: if_splits)

lemma arp_entry_insert_ok:
  "(m', i', f') \<in> set (arp_entry_insert m i f t) \<Longrightarrow> arp_ok (m, i) \<Longrightarrow>
   (\<forall>(m, i, f) \<in> set t. arp_ok (m, i)) \<Longrightarrow> arp_ok (m', i')"
  by (induction m i f t rule: arp_entry_insert.induct) (auto split: if_splits)

lemma arp_rows_ok:
  "(m, i, f) \<in> set (arp_rows ls acc) \<Longrightarrow> (\<forall>(m, i, f) \<in> set acc. arp_ok (m, i)) \<Longrightarrow> arp_ok (m, i)"
proof (induction ls acc rule: arp_rows.induct)
  case (2 line rest acc)
  show ?case
  proof (cases "arp_line line")
    case None
    with 2 show ?thesis by simp
  next
    case (Some x)
    obtain m' i' f' where x: "x = (m', i', f')" by (cases x)
    have "\<forall>(m, i, f) \<in> set (arp_entry_insert m' i' f' acc). arp_ok (m, i)"
      using arp_entry_insert_ok [of _ _ _ m' i' f' acc] arp_line_ok Some x 2(4) by blast
    with 2 Some x show ?thesis by simp
  qed
qed auto

lemma arp_map_ok: "x \<in> set (arp_map content) \<Longrightarrow> arp_ok x"
  by (auto simp: arp_map_def dest: arp_rows_ok)

text \<open>
  The debounce: a round changes no stored address unless the same address was the candidate of the
  round before.
\<close>

lemma sync_one_keeps:
  assumes "pend mac \<noteq> Some ip"
  shows "keeps (\<lambda>w. endpoints w = es) (sync_one db now gws existing mac ip pend)"
  unfolding sync_one_def Let_def
  using assms by (auto intro!: frame_rules store_frame split: if_split)

lemma valid_conj:
  "valid P m Q E \<Longrightarrow> valid P m Q' E' \<Longrightarrow> valid P m (\<lambda>x w. Q x w \<and> Q' x w) (\<lambda>w. E w \<and> E' w)"
  by (fastforce simp: valid_def split: prod.splits rust.splits)

lemma frame_True: "(\<And>es. keeps (\<lambda>w. endpoints w = es) m) \<Longrightarrow> valid P m (\<lambda>_ _. True) (\<lambda>_. True)"
  by (rule valid_weaken [OF keepsD [OF frame_keeps [of m "\<lambda>_. True"]]]) auto

lemma update_ip_not_Panic: "fst (update_ip db ip mac w) \<noteq> Panic"
  by (auto simp: update_ip_def stmt_def split: list.split delivery.split option.split)

lemma update_ip_True: "valid P (io_ok (update_ip db ip mac)) (\<lambda>_ _. True) (\<lambda>_. True)"
proof -
  have "fst (io_ok (update_ip db ip mac) w) \<noteq> Panic" for w
    using update_ip_not_Panic [of db ip mac w]
    by (cases "update_ip db ip mac w"; cases "fst (update_ip db ip mac w)") (auto simp: io_ok_def)
  then show ?thesis
    unfolding valid_def by (auto split: prod.split rust.split dest: arg_cong [of _ _ fst])
qed

lemma resend_frame: "keeps (\<lambda>w. endpoints w = es) (resend mac ip found)"
  unfolding resend_def by (auto intro!: frame_rules reconcile_steps_keep split: option.split)

lemma sync_one_pending:
  "valid P (sync_one db now gws existing mac ip pend) (\<lambda>p' w. \<forall>m. m \<noteq> mac \<longrightarrow> p' m = pend m) (\<lambda>_. True)"
proof -
  have pub: "valid P (io_ok (nats_publish m)) (\<lambda>_ _. True) (\<lambda>_. True)" for P m
    by (rule frame_True) (auto intro: frame.keeps_ok store_frame)
  have find: "valid P (io_ok (ep_find_by_mac db mac)) (\<lambda>_ _. True) (\<lambda>_. True)" for P
    by (rule frame_True) (auto intro: frame.keeps_ok store_frame)
  have res: "valid P (resend mac ip f) (\<lambda>_ _. True) (\<lambda>_. True)" for P f
    by (rule frame_True) (rule resend_frame)
  show ?thesis
    unfolding sync_one_def Let_def
    by (intro valid_if valid_seq [OF pub] valid_seq [OF update_ip_True] valid_bind [OF find]
        valid_seq [OF res] valid_return) auto
qed

lemma sync_loop_keeps:
  "distinct (map fst xs) \<Longrightarrow> \<forall>(m, i) \<in> set xs. pend m \<noteq> Some i \<Longrightarrow>
   keeps (\<lambda>w. endpoints w = es) (sync_loop db now gws existing xs pend)"
proof (induction xs arbitrary: pend)
  case Nil
  show ?case unfolding sync_loop.simps by (rule frame.keeps_return)
next
  case (Cons x xs)
  obtain mac ip where x: "x = (mac, ip)" by (cases x)
  let ?Q = "\<lambda>p' w. (\<forall>m. m \<noteq> mac \<longrightarrow> p' m = pend m) \<and> endpoints w = es"
  have one: "valid (\<lambda>w. endpoints w = es) (sync_one db now gws existing mac ip pend) ?Q (\<lambda>w. endpoints w = es)"
    using valid_conj [OF sync_one_pending keepsD [OF sync_one_keeps]] Cons.prems(2) x
    by (auto intro: valid_weaken)
  have "valid (?Q p') (sync_loop db now gws existing xs p') (\<lambda>_ w. endpoints w = es) (\<lambda>w. endpoints w = es)" for p'
  proof (cases "\<forall>m. m \<noteq> mac \<longrightarrow> p' m = pend m")
    case True
    have "p' m \<noteq> Some i" if "(m, i) \<in> set xs" for m i
    proof -
      have "m \<noteq> mac" using that Cons.prems(1) x by force
      moreover have "pend m \<noteq> Some i" using that Cons.prems(2) by auto
      ultimately show ?thesis using True by simp
    qed
    then have "\<forall>(m, i) \<in> set xs. p' m \<noteq> Some i" by blast
    moreover have "distinct (map fst xs)" using Cons.prems(1) by simp
    ultimately have "keeps (\<lambda>w. endpoints w = es) (sync_loop db now gws existing xs p')"
      by (intro Cons.IH)
    then show ?thesis by (rule valid_weaken [OF keepsD]) simp_all
  next
    case False
    then show ?thesis unfolding valid_def by blast
  qed
  then have "valid (\<lambda>w. endpoints w = es) (sync_loop db now gws existing (x # xs) pend)
      (\<lambda>_ w. endpoints w = es) (\<lambda>w. endpoints w = es)"
    unfolding x sync_loop.simps by (rule valid_bind [OF one])
  then show ?case by (simp add: keeps_def)
qed

lemma arp_sync_debounce:
  assumes "mset (order (arp_map content)) = mset (arp_map content)"
    and "\<forall>(m, i) \<in> set (arp_map content). pend m \<noteq> Some i"
  shows "keeps (\<lambda>w. endpoints w = es) (arp_sync db now (Some content) route order pend)"
proof -
  let ?p = "\<lambda>mac. if mac \<in> fst ` set (arp_map content) then pend mac else None"
  have "mset (map fst (order (arp_map content))) = mset (map fst (arp_map content))"
    using assms(1) by simp
  then have d: "distinct (map fst (order (arp_map content)))"
    using arp_map_distinct mset_eq_imp_distinct_iff by blast
  have "set (order (arp_map content)) = set (arp_map content)"
    using assms(1) by (rule mset_eq_setD)
  with assms(2) have "\<forall>(m, i) \<in> set (order (arp_map content)). ?p m \<noteq> Some i"
    by (auto split: if_splits)
  from sync_loop_keeps [OF d this] show ?thesis
    unfolding arp_sync_def Let_def select_addresses_def
    by (auto intro!: frame.keeps_bind frame.keeps_read)
qed

text \<open>The default gateway is never the subject of a message.\<close>

definition only_speaks :: "(nats_message \<Rightarrow> bool) \<Rightarrow> nats_message list \<Rightarrow> world \<Rightarrow> bool" where
  "only_speaks ok p w \<longleftrightarrow> (\<exists>q. published w = p @ q \<and> (\<forall>m \<in> set q. ok m))"

interpretation speak: io_steps "only_speaks ok p" for ok p
  by unfold_locales (simp add: only_speaks_def)

lemma speak_publish: "ok m \<Longrightarrow> keeps (only_speaks ok p) (nats_publish m)"
  unfolding nats_publish_def
  by (rule speak.keeps_stmt) (auto simp: only_speaks_def intro: exI [of _ "_ @ [m]"])

lemma speak_quiet:
  assumes "\<And>p. keeps (\<lambda>w. published w = p) m"
  shows "keeps (only_speaks ok p) m"
  unfolding keeps_def valid_def
proof (intro allI impI)
  fix w :: world
  assume "only_speaks ok p w"
  then show "case m w of (Ok x, w') \<Rightarrow> only_speaks ok p w' | (Err e, w') \<Rightarrow> only_speaks ok p w'
      | (Panic, w') \<Rightarrow> False"
    using assms [of "published w"]
    by (fastforce simp: keeps_def valid_def only_speaks_def split: prod.splits rust.splits)
qed

lemmas speak_rules = speak.keeps_return speak.keeps_bind speak.keeps_seq speak.keeps_ok

fun message_ip :: "nats_message \<Rightarrow> string option" where
  "message_ip (Enforcement c) = Some (cmd_ip_address c)"
| "message_ip (OtherEvent s (JObj fs)) =
     (case map_of fs ''ip_address'' of Some (JStr ip) \<Rightarrow> Some ip | _ \<Rightarrow> None)"
| "message_ip m = None"

lemma update_ip_quiet: "keeps (\<lambda>w. published w = p) (update_ip db ip mac)"
  unfolding update_ip_def by (rule quiet.keeps_stmt) (auto split: option.split)

lemma publish_enforcement_speaks:
  "i \<notin> set gws \<Longrightarrow> keeps (only_speaks (\<lambda>m. \<exists>x. message_ip m = Some x \<and> x \<notin> set gws) p) (publish_enforcement m i a)"
  unfolding publish_enforcement_def by (intro speak_rules speak_publish) simp

lemma sync_one_speaks:
  "keeps (only_speaks (\<lambda>m. \<exists>x. message_ip m = Some x \<and> x \<notin> set gws) p)
     (sync_one db now gws existing mac ip pend)"
  unfolding sync_one_def Let_def resend_def
  by (auto intro!: speak_rules speak_publish publish_enforcement_speaks speak_quiet [OF update_ip_quiet] speak_quiet [OF quiet_ops(3)]
      simp: detected_event_def split: option.split)

lemma sync_loop_speaks:
  "keeps (only_speaks (\<lambda>m. \<exists>x. message_ip m = Some x \<and> x \<notin> set gws) p)
     (sync_loop db now gws existing xs pend)"
  by (induction xs arbitrary: pend) (auto intro!: speak_rules sync_one_speaks)

lemma arp_sync_spares_gateways:
  "keeps (only_speaks (\<lambda>m. \<exists>x. message_ip m = Some x \<and> x \<notin> set (detect_default_gateways route)) p)
     (arp_sync db now arp route order pend)"
  unfolding arp_sync_def Let_def select_addresses_def
  by (auto intro!: speak_rules speak.keeps_read sync_loop_speaks split: option.split)

section \<open>Both tasks keep the invariant\<close>

lemma reconcile_keeps: "keeps store_inv reconcile"
proof -
  have "keeps store_inv terminate_open_sessions"
    unfolding terminate_open_sessions_def
    by (rule inv.keeps_stmt) (auto intro!: session_update_inv simp: session_states_def)
  moreover have "keeps store_inv reset_authenticated"
    unfolding reset_authenticated_def
    by (rule inv.keeps_stmt) (auto intro!: update_rows_inv simp: statuses_def)
  moreover have "keeps store_inv select_enforced" "keeps store_inv select_ip_rules"
    unfolding select_enforced_def select_ip_rules_def by (rule inv.keeps_read; simp)+
  ultimately show ?thesis
    unfolding reconcile_def
    by (auto intro!: inv_rules inv.keeps_list store_keeps
        simp: reauth_one_def reapply_one_def reapply_rule_def)
qed

lemma update_ip_keeps: "keeps store_inv (update_ip db ip mac)"
  unfolding update_ip_def
  by (rule inv.keeps_stmt) (auto intro!: update_rows_inv intro: inv_status split: option.split)

lemma sync_one_inv: "keeps store_inv (sync_one db now gws existing mac ip pend)"
  unfolding sync_one_def Let_def resend_def
  by (auto intro!: inv_rules store_keeps update_ip_keeps split: option.split)

lemma sync_loop_inv: "keeps store_inv (sync_loop db now gws existing xs pend)"
  by (induction xs arbitrary: pend) (auto intro!: inv_rules sync_one_inv)

lemma arp_sync_inv: "keeps store_inv (arp_sync db now arp route order pend)"
  unfolding arp_sync_def Let_def select_addresses_def
  by (auto intro!: inv_rules inv.keeps_read sync_loop_inv split: option.split)

end
