(* ===== verification/Reconcile.thy ===== *)
theory Reconcile
  imports PmBackground
begin

text \<open>
  What a reconciliation does when no statement fails: every device that is denied or quarantined
  after it, and every enabled IP rule, has its command on the bus.
\<close>
section \<open>A reconciliation without faults\<close>

definition plain_command :: "string \<Rightarrow> string \<Rightarrow> string \<Rightarrow> nats_message" where
  "plain_command mac ip action = Enforcement
     \<lparr>cmd_mac_address = mac, cmd_ip_address = ip, cmd_action = action, cmd_gateway_ip = [],
      cmd_gateway_mac = None, cmd_vlan_id = None\<rparr>"

text \<open>What stays the same from one world to a later one, apart from more messages.\<close>

definition later :: "world \<Rightarrow> world \<Rightarrow> bool" where
  "later w w' \<longleftrightarrow> schedule w' = [] \<and> endpoints w' = endpoints w \<and> ip_rules w' = ip_rules w
     \<and> set (published w) \<subseteq> set (published w')"

lemma later_refl: "schedule w = [] \<Longrightarrow> later w w"
  by (simp add: later_def)

lemma later_trans: "later u v \<Longrightarrow> later v w \<Longrightarrow> later u w"
  by (auto simp: later_def)

lemma publish_enforcement_later:
  assumes "schedule w = []"
  obtains w' where "publish_enforcement mac ip a w = (Ok (), w')" and "later w w'"
    and "plain_command mac ip a \<in> set (published w')"
  using assms
  by (auto simp: publish_enforcement_def io_seq_def io_bind_def io_ok_def nats_publish_def stmt_delivered
      later_def plain_command_def)

lemma io_list_later:
  assumes "\<And>x w. schedule w = [] \<Longrightarrow> x \<in> set xs \<Longrightarrow> \<exists>w'. f x w = (Ok (), w') \<and> later w w' \<and> set (msgs x) \<subseteq> set (published w')"
  shows "schedule w = [] \<Longrightarrow> \<exists>w'. io_list f xs w = (Ok (), w') \<and> later w w'
    \<and> (\<forall>x \<in> set xs. set (msgs x) \<subseteq> set (published w'))"
  using assms
proof (induction xs arbitrary: w)
  case Nil
  then show ?case by (auto intro: later_refl)
next
  case (Cons x xs)
  obtain w1 where w1: "f x w = (Ok (), w1)" "later w w1" "set (msgs x) \<subseteq> set (published w1)"
    using Cons.prems(2) [OF Cons.prems(1), of x] by auto
  have s1: "schedule w1 = []" using w1(2) by (simp add: later_def)
  obtain w2 where w2: "io_list f xs w1 = (Ok (), w2)" "later w1 w2"
      "\<forall>x \<in> set xs. set (msgs x) \<subseteq> set (published w2)"
    using Cons.IH [OF s1] Cons.prems(2) by (metis list.set_intros(2))
  have "set (published w1) \<subseteq> set (published w2)" using w2(2) by (simp add: later_def)
  with w1 w2 show ?case
    by (auto simp: io_seq_def io_bind_def intro: later_trans)
qed

definition enforced_command :: "string \<times> string option \<times> string \<Rightarrow> nats_message" where
  "enforced_command x = (case x of (mac, ip, status) \<Rightarrow>
     plain_command mac (plain_ip ip) (if status = ''denied'' then ''block'' else ''quarantine''))"

definition rule_command :: "string \<times> string \<Rightarrow> nats_message list" where
  "rule_command x = (case x of (cidr, action) \<Rightarrow>
     if action = ''block'' \<or> action = ''quarantine''
     then [plain_command ''00:00:00:00:00:00'' (before_char CHR ''/'' cidr) action] else [])"

lemma reapply_later:
  assumes "schedule w = []"
  shows "\<exists>w'. reapply_one x w = (Ok (), w') \<and> later w w' \<and> set [enforced_command x] \<subseteq> set (published w')"
    "\<exists>w'. reapply_rule y w = (Ok (), w') \<and> later w w' \<and> set (rule_command y) \<subseteq> set (published w')"
proof -
  obtain mac ip st where x: "x = (mac, ip, st)" by (cases x)
  show "\<exists>w'. reapply_one x w = (Ok (), w') \<and> later w w' \<and> set [enforced_command x] \<subseteq> set (published w')"
    by (rule publish_enforcement_later [OF assms, of mac "plain_ip ip"
          "if st = ''denied'' then ''block'' else ''quarantine''"])
       (simp only: reapply_one_def x enforced_command_def prod.case list.set insert_subset empty_subsetI, blast)
  obtain cidr a where y: "y = (cidr, a)" by (cases y)
  show "\<exists>w'. reapply_rule y w = (Ok (), w') \<and> later w w' \<and> set (rule_command y) \<subseteq> set (published w')"
  proof (cases "a = ''block'' \<or> a = ''quarantine''")
    case True
    obtain w' where "publish_enforcement ''00:00:00:00:00:00'' (before_char CHR ''/'' cidr) a w = (Ok (), w')"
        "later w w'" "plain_command ''00:00:00:00:00:00'' (before_char CHR ''/'' cidr) a \<in> set (published w')"
      by (rule publish_enforcement_later [OF assms])
    with True show ?thesis by (auto simp: reapply_rule_def y rule_command_def)
  qed (use assms in \<open>auto simp: reapply_rule_def y rule_command_def later_refl\<close>)
qed

lemma reauth_later:
  assumes "schedule w = []"
  shows "\<exists>w'. reauth_one x w = (Ok (), w') \<and> later w w' \<and> set [] \<subseteq> set (published w')"
proof -
  obtain i mac ip where x: "x = (i, mac, ip)" by (cases x)
  let ?cs = "\<lparr>cs_endpoint_id = i, cs_auth_method = ''captive_portal'', cs_vlan_id = None\<rparr>"
  have "\<exists>r w1. io_ok (se_create ?cs) w = (Ok r, w1) \<and> later w w1"
    using assms by (simp add: io_ok_def se_create_def stmt_delivered later_def Let_def)
  then obtain r w1 where w1: "io_ok (se_create ?cs) w = (Ok r, w1)" "later w w1" by blast
  then have "schedule w1 = []" by (simp add: later_def)
  then obtain w2 where "publish_enforcement mac (plain_ip ip) ''quarantine'' w1 = (Ok (), w2)" "later w1 w2"
    by (rule publish_enforcement_later)
  with w1 show ?thesis
    by (auto simp: reauth_one_def x io_seq_def io_bind_def intro: later_trans)
qed

lemma reconcile_reapplies:
  assumes "schedule w = []"
  shows "\<exists>w'. reconcile w = (Ok (), w')
    \<and> endpoints w' = update_rows needs_reauth
        (\<lambda>r. r\<lparr>ep_status := ''quarantined'', ep_username := None\<rparr>) (endpoints w)
    \<and> (\<forall>r \<in> set (endpoints w'). ep_status r \<in> {''denied'', ''quarantined''} \<longrightarrow>
         enforced_command (ep_mac_address r, ep_ip_address r, ep_status r) \<in> set (published w'))
    \<and> (\<forall>r \<in> set (ip_rules w). ir_enabled r \<longrightarrow>
         set (rule_command (ir_ip_cidr r, ir_action r)) \<subseteq> set (published w'))"
proof -
  obtain n w1 where w1: "io_ok terminate_open_sessions w = (Ok n, w1)" "later w w1"
    using assms by (auto simp: io_ok_def terminate_open_sessions_def stmt_delivered later_def)
  have s1: "schedule w1 = []" using w1(2) by (simp add: later_def)
  obtain xs w2 where w2: "reset_authenticated w1 = (Ok xs, w2)" "schedule w2 = []" "ip_rules w2 = ip_rules w1"
      "endpoints w2 = update_rows needs_reauth
        (\<lambda>r. r\<lparr>ep_status := ''quarantined'', ep_username := None\<rparr>) (endpoints w1)"
    using s1 by (simp add: reset_authenticated_def stmt_delivered)
  obtain w3 where w3: "io_list reauth_one xs w2 = (Ok (), w3)" "later w2 w3"
    using io_list_later [of xs reauth_one "\<lambda>_. []" w2] reauth_later w2(2) by auto
  have s3: "schedule w3 = []" using w3(2) by (simp add: later_def)
  define rows where "rows = map (\<lambda>r. (ep_mac_address r, ep_ip_address r, ep_status r))
        (filter (\<lambda>r. ep_status r = ''denied'' \<or> ep_status r = ''quarantined'') (endpoints w3))"
  obtain w4 where w4: "select_enforced w3 = (Ok rows, w4)" "later w3 w4"
    using s3 by (simp add: select_enforced_def stmt_delivered later_def rows_def)
  have s4: "schedule w4 = []" using w4(2) by (simp add: later_def)
  obtain w5 where w5: "io_list reapply_one rows w4 = (Ok (), w5)" "later w4 w5"
      "\<forall>x \<in> set rows. set [enforced_command x] \<subseteq> set (published w5)"
    using io_list_later [of rows reapply_one "\<lambda>x. [enforced_command x]" w4] reapply_later(1) s4 by blast
  have s5: "schedule w5 = []" using w5(2) by (simp add: later_def)
  define rules where "rules = map (\<lambda>r. (ir_ip_cidr r, ir_action r)) (filter ir_enabled (ip_rules w5))"
  obtain w6 where w6: "select_ip_rules w5 = (Ok rules, w6)" "later w5 w6"
    using s5 by (simp add: select_ip_rules_def stmt_delivered later_def rules_def)
  have s6: "schedule w6 = []" using w6(2) by (simp add: later_def)
  obtain w7 where w7: "io_list reapply_rule rules w6 = (Ok (), w7)" "later w6 w7"
      "\<forall>x \<in> set rules. set (rule_command x) \<subseteq> set (published w7)"
    using io_list_later [of rules reapply_rule rule_command w6] reapply_later(2) s6 by blast
  have run: "reconcile w = (Ok (), w7)"
    using w1 w2 w3 w4 w5 w6 w7 by (simp add: reconcile_def io_seq_def io_bind_def)
  have l: "later w3 w7" using w4(2) w5(2) w6(2) w7(2) by (blast intro: later_trans)
  then have e7: "endpoints w7 = endpoints w3" by (simp add: later_def)
  have p57: "set (published w5) \<subseteq> set (published w7)" using w6(2) w7(2) by (auto simp: later_def)
  have "enforced_command (ep_mac_address r, ep_ip_address r, ep_status r) \<in> set (published w7)"
    if "r \<in> set (endpoints w7)" "ep_status r \<in> {''denied'', ''quarantined''}" for r
  proof -
    have "(ep_mac_address r, ep_ip_address r, ep_status r) \<in> set rows"
      using that by (auto simp: rows_def e7)
    with w5(3) p57 show ?thesis by auto
  qed
  moreover have "ip_rules w5 = ip_rules w"
    using w1(2) w2(3) w3(2) w4(2) w5(2) by (simp add: later_def)
  then have "set (rule_command (ir_ip_cidr r, ir_action r)) \<subseteq> set (published w7)"
    if "r \<in> set (ip_rules w)" "ir_enabled r" for r
    using that w7(3) by (auto simp: rules_def)
  moreover have "endpoints w7 = update_rows needs_reauth
        (\<lambda>r. r\<lparr>ep_status := ''quarantined'', ep_username := None\<rparr>) (endpoints w)"
    using e7 w3(2) w2(4) w1(2) by (simp add: later_def)
  ultimately show ?thesis using run by blast
qed

end
