(* ===== verification/PmEvaluate.thy ===== *)
theory PmEvaluate
  imports PmPosture "HOL-Library.Multiset"
begin

text \<open>
  The bulk evaluation of the policies, \<^verbatim>\<open>services/policy-manager/src/api/evaluate.rs\<close>: its
  own matcher over the stored rows, with the posture data, the comparison of versions, and the
  handler that applies the policies to every endpoint. The lemmas give the exact effect of the
  handler when every statement goes through, and relate its matcher to the one of the engine.
\<close>

section \<open>Versions\<close>

datatype ordering = Less | Equal | Greater

definition parse_version :: "string \<Rightarrow> nat list" where
  "parse_version s = List.map_filter (from_str_radix 10 (2 ^ 64)) (split_on CHR ''.'' s)"

definition nth_or_0 :: "nat list \<Rightarrow> nat \<Rightarrow> nat" where
  "nth_or_0 xs i = (if i < length xs then xs ! i else 0)"

function compare_from :: "nat list \<Rightarrow> nat list \<Rightarrow> nat \<Rightarrow> ordering" where
  "compare_from va vb i =
     (if i < max (length va) (length vb) then
        (let x = nth_or_0 va i; y = nth_or_0 vb i in
         if x < y then Less else if y < x then Greater else compare_from va vb (i + 1))
      else Equal)"
  by pat_completeness auto
termination
  by (relation "measure (\<lambda>(va, vb, i). max (length va) (length vb) - i)") auto

declare compare_from.simps [simp del]

definition compare_os_version :: "string \<Rightarrow> string \<Rightarrow> ordering" where
  "compare_os_version a b = compare_from (parse_version a) (parse_version b) 0"

section \<open>The matcher over rows\<close>

definition installed_software_list :: "pg \<Rightarrow> endpoint_row \<Rightarrow> software_item list" where
  "installed_software_list db ep =
     runwrap_or [] (Option.bind (ep_posture_sw ep) (software_from_json db))"

definition ep_version :: "endpoint_row \<Rightarrow> string" where
  "ep_version ep = runwrap_or [] (opt_or (ep_posture_os_version ep) (ep_os_version ep))"

definition has_software :: "pg \<Rightarrow> endpoint_row \<Rightarrow> string \<Rightarrow> bool" where
  "has_software db ep name =
     list_ex (\<lambda>s. contains (to_lowercase name) (to_lowercase (sw_name s))) (installed_software_list db ep)"

fun condition_matches :: "pg \<Rightarrow> condition \<Rightarrow> endpoint_row \<Rightarrow> bool" where
  "condition_matches db (And cs) ep =
     (if cs = [] then True else list_all (\<lambda>c. condition_matches db c ep) cs)"
| "condition_matches db (Or cs) ep = list_ex (\<lambda>c. condition_matches db c ep) cs"
| "condition_matches db (Not c) ep = (\<not> condition_matches db c ep)"
| "condition_matches db (OsFamily v) ep =
     (case ep_os_family ep of None \<Rightarrow> False | Some os \<Rightarrow> eq_ignore_ascii_case os v)"
| "condition_matches db (DeviceType v) ep =
     (case ep_device_type ep of None \<Rightarrow> False | Some d \<Rightarrow> eq_ignore_ascii_case d v)"
| "condition_matches db (Compliant req) ep = (runwrap_or False (ep_is_compliant ep) = req)"
| "condition_matches db (MacList ms) ep =
     list_ex (\<lambda>m. eq_ignore_ascii_case m (ep_mac_address ep)) ms"
| "condition_matches db (MacBlacklist ms) ep =
     list_ex (\<lambda>m. eq_ignore_ascii_case m (ep_mac_address ep)) ms"
| "condition_matches db (UserGroup gs) ep = False"
| "condition_matches db (OsVersionBelow v) ep = (compare_os_version (ep_version ep) v = Less)"
| "condition_matches db (OsVersionAtLeast v) ep = (compare_os_version (ep_version ep) v \<noteq> Less)"
| "condition_matches db (SoftwareInstalled n) ep = has_software db ep n"
| "condition_matches db (SoftwareNotInstalled n) ep = (\<not> has_software db ep n)"
| "condition_matches db HasMissingPatches ep = (0 < ep_posture_missing_patches ep)"
| "condition_matches db UsbEnabled ep = runwrap_or False (ep_posture_usb_enabled ep)"
| "condition_matches db BluetoothEnabled ep = runwrap_or False (ep_posture_bluetooth ep)"
| "condition_matches db FolderSharingEnabled ep = runwrap_or False (ep_posture_folder_sharing ep)"

section \<open>The handler\<close>

fun find_status :: "pg \<Rightarrow> (uuid \<times> policy_rule) list \<Rightarrow> endpoint_row \<Rightarrow> string option" where
  "find_status db [] ep = None"
| "find_status db ((i, rule) # rest) ep =
     (if condition_matches db (pr_condition rule) ep then Some (decision_to_status (pr_decision rule))
      else find_status db rest ep)"

text \<open>The index of a rule by identifier: a later pair of the collected map overwrites an earlier one.\<close>

definition assigned_status :: "pg \<Rightarrow> (uuid \<times> policy_rule) list \<Rightarrow> uuid \<Rightarrow> string option io" where
  "assigned_status db rules pid =
     (case map_of (rev rules) pid of
        Some rule \<Rightarrow> io_return (Some (decision_to_status (pr_decision rule)))
      | None \<Rightarrow>
          io_bind (io_ok (po_find_rule_by_id db pid)) (\<lambda>r.
            io_return (map_option (\<lambda>rule. decision_to_status (pr_decision rule)) (flatten r))))"

fun evaluate_loop ::
  "pg \<Rightarrow> (uuid \<times> policy_rule) list \<Rightarrow> string option \<Rightarrow> endpoint_row list \<Rightarrow> nat \<Rightarrow> nat \<Rightarrow> (nat \<times> nat) io"
where
  "evaluate_loop db rules dflt [] changed skipped = io_return (changed, skipped)"
| "evaluate_loop db rules dflt (ep # eps) changed skipped =
     (if ep_policy_exempt ep then evaluate_loop db rules dflt eps changed (skipped + 1)
      else
        io_bind
          (case ep_assigned_policy_id ep of
             Some pid \<Rightarrow> assigned_status db rules pid
           | None \<Rightarrow> io_return (find_status db rules ep)) (\<lambda>new_status.
        case opt_or new_status dflt of
          None \<Rightarrow> evaluate_loop db rules dflt eps changed skipped
        | Some status \<Rightarrow>
            if ep_status ep \<noteq> status then
              io_seq (ep_set_status (ep_id ep) status)
             (io_seq (io_ok (nats_publish (Enforcement (status_command ep status))))
                (evaluate_loop db rules dflt eps (changed + 1) skipped))
            else evaluate_loop db rules dflt eps changed skipped))"

record evaluate_result =
  ev_evaluated :: nat
  ev_changed :: nat
  ev_skipped :: nat

definition evaluate_policies :: "pg \<Rightarrow> string option \<Rightarrow> evaluate_result io" where
  "evaluate_policies db dflt =
     io_bind (po_load_rules_with_id db) (\<lambda>rules.
     io_bind (ep_list 10000 0) (\<lambda>eps.
     io_bind (evaluate_loop db rules dflt eps 0 0) (\<lambda>(changed, skipped).
       io_return \<lparr>ev_evaluated = length eps, ev_changed = changed, ev_skipped = skipped\<rparr>)))"

section \<open>The version order\<close>

text \<open>Specification: the first difference of the two lists, padded with zeros.\<close>

lemma compare_from_spec:
  "compare_from va vb i =
     (if \<exists>j \<ge> i. nth_or_0 va j \<noteq> nth_or_0 vb j then
        (let j = (LEAST j. i \<le> j \<and> nth_or_0 va j \<noteq> nth_or_0 vb j) in
         if nth_or_0 va j < nth_or_0 vb j then Less else Greater)
      else Equal)"
proof (induction va vb i rule: compare_from.induct)
  case (1 va vb i)
  show ?case
  proof (cases "i < max (length va) (length vb)")
    case False
    then have "\<forall>j \<ge> i. nth_or_0 va j = nth_or_0 vb j" by (auto simp: nth_or_0_def)
    with False show ?thesis by (subst compare_from.simps) auto
  next
    case True
    show ?thesis
    proof (cases "nth_or_0 va i = nth_or_0 vb i")
      case False
      then have "(LEAST j. i \<le> j \<and> nth_or_0 va j \<noteq> nth_or_0 vb j) = i"
        by (intro Least_equality) auto
      with False True show ?thesis by (subst compare_from.simps) (auto simp: Let_def)
    next
      case eq: True
      have iff: "i \<le> j \<and> nth_or_0 va j \<noteq> nth_or_0 vb j \<longleftrightarrow> i + 1 \<le> j \<and> nth_or_0 va j \<noteq> nth_or_0 vb j" for j
        using eq by (cases "j = i") auto
      have "compare_from va vb i = compare_from va vb (i + 1)"
        using True eq by (subst compare_from.simps) (simp add: Let_def)
      also have "\<dots> = (if \<exists>j. i + 1 \<le> j \<and> nth_or_0 va j \<noteq> nth_or_0 vb j then
        (let j = (LEAST j. i + 1 \<le> j \<and> nth_or_0 va j \<noteq> nth_or_0 vb j) in
         if nth_or_0 va j < nth_or_0 vb j then Less else Greater) else Equal)"
        using 1 True eq by simp
      finally show ?thesis unfolding iff [symmetric] .
    qed
  qed
qed

lemma compare_from_swap:
  "compare_from vb va i = (case compare_from va vb i of Less \<Rightarrow> Greater | Equal \<Rightarrow> Equal | Greater \<Rightarrow> Less)"
proof (induction va vb i rule: compare_from.induct)
  case (1 va vb i)
  show ?case
    using 1 by (subst (1 2) compare_from.simps) (auto simp: Let_def max.commute)
qed

lemma compare_from_Less_trans:
  "compare_from va vb i = Less \<Longrightarrow> compare_from vb vc i \<noteq> Greater \<Longrightarrow> compare_from va vc i = Less"
proof (induction "max (max (length va) (length vb)) (length vc) - i" arbitrary: i rule: less_induct)
  case less
  have step: "compare_from xs ys i =
     (if nth_or_0 xs i < nth_or_0 ys i then Less else if nth_or_0 ys i < nth_or_0 xs i then Greater
      else if i < max (length xs) (length ys) then compare_from xs ys (i + 1) else Equal)" for xs ys
    by (subst compare_from.simps) (auto simp: Let_def nth_or_0_def)
  consider "nth_or_0 va i < nth_or_0 vb i" | "nth_or_0 va i = nth_or_0 vb i"
    using less.prems(1) step [of va vb] by (auto split: if_splits)
  then show ?case
  proof cases
    case 1
    moreover have "nth_or_0 vb i \<le> nth_or_0 vc i"
      using less.prems(2) step [of vb vc] by (auto split: if_splits)
    ultimately show ?thesis using step [of va vc] by simp
  next
    case 2
    have "i < max (length va) (length vb)" and ab: "compare_from va vb (i + 1) = Less"
      using less.prems(1) 2 step [of va vb] by (auto split: if_splits)
    consider "nth_or_0 vb i < nth_or_0 vc i" | "nth_or_0 vb i = nth_or_0 vc i"
      using less.prems(2) step [of vb vc] by (fastforce split: if_splits)
    then show ?thesis
    proof cases
      case 1
      with 2 step [of va vc] show ?thesis by simp
    next
      case eq: 2
      have "compare_from vb vc (i + 1) \<noteq> Greater"
        using less.prems(2) eq step [of vb vc]
        by (cases "i < max (length vb) (length vc)") (auto simp: compare_from.simps [of vb vc "Suc i"])
      then have "compare_from va vc (i + 1) = Less"
        using less.hyps [of "i + 1"] ab \<open>i < max (length va) (length vb)\<close> by simp
      moreover from this have "i < max (length va) (length vc)"
        by (subst (asm) compare_from.simps) (auto split: if_splits)
      ultimately show ?thesis using 2 eq step [of va vc] by simp
    qed
  qed
qed

section \<open>What the handler does\<close>

text \<open>The status an endpoint is to have, from the policies as they are stored.\<close>

definition target ::
  "pg \<Rightarrow> (uuid \<times> policy_rule) list \<Rightarrow> policy_row list \<Rightarrow> string option \<Rightarrow> endpoint_row \<Rightarrow> string option"
where
  "target db rules rows dflt ep =
     (if ep_policy_exempt ep then None
      else opt_or
        (case ep_assigned_policy_id ep of
           None \<Rightarrow> find_status db rules ep
         | Some pid \<Rightarrow>
             (case map_of (rev rules) pid of
                Some rule \<Rightarrow> Some (decision_to_status (pr_decision rule))
              | None \<Rightarrow>
                  (case find_row (\<lambda>p. po_id p = pid) rows of
                     None \<Rightarrow> None
                   | Some row \<Rightarrow>
                       (case to_policy_rule db row of
                          Ok rule \<Rightarrow> Some (decision_to_status (pr_decision rule))
                        | _ \<Rightarrow> None)))) dflt)"

definition new_status :: "string option \<Rightarrow> endpoint_row \<Rightarrow> string" where
  "new_status t ep = (case t of None \<Rightarrow> ep_status ep | Some s \<Rightarrow> s)"

lemma find_status_ok: "find_status db rules ep = Some s \<Longrightarrow> s \<in> set statuses"
  by (induction db rules ep rule: find_status.induct) (auto split: if_splits)

lemma target_ok: "target db rules rows dflt ep = Some s \<Longrightarrow> set_option dflt \<subseteq> set statuses \<Longrightarrow> s \<in> set statuses"
  by (auto simp: target_def opt_or_eq_Some find_status_ok split: if_splits option.splits rust.splits)

text \<open>The rows of the other tables, and a schedule in which everything goes through.\<close>

definition calm_world :: "policy_row list \<Rightarrow> world \<Rightarrow> bool" where
  "calm_world rows w \<longleftrightarrow> schedule w = [] \<and> policies w = rows"

lemma calm_tick [simp]: "calm_world rows w \<Longrightarrow> calm_world rows (tick w)"
  by (simp add: calm_world_def)

lemma assigned_status_calm:
  assumes "calm_world rows w"
  obtains w' where "assigned_status db rules pid w =
      (Ok (case map_of (rev rules) pid of
                Some rule \<Rightarrow> Some (decision_to_status (pr_decision rule))
              | None \<Rightarrow>
                  (case find_row (\<lambda>p. po_id p = pid) rows of
                     None \<Rightarrow> None
                   | Some row \<Rightarrow>
                       (case to_policy_rule db row of
                          Ok rule \<Rightarrow> Some (decision_to_status (pr_decision rule))
                        | _ \<Rightarrow> None))), w')"
    and "calm_world rows w'" and "endpoints w' = endpoints w" and "published w' = published w"
proof (cases "map_of (rev rules) pid")
  case (Some r)
  then show thesis using assms that [of w] by (simp add: assigned_status_def io_return_def)
next
  case None
  have np: "to_policy_rule db row \<noteq> Panic" for row
    by (auto simp: to_policy_rule_def Let_def split: option.splits)
  from None assms show thesis
    using that [of "tick w"] np
    by (auto simp: assigned_status_def io_bind_def io_return_def io_ok_def po_find_rule_by_id_def
      po_find_by_id_def stmt_delivered calm_world_def flatten_def split: option.splits rust.splits)
qed

fun applied :: "(endpoint_row \<Rightarrow> string option) \<Rightarrow> endpoint_row list \<Rightarrow> endpoint_row list \<Rightarrow> endpoint_row list" where
  "applied t [] rows = rows"
| "applied t (e # es) rows = applied t es
     (if new_status (t e) e \<noteq> ep_status e
      then update_rows (\<lambda>r. ep_id r = ep_id e) (\<lambda>r. r\<lparr>ep_status := new_status (t e) e\<rparr>) rows else rows)"

definition changed_eps :: "(endpoint_row \<Rightarrow> string option) \<Rightarrow> endpoint_row list \<Rightarrow> endpoint_row list" where
  "changed_eps t es = filter (\<lambda>e. new_status (t e) e \<noteq> ep_status e) es"

definition commands :: "(endpoint_row \<Rightarrow> string option) \<Rightarrow> endpoint_row list \<Rightarrow> nats_message list" where
  "commands t es = map (\<lambda>e. Enforcement (status_command e (new_status (t e) e))) (changed_eps t es)"

lemma set_status_calm:
  assumes "calm_world rows w" and "s \<in> set statuses"
  obtains w' where "ep_set_status i s w = (Ok (), w')" and "calm_world rows w'"
    and "endpoints w' = update_rows (\<lambda>r. ep_id r = i) (\<lambda>r. r\<lparr>ep_status := s\<rparr>) (endpoints w)"
    and "published w' = published w"
  using assms that by (simp add: ep_set_status_def stmt_delivered calm_world_def update_endpoint_def)

lemma publish_calm:
  assumes "calm_world rows w"
  obtains w' where "io_ok (nats_publish m) w = (Ok (Some ()), w')" and "calm_world rows w'"
    and "endpoints w' = endpoints w" and "published w' = published w @ [m]"
  using assms that by (simp add: nats_publish_def io_ok_def stmt_delivered calm_world_def)

lemma evaluate_loop_calm:
  fixes db rules rows dflt
  defines "t \<equiv> target db rules rows dflt"
  assumes "set_option dflt \<subseteq> set statuses"
  shows "calm_world rows w \<Longrightarrow>
    \<exists>w'. evaluate_loop db rules dflt eps c s w =
        (Ok (c + length (changed_eps t eps), s + length (filter ep_policy_exempt eps)), w') \<and>
      calm_world rows w' \<and> endpoints w' = applied t eps (endpoints w) \<and>
      published w' = published w @ commands t eps"
proof (induction eps arbitrary: c s w)
  case Nil
  then show ?case by (simp add: io_return_def changed_eps_def commands_def)
next
  case (Cons e es)
  show ?case
  proof (cases "ep_policy_exempt e")
    case True
    then have "t e = None" by (simp add: t_def target_def)
    with True Cons.IH [OF Cons.prems, of c "s + 1"] show ?thesis
      by (simp add: changed_eps_def commands_def new_status_def)
  next
    case False
    let ?m = "case ep_assigned_policy_id e of
             Some pid \<Rightarrow> assigned_status db rules pid
           | None \<Rightarrow> io_return (find_status db rules e)"
    obtain x w1 where m: "?m w = (Ok x, w1)" "opt_or x dflt = t e" "calm_world rows w1"
      "endpoints w1 = endpoints w" "published w1 = published w"
    proof (cases "ep_assigned_policy_id e")
      case None
      with Cons.prems False that show thesis by (simp add: io_return_def t_def target_def)
    next
      case (Some pid)
      show thesis
        by (rule assigned_status_calm [OF Cons.prems, of db rules pid])
          (use Some False that in \<open>simp add: t_def target_def\<close>)
    qed
    show ?thesis
    proof (cases "new_status (t e) e = ep_status e")
      case True
      then have "evaluate_loop db rules dflt (e # es) c s w = evaluate_loop db rules dflt es c s w1"
        using False m(1,2) by (auto simp: io_bind_def new_status_def split: option.split)
      with True Cons.IH [OF m(3), of c s] m False show ?thesis
        by (simp add: changed_eps_def commands_def)
    next
      case differ: False
      then obtain st where st: "t e = Some st" "st \<noteq> ep_status e"
        by (cases "t e") (auto simp: new_status_def)
      then have "st \<in> set statuses" using assms target_ok unfolding t_def by blast
      then obtain w2 where w2: "ep_set_status (ep_id e) st w1 = (Ok (), w2)" "calm_world rows w2"
        "endpoints w2 = update_rows (\<lambda>r. ep_id r = ep_id e) (\<lambda>r. r\<lparr>ep_status := st\<rparr>) (endpoints w1)"
        "published w2 = published w1"
        by (rule set_status_calm [OF m(3)])
      obtain w3 where w3: "io_ok (nats_publish (Enforcement (status_command e st))) w2 = (Ok (Some ()), w3)"
        "calm_world rows w3" "endpoints w3 = endpoints w2"
        "published w3 = published w2 @ [Enforcement (status_command e st)]"
        by (rule publish_calm [OF w2(2)])
      have "evaluate_loop db rules dflt (e # es) c s w = evaluate_loop db rules dflt es (c + 1) s w3"
        using False m(1,2) st w2(1) w3(1) by (auto simp: io_bind_def io_seq_def)
      with Cons.IH [OF w3(2), of "c + 1" s] m w2 w3 st differ False show ?thesis
        by (simp add: changed_eps_def commands_def new_status_def)
    qed
  qed
qed

lemma applied_map:
  "distinct (map ep_id es) \<Longrightarrow>
   applied t es rows = map (\<lambda>r. case List.find (\<lambda>e. ep_id e = ep_id r) es of
       None \<Rightarrow> r
     | Some e \<Rightarrow> if new_status (t e) e \<noteq> ep_status e then r\<lparr>ep_status := new_status (t e) e\<rparr> else r) rows"
proof (induction es arbitrary: rows)
  case (Cons e es)
  have none: "List.find (\<lambda>e'. ep_id e' = ep_id e) es = None"
    using Cons.prems by (simp add: find_None_iff) (metis image_eqI)
  show ?case
    using Cons none by (auto simp: update_rows_def split: option.split)
qed simp

lemma applied_all:
  assumes "distinct (map ep_id rows)" and "mset es = mset rows"
  shows "applied t es rows = map (\<lambda>r. r\<lparr>ep_status := new_status (t r) r\<rparr>) rows"
proof -
  have "mset (map ep_id es) = mset (map ep_id rows)" using assms(2) by simp
  then have d: "distinct (map ep_id es)" using assms(1) mset_eq_imp_distinct_iff by blast
  have "List.find (\<lambda>e. ep_id e = ep_id r) es = Some r" if "r \<in> set rows" for r
  proof -
    have "r \<in> set es" using that assms(2) mset_eq_setD by blast
    then show ?thesis
      using d by (induction es) (auto simp: image_iff)
  qed
  then show ?thesis
    unfolding applied_map [OF d] by (intro map_cong refl) auto
qed

lemma filter_length_eq:
  assumes "mset xs = mset ys"
  shows "length (filter P xs) = length (filter P ys)"
proof -
  have "mset (filter P xs) = mset (filter P ys)" using assms by simp
  then show ?thesis by (rule mset_eq_length)
qed

text \<open>
  With a consistent database of at most ten thousand endpoints, rules that can be read and a default
  that is a status, the handler gives every endpoint the status the policies name, changes nothing
  else in the table, and publishes a command for exactly the endpoints whose status changed.
\<close>

lemma evaluate_policies_applies:
  assumes "schedule w = []" and "store_inv w" and "length (endpoints w) \<le> 10000"
    and "set_option dflt \<subseteq> set statuses"
    and "collect_rules db (enabled_policies w) = Ok rules"
  defines "t \<equiv> target db (zip (map po_id (enabled_policies w)) rules) (policies w) dflt"
  defines "order \<equiv> sort_key (\<lambda>r. - ep_last_seen r) (endpoints w)"
  shows "\<exists>w'. evaluate_policies db dflt w =
      (Ok \<lparr>ev_evaluated = length (endpoints w), ev_changed = length (changed_eps t (endpoints w)),
           ev_skipped = length (filter ep_policy_exempt (endpoints w))\<rparr>, w') \<and>
    endpoints w' = map (\<lambda>r. r\<lparr>ep_status := new_status (t r) r\<rparr>) (endpoints w) \<and>
    published w' = published w @ commands t order"
proof -
  let ?rules = "zip (map po_id (enabled_policies w)) rules"
  let ?w1 = "tick (tick w)"
  have order: "mset order = mset (endpoints w)" by (simp add: order_def)
  have len: "length order = length (endpoints w)"
    "length (changed_eps t order) = length (changed_eps t (endpoints w))"
    "length (filter ep_policy_exempt order) = length (filter ep_policy_exempt (endpoints w))"
    unfolding changed_eps_def by (rule mset_eq_length filter_length_eq, rule order)+
  have load: "po_load_rules_with_id db w = (Ok ?rules, tick w)"
    using assms(1,5) by (simp add: po_load_rules_with_id_def io_bind_def stmt_delivered enabled_policies_def)
  have list: "ep_list 10000 0 (tick w) = (Ok order, ?w1)"
    using assms(1,3) by (simp add: ep_list_def stmt_delivered page_def order_def)
  have calm: "calm_world (policies w) ?w1" using assms(1) by (simp add: calm_world_def)
  obtain w' where w': "evaluate_loop db ?rules dflt order 0 0 ?w1 =
        (Ok (length (changed_eps t order), length (filter ep_policy_exempt order)), w')"
      "endpoints w' = applied t order (endpoints w)" "published w' = published w @ commands t order"
    using evaluate_loop_calm [OF assms(4) calm, of db ?rules order 0 0] unfolding t_def by auto
  have "distinct (map ep_id (endpoints w))"
    using assms(2) by (simp add: store_inv_def endpoints_ok_def)
  with w' order have "endpoints w' = map (\<lambda>r. r\<lparr>ep_status := new_status (t r) r\<rparr>) (endpoints w)"
    by (simp add: applied_all)
  with w' load list len show ?thesis
    by (simp add: evaluate_policies_def io_bind_def io_return_def)
qed

text \<open>An exempt endpoint keeps its status whatever the policies and the default are.\<close>

lemma exempt_kept: "ep_policy_exempt e \<Longrightarrow> new_status (target db rules rows dflt e) e = ep_status e"
  by (simp add: target_def new_status_def)

section \<open>The two matchers\<close>

text \<open>
  On conditions about addresses, on texts of the same case and on known verdicts, the two matchers
  agree; the engine knows nothing of posture.
\<close>

fun shared_condition :: "condition \<Rightarrow> endpoint_row \<Rightarrow> bool" where
  "shared_condition (And cs) ep = list_all (\<lambda>c. shared_condition c ep) cs"
| "shared_condition (Or cs) ep = list_all (\<lambda>c. shared_condition c ep) cs"
| "shared_condition (Not c) ep = shared_condition c ep"
| "shared_condition (MacList ms) ep = True"
| "shared_condition (MacBlacklist ms) ep = True"
| "shared_condition (OsFamily v) ep =
     (\<forall>os. ep_os_family ep = Some os \<longrightarrow> to_lowercase os = to_lowercase v \<longrightarrow> os = v)"
| "shared_condition (DeviceType v) ep =
     (\<forall>d. ep_device_type ep = Some d \<longrightarrow> to_lowercase d = to_lowercase v \<longrightarrow> d = v)"
| "shared_condition (Compliant req) ep = (ep_is_compliant ep \<noteq> None)"
| "shared_condition c ep = False"

lemma matchers_agree:
  "shared_condition c ep \<Longrightarrow> condition_matches db c ep =
     matches_condition c (endpoint_context ep (ep_os_family ep) u gs (ep_is_compliant ep))"
proof (induction c)
  case (And cs) then show ?case by (auto simp: list_all_iff)
next
  case (Or cs) then show ?case by (auto simp: list_all_iff list_ex_iff)
qed (auto simp: endpoint_context_def upper_eq_iff_lower_eq runwrap_or_def eq_ignore_ascii_case_def split: option.splits)

end
