(* ===== verification/PmApi.thy ===== *)
theory PmApi
  imports PmEvaluate PmBackground
begin

text \<open>
  The HTTP handlers of the policy manager, \<^verbatim>\<open>services/policy-manager/src/api\<close>: endpoints,
  policies, users, IP rules, the audit log, statistics and the host list. A handler returns
  \<open>Inl\<close> of a message for \<^verbatim>\<open>AppError::NotFound\<close> and fails for a database error. Extractors,
  routing and serialisation are the web framework's.
\<close>

section \<open>Errors and responses\<close>

type_synonym 'a api = "(string + 'a) io"

definition not_found :: "string \<Rightarrow> 'a api" where
  "not_found m = io_return (Inl m)"

definition respond :: "'a \<Rightarrow> 'a api" where
  "respond x = io_return (Inr x)"

definition into_response :: "nat \<Rightarrow> (store_error, string + 'a) rust \<Rightarrow> (nat \<times> string option) option" where
  "into_response ok r =
     (case r of
        Ok (Inr x) \<Rightarrow> Some (ok, None)
      | Ok (Inl m) \<Rightarrow> Some (404, Some m)
      | Err e \<Rightarrow> Some (500, Some ''internal server error'')
      | Panic \<Rightarrow> None)"

definition show_id :: "uuid \<Rightarrow> string" where
  "show_id i = dec i"

definition quoted :: "string \<Rightarrow> string" where
  "quoted s = [CHR 0x27] @ s @ [CHR 0x27]"

section \<open>Endpoints\<close>

definition clamp :: "int \<Rightarrow> int \<Rightarrow> int \<Rightarrow> int" where
  "clamp lo hi x = max lo (min hi x)"

text \<open>\<^verbatim>\<open>try_join!\<close> runs two statements at once; one order of them is taken here.\<close>

definition list_endpoints :: "int \<Rightarrow> int \<Rightarrow> (int \<times> int \<times> int \<times> endpoint_row list) api" where
  "list_endpoints limit0 offset0 =
     (let limit = clamp 1 200 limit0; offset = max 0 offset0 in
      io_bind ep_count (\<lambda>total.
      io_bind (ep_list limit offset) (\<lambda>items.
        respond (total, limit, offset, items))))"

definition get_endpoint :: "uuid \<Rightarrow> endpoint_row api" where
  "get_endpoint i =
     io_bind (ep_find_by_id i) (\<lambda>e.
       case e of Some ep \<Rightarrow> respond ep
       | None \<Rightarrow> not_found (''endpoint '' @ show_id i @ '' not found''))"

definition get_endpoint_by_mac :: "pg \<Rightarrow> string \<Rightarrow> endpoint_row api" where
  "get_endpoint_by_mac db mac =
     io_bind (ep_find_by_mac db mac) (\<lambda>e.
       case e of Some ep \<Rightarrow> respond ep
       | None \<Rightarrow> not_found (''endpoint with MAC '' @ mac @ '' not found''))"

definition update_endpoint_status :: "uuid \<Rightarrow> string \<Rightarrow> string \<Rightarrow> endpoint_row api" where
  "update_endpoint_status i status event =
     io_bind (ep_find_by_id i) (\<lambda>found.
     case found of
       None \<Rightarrow> not_found (''endpoint '' @ show_id i @ '' not found'')
     | Some ep \<Rightarrow>
         io_seq (ep_set_status i status)
        (io_seq (audit event (Some i) ''api'' (JObj [(''status'', JStr status)]))
        (io_seq (io_ok (nats_publish (Enforcement
           \<lparr>cmd_mac_address = ep_mac_address ep,
            cmd_ip_address = before_char CHR ''/'' (runwrap_or [] (ep_ip_address ep)),
            cmd_action = status, cmd_gateway_ip = [], cmd_gateway_mac = None, cmd_vlan_id = None\<rparr>)))
        (get_endpoint i))))"

definition allow_endpoint :: "uuid \<Rightarrow> endpoint_row api" where
  "allow_endpoint i = update_endpoint_status i ''allowed'' ''endpoint_allowed''"

definition block_endpoint :: "uuid \<Rightarrow> endpoint_row api" where
  "block_endpoint i = update_endpoint_status i ''denied'' ''endpoint_blocked''"

definition quarantine_endpoint :: "uuid \<Rightarrow> endpoint_row api" where
  "quarantine_endpoint i = update_endpoint_status i ''quarantined'' ''endpoint_quarantined''"

definition juuid :: "uuid option \<Rightarrow> json" where
  "juuid x = (case x of None \<Rightarrow> JNull | Some i \<Rightarrow> JStr (show_id i))"

definition assign_policy :: "uuid \<Rightarrow> uuid option \<Rightarrow> endpoint_row api" where
  "assign_policy i policy_id =
     io_bind (ep_find_by_id i) (\<lambda>found.
     case found of
       None \<Rightarrow> not_found (''endpoint '' @ show_id i @ '' not found'')
     | Some _ \<Rightarrow>
         io_seq (ep_set_policy i policy_id)
        (io_seq (audit ''endpoint_policy_assigned'' (Some i) ''api''
            (JObj [(''policy_id'', juuid policy_id)]))
        (get_endpoint i)))"

definition set_exempt :: "uuid \<Rightarrow> bool \<Rightarrow> endpoint_row api" where
  "set_exempt i exempt =
     io_bind (ep_find_by_id i) (\<lambda>found.
     case found of
       None \<Rightarrow> not_found (''endpoint '' @ show_id i @ '' not found'')
     | Some _ \<Rightarrow>
         io_seq (ep_set_exempt i exempt)
        (io_seq (audit (if exempt then ''endpoint_policy_exempted'' else ''endpoint_policy_unexempted'')
            (Some i) ''api'' (JObj [(''exempt'', JBool exempt)]))
        (get_endpoint i)))"

section \<open>Policies\<close>

definition list_policies :: "policy_row list api" where
  "list_policies = io_bind po_list_all respond"

definition get_policy :: "uuid \<Rightarrow> policy_row api" where
  "get_policy i =
     io_bind (po_find_by_id i) (\<lambda>p.
       case p of Some row \<Rightarrow> respond row
       | None \<Rightarrow> not_found (''policy '' @ show_id i @ '' not found''))"

definition api_create_policy :: "create_policy \<Rightarrow> policy_row api" where
  "api_create_policy body = io_bind (po_create body) respond"

definition api_update_policy :: "uuid \<Rightarrow> update_policy \<Rightarrow> policy_row api" where
  "api_update_policy i body =
     io_bind (po_update i body) (\<lambda>p.
       case p of Some row \<Rightarrow> respond row
       | None \<Rightarrow> not_found (''policy '' @ show_id i @ '' not found''))"

definition delete_policy :: "uuid \<Rightarrow> unit api" where
  "delete_policy i =
     io_bind (po_delete i) (\<lambda>b.
       if b then respond () else not_found (''policy '' @ show_id i @ '' not found''))"

section \<open>Users\<close>

record user_response =
  ur_id :: uuid
  ur_username :: string
  ur_role :: string
  ur_enabled :: bool

definition user_view :: "user_row \<Rightarrow> user_response" where
  "user_view u = \<lparr>ur_id = us_id u, ur_username = us_username u, ur_role = us_role u, ur_enabled = us_enabled u\<rparr>"

definition list_users :: "user_response list api" where
  "list_users = io_bind (stmt (\<lambda>w. (Ok (map user_view (sort_key us_created_at (nac_users w))), w))) respond"

definition user_roles :: "string list" where
  "user_roles = [''admin'', ''user'']"

definition insert_user :: "string \<Rightarrow> string \<Rightarrow> string \<Rightarrow> (string + user_row) io" where
  "insert_user name hash role = stmt (\<lambda>w.
     if list_ex (\<lambda>u. us_username u = name) (nac_users w) then (Ok (Inl ''unique''), w)
     else if role \<notin> set user_roles then (Err (CheckViolation ''role''), w)
     else
       (let u = \<lparr>us_id = fresh w, us_username = name, us_password_hash = hash, us_role = role,
              us_enabled = True, us_created_at = clock w\<rparr>
        in (Ok (Inr u), w\<lparr>nac_users := nac_users w @ [u], fresh := fresh w + 1\<rparr>)))"

text \<open>
  \<^verbatim>\<open>hash_password\<close> draws a salt; it is an argument. The password is measured in bytes.
\<close>

definition create_user :: "(string \<Rightarrow> string option) \<Rightarrow> string \<Rightarrow> string \<Rightarrow> string \<Rightarrow> user_response api" where
  "create_user hash_password username password role =
     (if trim username = [] \<or> length password < 8 then
        not_found ''username required and password must be at least 8 characters''
      else if role \<noteq> ''admin'' \<and> role \<noteq> ''user'' then not_found (''role must be '' @ quoted ''admin'' @ '' or '' @ quoted ''user'')
      else case hash_password password of
          None \<Rightarrow> io_fail (InvalidCast ''password hashing failed'')
        | Some hash \<Rightarrow>
            io_bind (insert_user (trim username) hash role) (\<lambda>r.
            case r of Inl _ \<Rightarrow> not_found (''username '' @ quoted username @ '' already exists'')
            | Inr u \<Rightarrow> respond (user_view u)))"

definition rows_affected :: "nat \<Rightarrow> uuid \<Rightarrow> unit api" where
  "rows_affected n i = (if n = 0 then not_found (''user '' @ show_id i @ '' not found'') else respond ())"

definition delete_user :: "uuid \<Rightarrow> unit api" where
  "delete_user i =
     io_bind (stmt (\<lambda>w. (Ok (length (filter (\<lambda>u. us_id u = i) (nac_users w))),
        w\<lparr>nac_users := filter (\<lambda>u. us_id u \<noteq> i) (nac_users w)\<rparr>)))
       (\<lambda>n. rows_affected n i)"

definition update_user :: "uuid \<Rightarrow> (user_row \<Rightarrow> user_row) \<Rightarrow> unit api" where
  "update_user i f =
     io_bind (stmt (\<lambda>w. (Ok (length (filter (\<lambda>u. us_id u = i) (nac_users w))),
        w\<lparr>nac_users := update_rows (\<lambda>u. us_id u = i) f (nac_users w)\<rparr>)))
       (\<lambda>n. rows_affected n i)"

definition change_password :: "(string \<Rightarrow> string option) \<Rightarrow> uuid \<Rightarrow> string \<Rightarrow> unit api" where
  "change_password hash_password i password =
     (if length password < 8 then not_found ''password must be at least 8 characters''
      else case hash_password password of
          None \<Rightarrow> io_fail (InvalidCast ''password hashing failed'')
        | Some hash \<Rightarrow> update_user i (\<lambda>u. u\<lparr>us_password_hash := hash\<rparr>))"

definition set_enabled :: "uuid \<Rightarrow> string \<Rightarrow> unit api" where
  "set_enabled i action =
     (if action = ''enable'' then update_user i (\<lambda>u. u\<lparr>us_enabled := True\<rparr>)
      else if action = ''disable'' then update_user i (\<lambda>u. u\<lparr>us_enabled := False\<rparr>)
      else not_found ''action must be enable or disable'')"

section \<open>IP rules\<close>

definition ip_rule_actions :: "string list" where
  "ip_rule_actions = [''block'', ''quarantine'']"

definition zero_mac :: string where
  "zero_mac = ''00:00:00:00:00:00''"

definition publish_ip_enforcement :: "string \<Rightarrow> string \<Rightarrow> unit io" where
  "publish_ip_enforcement ip action =
     (if action = ''block'' \<or> action = ''quarantine'' \<or> action = ''allow'' then
        io_seq (io_ok (nats_publish (Enforcement
          \<lparr>cmd_mac_address = zero_mac, cmd_ip_address = before_char CHR ''/'' ip, cmd_action = action,
           cmd_gateway_ip = [], cmd_gateway_mac = None, cmd_vlan_id = None\<rparr>))) (io_return ())
      else io_return ())"

definition list_ip_rules :: "ip_rule_row list api" where
  "list_ip_rules = io_bind (stmt (\<lambda>w. (Ok (sort_key (\<lambda>r. - ir_created_at r) (ip_rules w)), w))) respond"

definition insert_ip_rule :: "string \<Rightarrow> string \<Rightarrow> string option \<Rightarrow> (string + ip_rule_row) io" where
  "insert_ip_rule cidr action note = stmt (\<lambda>w.
     if list_ex (\<lambda>r. ir_ip_cidr r = cidr) (ip_rules w) then (Ok (Inl ''unique''), w)
     else if action \<notin> set ip_rule_actions then (Err (CheckViolation ''action''), w)
     else
       (let r = \<lparr>ir_id = fresh w, ir_ip_cidr = cidr, ir_action = action, ir_note = note,
              ir_enabled = True, ir_created_at = clock w\<rparr>
        in (Ok (Inr r), w\<lparr>ip_rules := ip_rules w @ [r], fresh := fresh w + 1\<rparr>)))"

definition create_ip_rule :: "string \<Rightarrow> string \<Rightarrow> string option \<Rightarrow> ip_rule_row api" where
  "create_ip_rule ip_cidr action note =
     (if trim ip_cidr = [] then not_found ''ip_cidr is required''
      else if action \<noteq> ''block'' \<and> action \<noteq> ''quarantine'' then
        not_found (''action must be '' @ quoted ''block'' @ '' or '' @ quoted ''quarantine'')
      else
        io_bind (insert_ip_rule (trim ip_cidr) action note) (\<lambda>r.
        case r of Inl _ \<Rightarrow> not_found (''IP rule for '' @ quoted ip_cidr @ '' already exists'')
        | Inr rule \<Rightarrow>
            io_seq (publish_ip_enforcement (ir_ip_cidr rule) (ir_action rule)) (respond rule)))"

definition delete_ip_rule :: "uuid \<Rightarrow> unit api" where
  "delete_ip_rule i =
     io_bind (stmt (\<lambda>w. (Ok (find_row (\<lambda>r. ir_id r = i) (ip_rules w)),
        w\<lparr>ip_rules := filter (\<lambda>r. ir_id r \<noteq> i) (ip_rules w)\<rparr>))) (\<lambda>row.
     case row of None \<Rightarrow> not_found (''IP rule '' @ show_id i @ '' not found'')
     | Some r \<Rightarrow> io_seq (publish_ip_enforcement (ir_ip_cidr r) ''allow'') (respond ()))"

definition set_ip_rule_enabled :: "uuid \<Rightarrow> string \<Rightarrow> unit api" where
  "set_ip_rule_enabled i action =
     (if action \<noteq> ''enable'' \<and> action \<noteq> ''disable'' then
        not_found (''action must be '' @ quoted ''enable'' @ '' or '' @ quoted ''disable'')
      else
        (let enabled = (action = ''enable'') in
         io_bind (stmt (\<lambda>w. (Ok (find_row (\<lambda>r. ir_id r = i) (ip_rules w)),
            w\<lparr>ip_rules := update_rows (\<lambda>r. ir_id r = i) (\<lambda>r. r\<lparr>ir_enabled := enabled\<rparr>) (ip_rules w)\<rparr>)))
          (\<lambda>row.
         case row of None \<Rightarrow> not_found (''IP rule '' @ show_id i @ '' not found'')
         | Some r \<Rightarrow>
             io_seq (publish_ip_enforcement (ir_ip_cidr r) (if enabled then ir_action r else ''allow''))
               (respond ()))))"

section \<open>Audit log and statistics\<close>

definition list_audit :: "int \<Rightarrow> int \<Rightarrow> uuid option \<Rightarrow> (int \<times> int \<times> int \<times> audit_row list) api" where
  "list_audit limit0 offset0 endpoint =
     (let limit = clamp 1 200 limit0; offset = max 0 offset0 in
      io_bind (audit_count endpoint) (\<lambda>total.
      io_bind (audit_list limit offset endpoint) (\<lambda>items.
        respond (total, limit, offset, items))))"

record stats =
  st_total :: int
  st_allowed :: int
  st_blocked :: int
  st_quarantine :: int
  st_pending :: int
  st_recent_events :: int

definition count_status :: "string \<Rightarrow> world \<Rightarrow> int" where
  "count_status s w = int (length (filter (\<lambda>r. ep_status r = s) (endpoints w)))"

text \<open>The argument is the length of a day in units of the clock.\<close>

definition get_stats :: "int \<Rightarrow> stats api" where
  "get_stats day =
     io_bind (stmt (\<lambda>w. (Ok (int (length (endpoints w)), count_status ''allowed'' w, count_status ''denied'' w,
        count_status ''quarantined'' w, count_status ''pending'' w), w))) (\<lambda>(total, a, b, q, p).
     io_bind (stmt (\<lambda>w. (Ok (int (length (filter (\<lambda>r. clock w - day < au_created_at r) (audit_log w)))), w)))
       (\<lambda>recent. respond \<lparr>st_total = total, st_allowed = a, st_blocked = b, st_quarantine = q,
          st_pending = p, st_recent_events = recent\<rparr>))"

section \<open>The host list\<close>

definition read_arp_table :: "string option \<Rightarrow> (string \<times> string) list" where
  "read_arp_table file =
     (case file of None \<Rightarrow> []
      | Some content \<Rightarrow>
          List.map_filter (\<lambda>line.
            let cols = split_whitespace line in
            if length cols < 4 then None
            else if cols ! 2 = ''0x0'' \<or> cols ! 3 = ''00:00:00:00:00:00'' then None
            else Some (cols ! 0, cols ! 3)) (drop 1 (lines content)))"

fun after_word :: "string \<Rightarrow> string list \<Rightarrow> string option" where
  "after_word x [] = None"
| "after_word x (y # ys) =
     (if y = x then (case ys of [] \<Rightarrow> None | z # _ \<Rightarrow> Some z) else after_word x ys)"

definition read_ip_neigh :: "string option \<Rightarrow> (string \<times> string) list" where
  "read_ip_neigh out =
     (case out of None \<Rightarrow> []
      | Some text \<Rightarrow>
          List.map_filter (\<lambda>line.
            let parts = split_whitespace line in
            if length parts < 5 then None
            else map_option (\<lambda>mac. (parts ! 0, mac)) (after_word ''lladdr'' parts)) (lines text))"

text \<open>
  Arithmetic that overflows panics in a build with overflow checks and wraps in one without; the
  shift then masks its amount.
\<close>

definition subnet_range :: "bool \<Rightarrow> string \<Rightarrow> (string, (string \<times> nat \<times> nat) option) rust" where
  "subnet_range checked cidr =
     (case split_once CHR ''/'' cidr of
        None \<Rightarrow> Ok None
      | Some (net, prefix_str) \<Rightarrow>
          (case from_str_radix 10 256 prefix_str of
             None \<Rightarrow> Ok None
           | Some prefix \<Rightarrow>
               (case split_on CHR ''.'' net of
                  [a, b, c, d] \<Rightarrow>
                    (let base = a @ ''.'' @ b @ ''.'' @ c @ ''.'';
                         host_bits = unat (32 - (of_nat prefix :: u8));
                         shifted = (push_bit (host_bits mod 32) 1 :: u32)
                     in if checked \<and> (32 < prefix \<or> 32 \<le> host_bits \<or> shifted < 2) then Panic
                        else
                          let host_count = shifted - 2
                          in Ok (Some (base, 1, min (unat (1 + host_count - 1)) 254)))
                | _ \<Rightarrow> Ok None)))"

record host_entry =
  he_ip :: string
  he_octet :: nat
  he_mac :: "string option"
  he_hostname :: "string option"
  he_os_family :: "string option"
  he_os_version :: "string option"
  he_device_type :: "string option"
  he_vendor :: "string option"
  he_nac_status :: string
  he_endpoint_id :: "string option"
  he_last_auth_user :: "string option"
  he_arp_active :: bool
  he_last_seen :: "timestamp option"

text \<open>The endpoints by address: a later row with the same address replaces an earlier one.\<close>

definition db_map :: "endpoint_row list \<Rightarrow> string \<Rightarrow> endpoint_row option" where
  "db_map rows = map_of (rev (filter (\<lambda>(ip, r). ip \<noteq> [])
     (map (\<lambda>r. (before_char CHR ''/'' (runwrap_or [] (ep_ip_address r)), r)) rows)))"

definition load_db_endpoints :: "(string \<Rightarrow> endpoint_row option) io" where
  "load_db_endpoints = stmt (\<lambda>w. (Ok (db_map (endpoints w)), w))"

definition host_of ::
  "(string \<Rightarrow> string option) \<Rightarrow> (string \<Rightarrow> endpoint_row option) \<Rightarrow> string \<Rightarrow> nat \<Rightarrow> host_entry"
where
  "host_of arp db base octet =
     (let ip = base @ dec octet; arp_mac = arp ip in
      case db ip of
        Some ep \<Rightarrow>
          \<lparr>he_ip = ip, he_octet = octet, he_mac = opt_or (Some (ep_mac_address ep)) arp_mac,
           he_hostname = ep_hostname ep, he_os_family = ep_os_family ep,
           he_os_version = ep_os_version ep, he_device_type = ep_device_type ep,
           he_vendor = ep_vendor ep, he_nac_status = ep_status ep,
           he_endpoint_id = Some (show_id (ep_id ep)), he_last_auth_user = ep_username ep,
           he_arp_active = (arp_mac \<noteq> None), he_last_seen = Some (ep_last_seen ep)\<rparr>
      | None \<Rightarrow>
          \<lparr>he_ip = ip, he_octet = octet, he_mac = arp_mac, he_hostname = None, he_os_family = None,
           he_os_version = None, he_device_type = None, he_vendor = None,
           he_nac_status = ''unregistered'', he_endpoint_id = None, he_last_auth_user = None,
           he_arp_active = (arp_mac \<noteq> None), he_last_seen = None\<rparr>)"

definition list_hosts ::
  "bool \<Rightarrow> string option \<Rightarrow> string option \<Rightarrow> string \<Rightarrow> host_entry list api"
where
  "list_hosts checked arp_file neigh_out subnet =
     (case subnet_range checked subnet of
        Panic \<Rightarrow> (\<lambda>w. (Panic, w))
      | Err e \<Rightarrow> not_found e
      | Ok None \<Rightarrow> not_found ''invalid subnet format''
      | Ok (Some (base, start, fin)) \<Rightarrow>
          (let arp = map_of (read_arp_table arp_file @ read_ip_neigh neigh_out) in
           io_bind load_db_endpoints (\<lambda>db.
             respond (map (host_of arp db base) [start..<fin + 1]))))"

section \<open>The handlers keep the invariant\<close>

lemma api_endpoint_keeps:
  "keeps store_inv (list_endpoints l f)" "keeps store_inv (get_endpoint i)"
  "keeps store_inv (get_endpoint_by_mac db m)" "keeps store_inv (update_endpoint_status i s e)"
  "keeps store_inv (assign_policy i p)" "keeps store_inv (set_exempt i b)"
  unfolding list_endpoints_def get_endpoint_def get_endpoint_by_mac_def update_endpoint_status_def
    assign_policy_def set_exempt_def Let_def respond_def not_found_def
  by (auto intro!: inv_rules store_keeps split: option.split)

lemma api_policy_keeps:
  "keeps store_inv list_policies" "keeps store_inv (get_policy i)"
  "keeps store_inv (api_create_policy c)" "keeps store_inv (api_update_policy i u)"
  "keeps store_inv (delete_policy i)"
  unfolding list_policies_def get_policy_def api_create_policy_def api_update_policy_def
    delete_policy_def respond_def not_found_def
  by (auto intro!: inv_rules store_keeps split: option.split)

lemma inv_users: "store_inv (w\<lparr>nac_users := u\<rparr>) = store_inv w"
  and inv_users_fresh: "store_inv w \<Longrightarrow> store_inv (w\<lparr>nac_users := u, fresh := fresh w + 1\<rparr>)"
  and inv_rules_table: "store_inv (w\<lparr>ip_rules := r\<rparr>) = store_inv w"
  and inv_rules_fresh: "store_inv w \<Longrightarrow> store_inv (w\<lparr>ip_rules := r, fresh := fresh w + 1\<rparr>)"
  by (auto simp: store_inv_def endpoints_ok_def sessions_ok_def policies_ok_def has_endpoint_def less_SucI)

section \<open>Users and IP rules\<close>

definition users_ok :: "world \<Rightarrow> bool" where
  "users_ok w \<longleftrightarrow>
     distinct (map us_id (nac_users w)) \<and> distinct (map us_username (nac_users w)) \<and>
     (\<forall>u \<in> set (nac_users w). us_role u \<in> set user_roles \<and> us_id u < fresh w)"

definition ip_rules_ok :: "world \<Rightarrow> bool" where
  "ip_rules_ok w \<longleftrightarrow>
     distinct (map ir_id (ip_rules w)) \<and> distinct (map ir_ip_cidr (ip_rules w)) \<and>
     (\<forall>r \<in> set (ip_rules w). ir_action r \<in> set ip_rule_actions \<and> ir_id r < fresh w)"

interpretation usr: io_invariant users_ok
  by unfold_locales (simp_all add: users_ok_def)

interpretation rul: io_invariant ip_rules_ok
  by unfold_locales (simp_all add: ip_rules_ok_def)

lemmas usr_rules = usr.keeps_return usr.keeps_fail usr.keeps_bind usr.keeps_seq usr.keeps_ok
lemmas rul_rules = rul.keeps_return rul.keeps_fail rul.keeps_bind rul.keeps_seq rul.keeps_ok rul.keeps_publish

lemma insert_user_keeps: "keeps users_ok (insert_user n h r)"
  unfolding insert_user_def
  by (rule usr.keeps_stmt) (auto simp: users_ok_def Let_def list_ex_iff less_SucI)

lemma update_user_keeps:
  assumes "\<And>u. us_id (f u) = us_id u \<and> us_username (f u) = us_username u \<and> us_role (f u) = us_role u"
  shows "keeps users_ok (update_user i f)"
  unfolding update_user_def rows_affected_def respond_def not_found_def
  by (intro usr_rules usr.keeps_stmt)
     (use assms in \<open>auto simp: users_ok_def set_update_rows intro!: usr.keeps_return\<close>)

lemma user_handlers_keep:
  "keeps users_ok list_users" "keeps users_ok (create_user hp n p r)" "keeps users_ok (delete_user i)"
  "keeps users_ok (change_password hp i p)" "keeps users_ok (set_enabled i a)"
proof -
  show "keeps users_ok list_users" "keeps users_ok (create_user hp n p r)"
    unfolding list_users_def create_user_def respond_def not_found_def
    by (auto intro!: usr_rules usr.keeps_read insert_user_keeps split: option.split sum.split)
  show "keeps users_ok (delete_user i)"
    unfolding delete_user_def rows_affected_def respond_def not_found_def
    by (auto intro!: usr_rules usr.keeps_stmt simp: users_ok_def distinct_map_filter)
  show "keeps users_ok (change_password hp i p)" "keeps users_ok (set_enabled i a)"
    unfolding change_password_def set_enabled_def not_found_def
    by (auto intro!: usr_rules update_user_keeps split: option.split)
qed

lemma ip_rule_handlers_keep:
  "keeps ip_rules_ok list_ip_rules" "keeps ip_rules_ok (create_ip_rule c a n)"
  "keeps ip_rules_ok (delete_ip_rule i)" "keeps ip_rules_ok (set_ip_rule_enabled i e)"
proof -
  have pub: "keeps ip_rules_ok (publish_ip_enforcement ip a)" for ip a
    unfolding publish_ip_enforcement_def by (auto intro!: rul_rules)
  have ins: "keeps ip_rules_ok (insert_ip_rule c a n)" for c a n
    unfolding insert_ip_rule_def
    by (rule rul.keeps_stmt) (auto simp: ip_rules_ok_def Let_def list_ex_iff less_SucI)
  show "keeps ip_rules_ok list_ip_rules" "keeps ip_rules_ok (create_ip_rule c a n)"
    unfolding list_ip_rules_def create_ip_rule_def respond_def not_found_def
    by (auto intro!: rul_rules rul.keeps_read ins pub split: sum.split)
  show "keeps ip_rules_ok (delete_ip_rule i)" "keeps ip_rules_ok (set_ip_rule_enabled i e)"
    unfolding delete_ip_rule_def set_ip_rule_enabled_def respond_def not_found_def Let_def
    by (auto intro!: rul_rules rul.keeps_stmt pub simp: ip_rules_ok_def distinct_map_filter set_update_rows
        split: option.split)
qed

section \<open>A status set by hand\<close>

lemma get_endpoint_steps:
  "keeps (\<lambda>w. published w = p) (get_endpoint i)" "keeps (\<lambda>w. endpoints w = es) (get_endpoint i)"
  unfolding get_endpoint_def respond_def not_found_def
  by (auto intro!: quiet_rules store_quiet frame_rules store_frame split: option.split)

lemma told_status_keeps:
  assumes "\<And>p. keeps (\<lambda>w. published w = p) m" and "\<And>es. keeps (\<lambda>w. endpoints w = es) m"
  shows "valid (told_status p) m (\<lambda>_. told_status p) (told_status p)"
  by (rule keepsD) (unfold told_status_def [abs_def], rule quiet_frame_keeps [OF assms])

lemma told_status_error:
  "valid P m Q (\<lambda>w. published w = p) \<Longrightarrow> valid P m Q (told_status p)"
  by (erule valid_weaken) (auto simp: told_status_def)

text \<open>The command that goes out names the address and the status of a stored row.\<close>

lemma update_endpoint_status_told:
  "valid (\<lambda>w. published w = p) (update_endpoint_status i status event) (\<lambda>_. told_status p) (told_status p)"
proof -
  have find: "valid (\<lambda>w. published w = p) (ep_find_by_id i)
      (\<lambda>x w. published w = p \<and>
        (\<forall>e. x = Some e \<longrightarrow> row_at (ep_id e) (ep_mac_address e) (ep_status e) (endpoints w) \<and> ep_id e = i))
      (\<lambda>w. published w = p)"
  proof -
    have "valid (\<lambda>w. published w = p) (ep_find_by_id i) (\<lambda>x w. \<forall>e. x = Some e \<longrightarrow> ep_id e = i) (\<lambda>w. True)"
      by (auto simp: valid_def ep_find_by_id_def stmt_def split: list.split delivery.split dest!: find_row_SomeD)
    moreover have "valid (\<lambda>w. published w = p) (ep_find_by_id i)
      (\<lambda>x w. published w = p \<and>
        (\<forall>e. x = Some e \<longrightarrow> row_at (ep_id e) (ep_mac_address e) (ep_status e) (endpoints w)))
      (\<lambda>w. published w = p)"
      unfolding ep_find_by_id_def by (rule valid_find) (auto dest!: find_row_SomeD)
    ultimately show ?thesis by (rule valid_weaken [OF valid_conj]) auto
  qed
  show ?thesis
    unfolding update_endpoint_status_def
  proof (rule valid_bind [OF told_status_error [OF find]], goal_cases)
    case (1 x)
    show ?case
    proof (cases x)
      case None
      then show ?thesis by (auto simp: not_found_def told_status_def intro!: valid_return)
    next
      case (Some e)
      let ?c = "\<lparr>cmd_mac_address = ep_mac_address e,
            cmd_ip_address = before_char CHR ''/'' (runwrap_or [] (ep_ip_address e)),
            cmd_action = status, cmd_gateway_ip = [], cmd_gateway_mac = None, cmd_vlan_id = None\<rparr>"
      have "valid (device p i (ep_mac_address e) (ep_status e))
         (io_seq (ep_set_status i status) (io_seq (audit event (Some i) ''api'' (JObj [(''status'', JStr status)]))
           (io_seq (io_ok (nats_publish (Enforcement ?c))) (get_endpoint i))))
         (\<lambda>_. told_status p) (told_status p)"
        by (intro valid_seq [OF told_status_error [OF ep_set_status_device]]
            valid_seq [OF told_status_error [OF device_step [OF quiet_ops(18) frame_ops(11)]]]
            valid_seq [OF publish_status_of] told_status_keeps get_endpoint_steps) simp_all
      then show ?thesis
        unfolding Some option.case by (rule valid_weaken) (auto simp: device_def)
    qed
  qed
qed

text \<open>The row in the response has the status asked for.\<close>

definition all_status :: "uuid \<Rightarrow> string \<Rightarrow> endpoint_row list \<Rightarrow> bool" where
  "all_status i s es \<longleftrightarrow> (\<forall>r \<in> set es. ep_id r = i \<longrightarrow> ep_status r = s)"

lemma updated_status:
  "x \<in> set (update_rows (\<lambda>r. ep_id r = i) (\<lambda>r. r\<lparr>ep_status := s\<rparr>) es) \<Longrightarrow> ep_id x = i \<Longrightarrow> ep_status x = s"
proof -
  assume "x \<in> set (update_rows (\<lambda>r. ep_id r = i) (\<lambda>r. r\<lparr>ep_status := s\<rparr>) es)" and i: "ep_id x = i"
  then obtain r where "x = (if ep_id r = i then r\<lparr>ep_status := s\<rparr> else r)"
    unfolding update_rows_def set_map by blast
  with i show ?thesis by (cases "ep_id r = i") simp_all
qed

lemma set_status_all: "valid P (ep_set_status i s) (\<lambda>_ w. all_status i s (endpoints w)) (\<lambda>_. True)"
  unfolding ep_set_status_def
  by (rule valid_stmt_Ok) (auto simp: all_status_def update_endpoint_def updated_status split: if_splits)

lemma get_endpoint_status:
  "valid (\<lambda>w. all_status i s (endpoints w)) (get_endpoint i) (\<lambda>r w. \<forall>e. r = Inr e \<longrightarrow> ep_status e = s) (\<lambda>_. True)"
proof -
  have find: "valid (\<lambda>w. all_status i s (endpoints w)) (ep_find_by_id i)
    (\<lambda>x w. \<forall>e. x = Some e \<longrightarrow> ep_status e = s) (\<lambda>_. True)"
    unfolding ep_find_by_id_def
    by (rule valid_stmt) (auto simp: valid_def all_status_def dest!: find_row_SomeD)
  show ?thesis
    unfolding get_endpoint_def respond_def not_found_def
  proof (rule valid_bind [OF find], goal_cases)
    case (1 x)
    show ?case by (cases x) (auto intro: valid_return)
  qed
qed

lemma update_endpoint_status_response:
  "valid (\<lambda>_. True) (update_endpoint_status i status event)
     (\<lambda>r w. \<forall>e. r = Inr e \<longrightarrow> ep_status e = status) (\<lambda>_. True)"
proof -
  let ?A = "\<lambda>w. all_status i status (endpoints w)"
  have step: "valid ?A m (\<lambda>_. ?A) (\<lambda>_. True)" if "\<And>es. keeps (\<lambda>w. endpoints w = es) m" for m :: "'a io"
    by (rule valid_weaken [OF keepsD [OF frame_keeps [OF that]]]) auto
  have find: "valid (\<lambda>_. True) (ep_find_by_id i) (\<lambda>_ _. True) (\<lambda>_. True)"
    by (rule frame_True) (rule store_frame)
  show ?thesis
    unfolding update_endpoint_status_def
  proof (rule valid_bind [OF find], goal_cases)
    case (1 x)
    show ?case
      by (cases x) (auto simp: not_found_def intro!: valid_return valid_seq [OF set_status_all]
          valid_seq [OF step] get_endpoint_status store_frame frame.keeps_ok)
  qed
qed

section \<open>Pages and ranges\<close>

lemma list_endpoints_bound:
  assumes "list_endpoints l f w = (Ok (Inr (n, limit, offset, items)), w')"
  shows "1 \<le> limit" "limit \<le> 200" "0 \<le> offset" "int (length items) \<le> limit"
proof -
  from assms have *: "limit = clamp 1 200 l" "offset = max 0 f"
    "\<exists>v v'. ep_list limit offset v = (Ok items, v')"
    by (auto simp: list_endpoints_def Let_def io_bind_def respond_def io_return_def split: prod.splits rust.splits)
  then show lim: "1 \<le> limit" "limit \<le> 200" "0 \<le> offset" by (auto simp: clamp_def)
  from *(3) show "int (length items) \<le> limit"
    using lim by (auto simp: ep_list_def page_def dest!: stmt_OkD split: if_splits)
qed

text \<open>The devices on the page that a client is given.\<close>

definition listed_items :: "int \<Rightarrow> int \<Rightarrow> world \<Rightarrow> endpoint_row list" where
  "listed_items l f w = (case fst (list_endpoints l f w) of Ok (Inr (_, _, _, items)) \<Rightarrow> items | _ \<Rightarrow> [])"

lemma listed_items_page:
  "schedule w = [] \<Longrightarrow> listed_items l f w =
     take (nat (clamp 1 200 l)) (drop (nat (max 0 f)) (sort_key (\<lambda>r. - ep_last_seen r) (endpoints w)))"
  by (simp add: listed_items_def list_endpoints_def io_bind_def ep_count_def ep_list_def stmt_delivered page_def
      respond_def Let_def clamp_def)

lemma listed_pages_concat:
  assumes "schedule w = []" and "1 \<le> l" and "l \<le> 200" and "length (endpoints w) \<le> n * nat l"
  shows "concat (map (\<lambda>i. listed_items l (int i * l) w) [0..<n]) = sort_key (\<lambda>r. - ep_last_seen r) (endpoints w)"
proof -
  have "clamp 1 200 l = l" using assms(2,3) by (simp add: clamp_def)
  moreover have "nat (max 0 (int i * l)) = i * nat l" for i using assms(2) by (simp add: nat_mult_distrib)
  ultimately show ?thesis
    using assms(1,4) concat_slices [of "nat l" "sort_key (\<lambda>r. - ep_last_seen r) (endpoints w)" n]
    by (simp add: listed_items_page)
qed

text \<open>A limit outside 1 to 200 is taken as the nearest one inside.\<close>

lemma listing_pages_cover:
  assumes "schedule w = []" and "1 \<le> l" and "l \<le> 200" and "length (endpoints w) \<le> n * nat l"
  shows "concat (map (\<lambda>i. listed_items l (int i * l) w) [0..<n]) = sort_key (\<lambda>r. - ep_last_seen r) (endpoints w)
    \<and> int (length (listed_items l f w)) \<le> l \<and> listed_items l' f w = listed_items (clamp 1 200 l') f w"
proof -
  have "listed_items l' f w = listed_items (clamp 1 200 l') f w"
    using assms(1) by (simp add: listed_items_page clamp_def)
  moreover have "int (length (listed_items l f w)) \<le> l"
    using assms(1-3) by (simp add: listed_items_page clamp_def)
  ultimately show ?thesis using listed_pages_concat [OF assms] by simp
qed

lemma host_bits_small:
  assumes "1 \<le> prefix" and "prefix \<le> (30::nat)"
  shows "unat (32 - (of_nat prefix :: u8)) = 32 - prefix"
proof -
  have "unat (of_nat prefix :: u8) = prefix" using assms by (simp add: unat_of_nat)
  moreover from this assms have "(of_nat prefix :: u8) \<le> 32" by (simp add: word_le_nat_alt)
  ultimately show ?thesis by (simp add: unat_sub)
qed

lemma shifted_small:
  assumes "2 \<le> n" and "n < (32::nat)"
  shows "unat (push_bit n 1 :: u32) = 2 ^ n"
proof -
  have "(push_bit n 1 :: u32) = of_nat (2 ^ n)" by (simp add: push_bit_eq_mult)
  moreover have "(2::nat) ^ n < 2 ^ 32" using assms by (intro power_strict_increasing) auto
  moreover have "unat (of_nat (2 ^ n) :: u32) = 2 ^ n mod 2 ^ 32" by (simp only: unat_of_nat) simp
  ultimately show ?thesis by (simp only: mod_less)
qed

lemma subnet_range_prefix:
  assumes "\<forall>x \<in> {a, b, c, d}. CHR ''.'' \<notin> set x \<and> CHR ''/'' \<notin> set x"
    and "from_str_radix 10 256 pre = Some prefix" and "1 \<le> prefix" and "prefix \<le> 30"
  shows "subnet_range checked (join ''.'' [a, b, c, d] @ ''/'' @ pre) =
    Ok (Some (a @ ''.'' @ b @ ''.'' @ c @ ''.'', 1, min (2 ^ (32 - prefix) - 2) 254))"
proof -
  let ?n = "32 - prefix"
  let ?s = "push_bit ?n 1 :: u32"
  have "split_once CHR ''/'' (join ''.'' [a, b, c, d] @ ''/'' @ pre) = Some (join ''.'' [a, b, c, d], pre)"
    using split_once_fresh [of "CHR ''/''" "join ''.'' [a, b, c, d]" pre] assms(1) by simp
  moreover have "split_on CHR ''.'' (join ''.'' [a, b, c, d]) = [a, b, c, d]"
    using assms(1) by (intro split_on_join) auto
  moreover have n: "unat (32 - (of_nat prefix :: u8)) mod 32 = ?n" "unat (32 - (of_nat prefix :: u8)) < 32"
    using host_bits_small [OF assms(3,4)] assms(3,4) by auto
  moreover have s: "unat ?s = 2 ^ ?n" using assms(3,4) by (intro shifted_small) auto
  moreover have le: "(4::nat) \<le> 2 ^ ?n"
    using power_increasing [of 2 ?n "2::nat"] assms(4) by simp
  then have "\<not> ?s < 2" using s by (simp add: word_less_nat_alt)
  moreover have "unat (?s - 2) = 2 ^ ?n - 2"
    using s le by (subst unat_sub) (auto simp: word_le_nat_alt)
  moreover have "\<not> 32 \<le> 32 - prefix" using assms(3) by simp
  ultimately show ?thesis
    using assms(2-4) unfolding subnet_range_def Let_def by simp
qed

text \<open>A prefix of 31 or more, or of zero, is not handled: the build with checks panics.\<close>

lemma subnet_range_panics:
  assumes "\<forall>x \<in> {a, b, c, d}. CHR ''.'' \<notin> set x \<and> CHR ''/'' \<notin> set x"
    and "from_str_radix 10 256 pre = Some prefix" and "32 \<le> prefix"
  shows "subnet_range True (join ''.'' [a, b, c, d] @ ''/'' @ pre) = Panic"
proof -
  have "split_once CHR ''/'' (join ''.'' [a, b, c, d] @ ''/'' @ pre) = Some (join ''.'' [a, b, c, d], pre)"
    using split_once_fresh [of "CHR ''/''" "join ''.'' [a, b, c, d]" pre] assms(1) by simp
  moreover have "split_on CHR ''.'' (join ''.'' [a, b, c, d]) = [a, b, c, d]"
    using assms(1) by (intro split_on_join) auto
  ultimately show ?thesis
    using assms(2,3) unfolding subnet_range_def Let_def by (cases "prefix = 32") simp_all
qed

text \<open>A rule for a range of addresses reaches the enforcement agent as its base address.\<close>

lemma range_rule_base_only:
  assumes "CHR ''/'' \<notin> set base" and "schedule w = []" and "action = ''block'' \<or> action = ''quarantine''"
  shows "\<exists>w' c. publish_ip_enforcement (base @ ''/'' @ bits) action w = (Ok (), w')
    \<and> published w' = published w @ [Enforcement c] \<and> cmd_ip_address c = base"
  using assms
  by (auto simp: publish_ip_enforcement_def io_seq_def io_bind_def io_ok_def nats_publish_def stmt_delivered
      before_char_takeWhile takeWhile_append2 takeWhile_tail)

end
