(* ===== verification/AgentGateway.thy ===== *)
theory AgentGateway
  imports PmPosture MacText
begin

text \<open>
  The gRPC service of the endpoint agents, \<^verbatim>\<open>services/agent-gateway/src/agent_service.rs\<close>:
  registration, status reports and the policy an agent fetches. Signing and verifying tokens
  (\<^verbatim>\<open>jsonwebtoken\<close>) and the address of the peer are arguments; the messages are the
  records the generated code has.
\<close>

section \<open>Messages\<close>

record nac_claims =
  cl_sub :: string
  cl_groups :: "string list"
  cl_exp :: int
  cl_iat :: int

record register_request =
  rr_device_id :: string
  rr_primary_mac :: string
  rr_hostname :: string
  rr_os :: string
  rr_version :: string

record status_report =
  sr_device_id :: string
  sr_os :: string
  sr_os_version :: string
  sr_installed_software :: "software_item list"
  sr_missing_patches :: "patch_item list"
  sr_usb_enabled :: bool
  sr_bluetooth_enabled :: bool
  sr_folder_sharing_enabled :: bool

record agent_policy =
  ap_required_software :: "string list"
  ap_forbidden_software :: "string list"
  ap_require_patches :: bool
  ap_allow_usb :: bool
  ap_allow_bluetooth :: bool
  ap_allow_folder_sharing :: bool

datatype grpc_status = Unauthenticated string | Internal string

type_synonym 'a grpc = "(grpc_status + 'a) io"

section \<open>The service\<close>

definition register_endpoint :: "string option \<Rightarrow> register_request \<Rightarrow> upsert_endpoint" where
  "register_endpoint remote_ip req =
     \<lparr>up_mac_address = runwrap_or (legacy_device_id_to_mac (rr_device_id req))
        (agent_normalize_mac (rr_primary_mac req)),
      up_ip_address = remote_ip,
      up_hostname = (if rr_hostname req = [] then None else Some (rr_hostname req)),
      up_os_family = Some (rr_os req), up_os_version = Some (rr_version req),
      up_device_type = None, up_vendor = None, up_interface = None,
      up_agent_id = Some (rr_device_id req)\<rparr>"

definition register ::
  "pg \<Rightarrow> (nac_claims \<Rightarrow> string option) \<Rightarrow> int \<Rightarrow> string option \<Rightarrow> register_request \<Rightarrow> string grpc"
where
  "register db sign now remote_ip req =
     (let ep = register_endpoint remote_ip req in
      io_bind (io_ok (ep_upsert_by_agent_id db ep)) (\<lambda>updated.
      io_bind
        (case flatten updated of
           Some row \<Rightarrow> io_return (Some row)
         | None \<Rightarrow> io_ok (ep_upsert db ep)) (\<lambda>row.
      case row of
        None \<Rightarrow> io_return (Inl (Internal ''database error''))
      | Some _ \<Rightarrow>
          (case sign \<lparr>cl_sub = rr_device_id req, cl_groups = [], cl_exp = now + 24 * 3600, cl_iat = now\<rparr> of
             None \<Rightarrow> io_return (Inl (Internal ''token error''))
           | Some token \<Rightarrow> io_return (Inr token)))))"

text \<open>The value of the authorization header that is valid text, if any.\<close>

definition bearer :: "string option \<Rightarrow> string option" where
  "bearer header = Option.bind header (strip_prefix ''Bearer '')"

definition posture_of :: "int \<Rightarrow> status_report \<Rightarrow> posture_report" where
  "posture_of now req =
     \<lparr>device_id = sr_device_id req, pr_os = sr_os req, pr_os_version = sr_os_version req,
      installed_software = map (\<lambda>s. \<lparr>sw_name = sw_name s, sw_version = sw_version s\<rparr>)
        (sr_installed_software req),
      missing_patches = map (\<lambda>p. \<lparr>kb_id = kb_id p, pt_description = pt_description p\<rparr>)
        (sr_missing_patches req),
      usb_enabled = sr_usb_enabled req, bluetooth_enabled = sr_bluetooth_enabled req,
      folder_sharing_enabled = sr_folder_sharing_enabled req, pr_timestamp = now\<rparr>"

definition ack_action :: "endpoint_row option \<Rightarrow> string" where
  "ack_action found =
     (case found of
        Some ep \<Rightarrow>
          if ep_status ep = ''denied'' then ''Deny''
          else if ep_status ep = ''quarantined'' then ''Quarantine''
          else ''Allow''
      | None \<Rightarrow> ''Allow'')"

definition report_status ::
  "(string \<Rightarrow> nac_claims option) \<Rightarrow> int \<Rightarrow> string option \<Rightarrow> status_report \<Rightarrow> string grpc"
where
  "report_status verify now header req =
     (case bearer header of
        None \<Rightarrow> io_return (Inl (Unauthenticated ''missing authorization token''))
      | Some token \<Rightarrow>
          (case verify token of
             None \<Rightarrow> io_return (Inl (Unauthenticated ''invalid or expired token''))
           | Some _ \<Rightarrow>
               io_bind (io_ok (nats_publish (PostureEvent (posture_of now req)))) (\<lambda>sent.
               case sent of
                 None \<Rightarrow> io_return (Inl (Internal ''nats error''))
               | Some _ \<Rightarrow>
                   io_bind (io_ok (ep_find_by_agent_id (sr_device_id req))) (\<lambda>found.
                     io_return (Inr (ack_action (flatten found)))))))"

definition get_agent_policy :: "string \<Rightarrow> agent_policy grpc" where
  "get_agent_policy dev =
     io_bind (io_ok (ep_find_by_agent_id dev)) (\<lambda>found.
     let status = (case flatten found of Some ep \<Rightarrow> ep_status ep | None \<Rightarrow> ''allowed'');
         (usb, bt, fs) = (if status = ''denied'' \<or> status = ''quarantined'' then (False, False, False)
                          else (True, True, False))
     in io_return (Inr \<lparr>ap_required_software = [], ap_forbidden_software = [], ap_require_patches = False,
          ap_allow_usb = usb, ap_allow_bluetooth = bt, ap_allow_folder_sharing = fs\<rparr>))"

section \<open>Properties\<close>

lemma register_keeps: "keeps store_inv (register db sign now ip req)"
  unfolding register_def Let_def by (auto intro!: inv_rules store_keeps split: option.split)

lemma report_status_keeps: "keeps store_inv (report_status verify now h req)"
  unfolding report_status_def by (auto intro!: inv_rules store_keeps split: option.split)

text \<open>Without a token that verifies, a report does nothing at all.\<close>

lemma report_needs_token:
  "Option.bind (bearer header) verify = None \<Longrightarrow>
   \<exists>m. report_status verify now header req w = (Ok (Inl (Unauthenticated m)), w)"
  by (cases "bearer header") (auto simp: report_status_def io_return_def)

text \<open>
  With one, whoever it was issued to, a report about any device goes out.
\<close>

lemma report_for_any_device:
  assumes "bearer header = Some token" and "verify token \<noteq> None" and "schedule w = []"
  shows "\<exists>a w'. report_status verify now header req w = (Ok (Inr a), w') \<and>
    published w' = published w @ [PostureEvent (posture_of now req)] \<and>
    a = ack_action (find_row (\<lambda>r. ep_agent_id r = Some (sr_device_id req)) (endpoints w))"
  using assms
  by (auto simp: report_status_def io_bind_def io_ok_def io_return_def nats_publish_def stmt_delivered
      ep_find_by_agent_id_def flatten_def)

text \<open>An agent whose address changes keeps its row, with its status and its history.\<close>

lemma register_moves:
  assumes "schedule w = []" and "store_inv w" and "rr_device_id req \<noteq> []"
    and "find_row (\<lambda>r. ep_agent_id r = Some (rr_device_id req)) (endpoints w) = Some old"
    and "mac_in db (up_mac_address (register_endpoint ip req)) = Some mac"
    and "cast_inet db ip = Ok addr"
    and "\<forall>r \<in> set (endpoints w). ep_mac_address r = mac \<longrightarrow> ep_id r = ep_id old"
    and "sign \<lparr>cl_sub = rr_device_id req, cl_groups = [], cl_exp = now + 24 * 3600, cl_iat = now\<rparr> = Some token"
  shows "\<exists>w' new. register db sign now ip req w = (Ok (Inr token), w') \<and>
    endpoints w' = update_rows (\<lambda>r. ep_id r = ep_id old) (\<lambda>_. new) (endpoints w) \<and>
    ep_id new = ep_id old \<and> ep_mac_address new = mac \<and> ep_status new = ep_status old \<and>
    ep_agent_id new = ep_agent_id old \<and> ep_username new = ep_username old \<and>
    ep_ip_address new = coalesce addr (ep_ip_address old)"
proof -
  have free: "\<not> list_ex (\<lambda>x. ep_mac_address x = mac \<and> ep_id x \<noteq> ep_id old) (endpoints w)"
    using assms(7) by (auto simp: list_ex_iff)
  have fields: "up_agent_id (register_endpoint ip req) = Some (rr_device_id req)"
    "up_ip_address (register_endpoint ip req) = ip"
    by (simp_all add: register_endpoint_def)
  from assms(1,3-6,8) free fields show ?thesis
    by (simp add: register_def ep_upsert_by_agent_id_def io_bind_def io_ok_def io_return_def stmt_delivered
        flatten_def Let_def) (rule exI, rule conjI, rule refl, simp)
qed

text \<open>
  An agent that moves to an address another row already has cannot register: both statements violate
  a unique index, nothing changes, and the same request fails again.
\<close>

lemma register_stuck:
  assumes "schedule w = []" and "rr_device_id req \<noteq> []"
    and "find_row (\<lambda>r. ep_agent_id r = Some (rr_device_id req)) (endpoints w) = Some old"
    and "mac_in db (up_mac_address (register_endpoint ip req)) = Some mac"
    and "find_row (\<lambda>r. ep_mac_address r = mac) (endpoints w) = Some other"
    and "ep_id other \<noteq> ep_id old" and "cast_inet db ip = Ok addr"
  shows "\<exists>w'. register db sign now ip req w = (Ok (Inl (Internal ''database error'')), w') \<and>
    endpoints w' = endpoints w \<and> schedule w' = []"
proof -
  have fields: "up_agent_id (register_endpoint ip req) = Some (rr_device_id req)"
    "up_ip_address (register_endpoint ip req) = ip"
    by (simp_all add: register_endpoint_def)
  have o: "other \<in> set (endpoints w)" "ep_mac_address other = mac"
    and old: "old \<in> set (endpoints w)" "ep_agent_id old = Some (rr_device_id req)"
    using assms(3,5) by (auto dest: find_row_SomeD)
  have taken: "list_ex (\<lambda>x. ep_mac_address x = mac \<and> ep_id x \<noteq> ep_id old) (endpoints w)"
    using o assms(6) by (auto simp: list_ex_iff)
  have agent: "agent_taken (endpoints w)
      (ep_agent_id (merge_endpoint (register_endpoint ip req) addr t other)) (ep_id other)" for t
    using old assms(6) fields by (auto simp: agent_taken_def list_ex_iff merge_endpoint_def coalesce_def)
  from assms(1-5,7) taken agent fields show ?thesis
    by (simp add: register_def ep_upsert_by_agent_id_def ep_upsert_def io_bind_def io_ok_def io_return_def
        stmt_delivered flatten_def Let_def)
qed

end
