(* ===== verification/Radius.thy ===== *)
theory Radius
  imports MacText StoreLogic
begin

unbundle bit_operations_syntax

text \<open>
  The RADIUS server, \<^verbatim>\<open>services/aaa/src/radius.rs\<close>: the packet codec, the response
  authenticator, PAP decryption, VLAN attributes and the handlers of the two ports. MD5 (the
  \<^verbatim>\<open>md5\<close> crate) and the environment variables are arguments. The lemmas give the round
  trip of the codec, the absence of panics, the correctness of PAP against the encryption of RFC 2865
  and the admission rule of the handler.
\<close>

section \<open>Packets\<close>

record radius_attribute =
  attr_type :: u8
  attr_value :: bytes

record radius_packet =
  rp_code :: u8
  rp_identifier :: u8
  rp_authenticator :: bytes
  rp_attributes :: "radius_attribute list"

definition CODE_ACCESS_REQUEST :: u8 where "CODE_ACCESS_REQUEST = 1"
definition CODE_ACCESS_ACCEPT :: u8 where "CODE_ACCESS_ACCEPT = 2"
definition CODE_ACCESS_REJECT :: u8 where "CODE_ACCESS_REJECT = 3"
definition CODE_ACCOUNTING_REQUEST :: u8 where "CODE_ACCOUNTING_REQUEST = 4"
definition CODE_ACCOUNTING_RESPONSE :: u8 where "CODE_ACCOUNTING_RESPONSE = 5"
definition ATTR_USER_NAME :: u8 where "ATTR_USER_NAME = 1"
definition ATTR_USER_PASSWORD :: u8 where "ATTR_USER_PASSWORD = 2"
definition ATTR_REPLY_MESSAGE :: u8 where "ATTR_REPLY_MESSAGE = 18"
definition ATTR_CALLING_STATION_ID :: u8 where "ATTR_CALLING_STATION_ID = 31"
definition ATTR_TUNNEL_TYPE :: u8 where "ATTR_TUNNEL_TYPE = 64"
definition ATTR_TUNNEL_MEDIUM_TYPE :: u8 where "ATTR_TUNNEL_MEDIUM_TYPE = 65"
definition ATTR_TUNNEL_PRIVATE_GROUP_ID :: u8 where "ATTR_TUNNEL_PRIVATE_GROUP_ID = 81"

lemmas radius_consts = CODE_ACCESS_REQUEST_def CODE_ACCESS_ACCEPT_def CODE_ACCESS_REJECT_def
  CODE_ACCOUNTING_REQUEST_def CODE_ACCOUNTING_RESPONSE_def ATTR_USER_NAME_def
  ATTR_USER_PASSWORD_def ATTR_REPLY_MESSAGE_def ATTR_CALLING_STATION_ID_def ATTR_TUNNEL_TYPE_def
  ATTR_TUNNEL_MEDIUM_TYPE_def ATTR_TUNNEL_PRIVATE_GROUP_ID_def

section \<open>The codec\<close>

function attr_loop ::
  "bytes \<Rightarrow> nat \<Rightarrow> nat \<Rightarrow> radius_attribute list \<Rightarrow> (string, radius_attribute list) rust" where
  "attr_loop buf len pos acc =
     (if pos + 2 \<le> len then
        rbind (ridx buf pos) (\<lambda>t.
        rbind (ridx buf (pos + 1)) (\<lambda>l.
        let attr_len = unat l in
        if attr_len < 2 \<or> len < pos + attr_len then Ok acc
        else
          rbind (rslice buf (pos + 2) (pos + attr_len)) (\<lambda>value.
            attr_loop buf len (pos + attr_len) (acc @ [\<lparr>attr_type = t, attr_value = value\<rparr>]))))
      else Ok acc)"
  by pat_completeness auto
termination
  by (relation "measure (\<lambda>(buf, len, pos, acc). len - pos)") auto

declare attr_loop.simps [simp del]

definition radius_parse :: "bytes \<Rightarrow> (string, radius_packet) rust" where
  "radius_parse buf =
     (if length buf < 20 then Err (''RADIUS packet too short: '' @ dec (length buf))
      else
        rbind (ridx buf 0) (\<lambda>code.
        rbind (ridx buf 1) (\<lambda>identifier.
        rbind (ridx buf 2) (\<lambda>l1. rbind (ridx buf 3) (\<lambda>l2.
        let len = unat (u16_from_be l1 l2) in
        if length buf < len then Err ''RADIUS packet truncated''
        else
          rbind (rslice buf 4 20) (\<lambda>auth.
          rbind (attr_loop buf len 20 []) (\<lambda>attrs.
            Ok \<lparr>rp_code = code, rp_identifier = identifier, rp_authenticator = auth,
                rp_attributes = attrs\<rparr>)))))))"

definition encode_attr :: "radius_attribute \<Rightarrow> bytes" where
  "encode_attr a = attr_type a # of_nat (length (attr_value a) + 2) # attr_value a"

definition encode_attrs :: "radius_attribute list \<Rightarrow> bytes" where
  "encode_attrs as = concat (map encode_attr as)"

definition radius_encode :: "radius_packet \<Rightarrow> bytes" where
  "radius_encode p =
     (let attrs_bytes = encode_attrs (rp_attributes p);
          len = (of_nat (20 + length attrs_bytes) :: u16)
      in [rp_code p, rp_identifier p] @ u16_to_be len @ rp_authenticator p @ attrs_bytes)"

text \<open>The slice assignments write sixteen bytes at offset 4.\<close>

definition set_auth :: "bytes \<Rightarrow> bytes \<Rightarrow> bytes" where
  "set_auth buf auth = take 4 buf @ auth @ drop 20 buf"

definition encode_with_response_auth ::
  "(bytes \<Rightarrow> bytes) \<Rightarrow> radius_packet \<Rightarrow> bytes \<Rightarrow> bytes \<Rightarrow> bytes" where
  "encode_with_response_auth md5 p request_auth secret =
     (let buf = set_auth (radius_encode p) request_auth;
          hash = md5 (buf @ secret)
      in set_auth buf hash)"

definition get_attr :: "radius_packet \<Rightarrow> u8 \<Rightarrow> bytes option" where
  "get_attr p t = map_option attr_value (List.find (\<lambda>a. attr_type a = t) (rp_attributes p))"

section \<open>PAP\<close>

definition xor_bytes :: "bytes \<Rightarrow> bytes \<Rightarrow> bytes" where
  "xor_bytes c h = map (\<lambda>(x, y). x XOR y) (zip c h)"

fun pap_loop :: "(bytes \<Rightarrow> bytes) \<Rightarrow> bytes \<Rightarrow> bytes \<Rightarrow> bytes list \<Rightarrow> bytes" where
  "pap_loop md5 secret prev [] = []"
| "pap_loop md5 secret prev (chunk # rest) =
     xor_bytes chunk (md5 (secret @ prev)) @ pap_loop md5 secret chunk rest"

definition strip_zeros :: "bytes \<Rightarrow> bytes" where
  "strip_zeros bs = rev (dropWhile (\<lambda>b. b = 0) (rev bs))"

definition decrypt_pap_password :: "(bytes \<Rightarrow> bytes) \<Rightarrow> bytes \<Rightarrow> bytes \<Rightarrow> bytes \<Rightarrow> bytes" where
  "decrypt_pap_password md5 encrypted secret authenticator =
     strip_zeros (pap_loop md5 secret authenticator (chunks 16 encrypted))"

section \<open>Lossy text\<close>

text \<open>
  \<^verbatim>\<open>String::from_utf8_lossy\<close>: a well-formed character is copied, an ill-formed prefix
  (of the length the Unicode standard recommends) becomes U+FFFD.
\<close>

definition byte_at :: "bytes \<Rightarrow> nat \<Rightarrow> nat" where
  "byte_at bs i = (if i < length bs then unat (bs ! i) else 0)"

definition is_cont :: "nat \<Rightarrow> bool" where
  "is_cont n \<longleftrightarrow> 128 \<le> n \<and> n \<le> 191"

definition utf8_step :: "bytes \<Rightarrow> bool \<times> nat" where
  "utf8_step bs =
     (let a = byte_at bs 0; b = byte_at bs 1; c = byte_at bs 2; d = byte_at bs 3 in
      if a < 128 then (True, 1)
      else if 194 \<le> a \<and> a \<le> 223 then (if is_cont b then (True, 2) else (False, 1))
      else if 224 \<le> a \<and> a \<le> 239 then
        (if (if a = 224 then 160 \<le> b \<and> b \<le> 191 else if a = 237 then 128 \<le> b \<and> b \<le> 159 else is_cont b)
         then (if is_cont c then (True, 3) else (False, 2)) else (False, 1))
      else if 240 \<le> a \<and> a \<le> 244 then
        (if (if a = 240 then 144 \<le> b \<and> b \<le> 191 else if a = 244 then 128 \<le> b \<and> b \<le> 143 else is_cont b)
         then (if is_cont c then (if is_cont d then (True, 4) else (False, 3)) else (False, 2))
         else (False, 1))
      else (False, 1))"

function utf8_lossy :: "bytes \<Rightarrow> bytes" where
  "utf8_lossy bs =
     (if bs = [] then []
      else case utf8_step bs of (ok, n) \<Rightarrow>
        (if ok then take n bs else [0xEF, 0xBF, 0xBD]) @ utf8_lossy (drop (max 1 n) bs))"
  by pat_completeness auto
termination
  by (relation "measure length") auto

declare utf8_lossy.simps [simp del]

definition from_utf8_lossy :: "bytes \<Rightarrow> string" where
  "from_utf8_lossy bs = string_of_bytes (utf8_lossy bs)"

section \<open>Responses\<close>

definition vlan_attributes :: "u16 \<Rightarrow> radius_attribute list" where
  "vlan_attributes vlan =
     [\<lparr>attr_type = ATTR_TUNNEL_TYPE, attr_value = [0] @ u32_to_be 13\<rparr>,
      \<lparr>attr_type = ATTR_TUNNEL_MEDIUM_TYPE, attr_value = [0] @ u32_to_be 6\<rparr>,
      \<lparr>attr_type = ATTR_TUNNEL_PRIVATE_GROUP_ID, attr_value = [0] @ as_bytes (dec (unat vlan))\<rparr>]"

definition build_response :: "radius_packet \<Rightarrow> bool \<Rightarrow> u16 option \<Rightarrow> string \<Rightarrow> radius_packet" where
  "build_response req accept vlan message =
     \<lparr>rp_code = (if accept then CODE_ACCESS_ACCEPT else CODE_ACCESS_REJECT),
      rp_identifier = rp_identifier req, rp_authenticator = rp_authenticator req,
      rp_attributes = [\<lparr>attr_type = ATTR_REPLY_MESSAGE, attr_value = as_bytes message\<rparr>] @
        (if accept then (case vlan of Some v \<Rightarrow> vlan_attributes v | None \<Rightarrow> []) else [])\<rparr>"

section \<open>Handlers\<close>

definition attr_text :: "radius_packet \<Rightarrow> u8 \<Rightarrow> string option" where
  "attr_text p t = (case get_attr p t of None \<Rightarrow> None | Some b \<Rightarrow> from_utf8 b)"

definition env_vlan :: "(string \<Rightarrow> string option) \<Rightarrow> string \<Rightarrow> u16 option" where
  "env_vlan env name =
     (case env name of None \<Rightarrow> None
      | Some v \<Rightarrow> map_option of_nat (from_str_radix 10 65536 v))"

definition pap_authenticated ::
  "(bytes \<Rightarrow> bytes) \<Rightarrow> (string \<Rightarrow> string option) \<Rightarrow> radius_packet \<Rightarrow> bytes \<Rightarrow> bool" where
  "pap_authenticated md5 env pkt secret =
     (let username = runwrap_or [] (attr_text pkt ATTR_USER_NAME) in
      case get_attr pkt ATTR_USER_PASSWORD of
        None \<Rightarrow> False
      | Some enc_pw \<Rightarrow>
          (let pw = decrypt_pap_password md5 enc_pw secret (rp_authenticator pkt);
               admin_pass = runwrap_or ''changeme'' (env ''RADIUS_ADMIN_PASS'');
               admin_user = runwrap_or ''admin'' (env ''RADIUS_ADMIN_USER'')
           in username = admin_user \<and> from_utf8_lossy pw = admin_pass))"

definition jvlan :: "u16 option \<Rightarrow> json" where
  "jvlan v = (case v of None \<Rightarrow> JNull | Some x \<Rightarrow> JNum (int (unat x)))"

definition radius_decision ::
  "(string \<Rightarrow> string option) \<Rightarrow> string \<Rightarrow> bool \<times> u16 option \<times> string" where
  "radius_decision env status =
     (if status = ''allowed'' then (True, env_vlan env ''RADIUS_ALLOW_VLAN'', ''Access granted'')
      else if status = ''quarantined'' then
        (True, Some (runwrap_or 99 (env_vlan env ''RADIUS_QUARANTINE_VLAN'')), ''Quarantine VLAN assigned'')
      else (False, None, ''Access denied''))"

definition handle_access_request ::
  "pg \<Rightarrow> (bytes \<Rightarrow> bytes) \<Rightarrow> (string \<Rightarrow> string option) \<Rightarrow> radius_packet \<Rightarrow> bytes \<Rightarrow> radius_packet io"
where
  "handle_access_request db md5 env pkt secret =
     (let mac_raw = runwrap_or []
            (opt_or (attr_text pkt ATTR_CALLING_STATION_ID) (attr_text pkt ATTR_USER_NAME)) in
      case aaa_normalize_mac mac_raw of
        None \<Rightarrow>
          io_return (build_response pkt (pap_authenticated md5 env pkt secret) None ''PAP authentication'')
      | Some mac \<Rightarrow>
          io_bind (io_ok (ep_find_by_mac db mac)) (\<lambda>found.
          case found of
            None \<Rightarrow> io_return (build_response pkt False None ''Internal error'')
          | Some None \<Rightarrow>
              (let quarantine_vlan = env_vlan env ''RADIUS_UNKNOWN_VLAN'' in
               io_seq (io_ok (audit ''radius_unknown_endpoint'' None ''radius'' (JObj [(''mac'', JStr mac)])))
                 (io_return (build_response pkt False quarantine_vlan ''Unknown endpoint'')))
          | Some (Some endpoint) \<Rightarrow>
              (case radius_decision env (ep_status endpoint) of (accept, vlan, msg) \<Rightarrow>
               io_seq (io_ok (audit (if accept then ''radius_auth_success'' else ''radius_auth_failure'')
                   (Some (ep_id endpoint)) ''radius''
                   (JObj [(''mac'', JStr mac), (''status'', JStr (ep_status endpoint)),
                          (''vlan'', jvlan vlan), (''accept'', JBool accept)])))
              (io_seq (io_ok (nats_publish (OtherEvent ''nac.events.radius.auth''
                   (JObj [(''mac_address'', JStr mac), (''endpoint_id'', JNum (int (ep_id endpoint))),
                          (''success'', JBool accept), (''vlan'', jvlan vlan)]))))
                (io_return (build_response pkt accept vlan msg))))))"

text \<open>The datagram sent back on the authentication port, if any.\<close>

definition handle_auth_packet ::
  "pg \<Rightarrow> (bytes \<Rightarrow> bytes) \<Rightarrow> (string \<Rightarrow> string option) \<Rightarrow> bytes \<Rightarrow> bytes \<Rightarrow> bytes option io" where
  "handle_auth_packet db md5 env buf secret =
     (case radius_parse buf of
        Panic \<Rightarrow> (\<lambda>w. (Panic, w))
      | Err e \<Rightarrow> io_return None
      | Ok pkt \<Rightarrow>
          if rp_code pkt \<noteq> CODE_ACCESS_REQUEST then io_return None
          else
            io_bind (handle_access_request db md5 env pkt secret) (\<lambda>response.
              io_return (Some (encode_with_response_auth md5 response (rp_authenticator pkt) secret))))"

definition handle_acct_packet :: "bytes \<Rightarrow> (string, bytes option) rust" where
  "handle_acct_packet buf =
     (case radius_parse buf of
        Panic \<Rightarrow> Panic
      | Err e \<Rightarrow> Ok None
      | Ok pkt \<Rightarrow>
          if rp_code pkt = CODE_ACCOUNTING_REQUEST then
            Ok (Some (radius_encode
              \<lparr>rp_code = CODE_ACCOUNTING_RESPONSE, rp_identifier = rp_identifier pkt,
               rp_authenticator = rp_authenticator pkt, rp_attributes = []\<rparr>))
          else Ok None)"

section \<open>The codec does not panic and round-trips\<close>

lemma attr_loop_step:
  "pos + 2 \<le> len \<Longrightarrow> len \<le> length buf \<Longrightarrow> attr_loop buf len pos acc =
     (if unat (buf ! (pos + 1)) < 2 \<or> len < pos + unat (buf ! (pos + 1)) then Ok acc
      else attr_loop buf len (pos + unat (buf ! (pos + 1)))
        (acc @ [\<lparr>attr_type = buf ! pos,
                 attr_value = take (unat (buf ! (pos + 1)) - 2) (drop (pos + 2) buf)\<rparr>]))"
  by (subst attr_loop.simps) (simp add: Let_def)

lemma attr_loop_stop: "len < pos + 2 \<Longrightarrow> attr_loop buf len pos acc = Ok acc"
  by (subst attr_loop.simps) simp

lemma attr_loop_Ok: "len \<le> length buf \<Longrightarrow> \<exists>as. attr_loop buf len pos acc = Ok as"
proof (induction "len - pos" arbitrary: pos acc rule: less_induct)
  case less
  show ?case
  proof (cases "pos + 2 \<le> len")
    case True
    let ?l = "unat (buf ! (pos + 1))"
    show ?thesis
    proof (cases "?l < 2 \<or> len < pos + ?l")
      case False
      then have "2 \<le> ?l" "pos + ?l \<le> len" by simp_all
      then have "len - (pos + ?l) < len - pos" by linarith
      from less.hyps [OF this less.prems] show ?thesis
        using True False less.prems by (simp add: attr_loop_step)
    qed (use True less.prems in \<open>auto simp: attr_loop_step\<close>)
  qed (simp add: attr_loop_stop)
qed

lemma radius_parse_no_panic: "radius_parse buf \<noteq> Panic"
proof (cases "length buf < 20")
  case False
  show ?thesis
  proof (cases "length buf < unat (u16_from_be (buf ! 2) (buf ! 3))")
    case True
    with False show ?thesis by (auto simp: radius_parse_def Let_def ridx_def)
  next
    case len: False
    then obtain as where "attr_loop buf (unat (u16_from_be (buf ! 2) (buf ! 3))) 20 [] = Ok as"
      using attr_loop_Ok [of "unat (u16_from_be (buf ! 2) (buf ! 3))" buf] by auto
    with False len show ?thesis by (auto simp: radius_parse_def Let_def ridx_def)
  qed
qed (simp add: radius_parse_def)

definition short_attrs :: "radius_attribute list \<Rightarrow> bool" where
  "short_attrs as \<longleftrightarrow> (\<forall>a \<in> set as. length (attr_value a) \<le> 253)"

lemma length_encode_attr [simp]: "length (encode_attr a) = length (attr_value a) + 2"
  by (simp add: encode_attr_def)

lemma encode_attrs_simps [simp]:
  "encode_attrs [] = []" "encode_attrs (a # as) = encode_attr a @ encode_attrs as"
  by (simp_all add: encode_attrs_def)

lemma attr_eta: "\<lparr>attr_type = attr_type a, attr_value = attr_value a\<rparr> = a"
  by (cases a) simp

lemma attr_loop_encode:
  "short_attrs as \<Longrightarrow>
   attr_loop (hdr @ encode_attrs as) (length hdr + length (encode_attrs as)) (length hdr) acc = Ok (acc @ as)"
proof (induction as arbitrary: hdr acc)
  case Nil
  show ?case by (simp add: attr_loop_stop)
next
  case (Cons a as)
  define buf where "buf = hdr @ encode_attrs (a # as)"
  define n where "n = length (attr_value a) + 2"
  define len where "len = length hdr + length (encode_attrs (a # as))"
  have l: "unat (buf ! (length hdr + 1)) = n"
    using Cons.prems
    by (simp add: buf_def n_def short_attrs_def encode_attr_def nth_append del: of_nat_add of_nat_Suc)
  have t: "buf ! length hdr = attr_type a"
    by (simp add: buf_def encode_attr_def nth_append)
  have v: "take (n - 2) (drop (length hdr + 2) buf) = attr_value a"
    by (simp add: buf_def n_def encode_attr_def)
  have "length hdr + n \<le> len" "len \<le> length buf" "\<not> n < 2"
    by (simp_all add: len_def n_def buf_def)
  then have "attr_loop buf len (length hdr) acc = attr_loop buf len (length hdr + n) (acc @ [a])"
    using attr_loop_step [of "length hdr" len buf acc]
    unfolding l t v by (simp add: n_def attr_eta)
  also have "\<dots> = attr_loop ((hdr @ encode_attr a) @ encode_attrs as)
      (length (hdr @ encode_attr a) + length (encode_attrs as)) (length (hdr @ encode_attr a)) (acc @ [a])"
    by (simp add: buf_def len_def n_def add.assoc)
  also have "\<dots> = Ok ((acc @ [a]) @ as)"
    using Cons.prems by (intro Cons.IH) (simp add: short_attrs_def)
  finally show ?case by (simp add: buf_def len_def)
qed

definition packet_ok :: "radius_packet \<Rightarrow> bool" where
  "packet_ok p \<longleftrightarrow> length (rp_authenticator p) = 16 \<and> short_attrs (rp_attributes p)
     \<and> 20 + length (encode_attrs (rp_attributes p)) < 65536"

lemma u16_to_be_nth: "u16_to_be w = [u16_to_be w ! 0, u16_to_be w ! 1]"
  by (simp add: u16_to_be_def)

lemma radius_parse_header:
  assumes "length auth = 16" and "short_attrs as" and "20 + length (encode_attrs as) < 65536"
  shows "radius_parse ([c, i] @ u16_to_be (of_nat (20 + length (encode_attrs as))) @ auth @ encode_attrs as) =
    Ok \<lparr>rp_code = c, rp_identifier = i, rp_authenticator = auth, rp_attributes = as\<rparr>"
proof -
  let ?n = "20 + length (encode_attrs as)"
  obtain l1 l2 where l: "u16_to_be (of_nat ?n) = [l1, l2]"
    using u16_to_be_nth by blast
  have n: "unat (u16_from_be l1 l2) = ?n"
    using u16_from_to_be [OF l] assms(3) by (metis unat_of_nat_u16)
  let ?hdr = "[c, i, l1, l2] @ auth"
  have "attr_loop (?hdr @ encode_attrs as) ?n 20 [] = Ok as"
    using attr_loop_encode [OF assms(2), of ?hdr "[]"] assms(1) by simp
  then show ?thesis
    using assms(1) n unfolding l
    by (simp add: radius_parse_def Let_def ridx_def nth_append)
qed

lemma radius_parse_encode: "packet_ok p \<Longrightarrow> radius_parse (radius_encode p) = Ok p"
  using radius_parse_header [of "rp_authenticator p" "rp_attributes p"]
  by (simp add: packet_ok_def radius_encode_def Let_def)

section \<open>The response authenticator\<close>

lemma set_auth_encode:
  assumes "length auth = 16" and "packet_ok p"
  shows "set_auth (radius_encode p) auth = radius_encode (p\<lparr>rp_authenticator := auth\<rparr>)"
proof -
  obtain l1 l2 where "u16_to_be (of_nat (20 + length (encode_attrs (rp_attributes p)))) = [l1, l2]"
    using u16_to_be_nth by blast
  with assms show ?thesis
    by (simp add: set_auth_def radius_encode_def Let_def packet_ok_def del: of_nat_add)
qed

lemma encode_with_response_auth_eq:
  assumes "packet_ok p" and "length request_auth = 16" and "\<And>x. length (md5 x) = 16"
  shows "encode_with_response_auth md5 p request_auth secret =
    radius_encode (p\<lparr>rp_authenticator :=
      md5 (radius_encode (p\<lparr>rp_authenticator := request_auth\<rparr>) @ secret)\<rparr>)"
proof -
  have "packet_ok (p\<lparr>rp_authenticator := request_auth\<rparr>)"
    using assms by (simp add: packet_ok_def)
  from set_auth_encode [OF assms(3) this] set_auth_encode [OF assms(2,1)] show ?thesis
    by (simp add: encode_with_response_auth_def Let_def)
qed

section \<open>PAP against RFC 2865\<close>

text \<open>
  The client's side: the password is padded with zeros to whole blocks, and each block is combined
  with the hash of the secret and the previous cipher block.
\<close>

fun pap_encrypt :: "(bytes \<Rightarrow> bytes) \<Rightarrow> bytes \<Rightarrow> bytes \<Rightarrow> bytes list \<Rightarrow> bytes list" where
  "pap_encrypt md5 secret prev [] = []"
| "pap_encrypt md5 secret prev (b # bs) =
     (let c = xor_bytes b (md5 (secret @ prev)) in c # pap_encrypt md5 secret c bs)"

definition pap_blocks :: "bytes \<Rightarrow> bytes list" where
  "pap_blocks pw = chunks 16 (pw @ replicate ((16 - length pw mod 16) mod 16) 0)"

lemma xor_bytes_length [simp]: "length (xor_bytes c h) = min (length c) (length h)"
  by (simp add: xor_bytes_def)

lemma xor_bytes_twice: "length c = length h \<Longrightarrow> xor_bytes (xor_bytes c h) h = c"
  by (rule nth_equalityI) (auto simp: xor_bytes_def xor.assoc)

lemma pap_loop_encrypt:
  assumes "\<And>x. length (md5 x) = 16"
  shows "\<forall>b \<in> set bs. length b = 16 \<Longrightarrow> pap_loop md5 secret prev (pap_encrypt md5 secret prev bs) = concat bs"
  by (induction bs arbitrary: prev) (simp_all add: Let_def xor_bytes_twice assms)

lemma chunks_blocks:
  "0 < n \<Longrightarrow> n dvd length xs \<Longrightarrow> (\<forall>b \<in> set (chunks n xs). length b = n) \<and> concat (chunks n xs) = xs"
proof (induction n xs rule: chunks.induct)
  case (1 n xs)
  show ?case
  proof (cases "xs = []")
    case True
    then show ?thesis by (subst (1 2) chunks.simps) simp
  next
    case False
    then have le: "n \<le> length xs" using "1.prems" by (simp add: dvd_imp_le)
    have eq: "chunks n xs = take n xs # chunks n (drop n xs)"
      using False "1.prems" by (subst chunks.simps) simp
    have "n dvd length (drop n xs)" using "1.prems" le by simp
    then have "(\<forall>b \<in> set (chunks n (drop n xs)). length b = n) \<and> concat (chunks n (drop n xs)) = drop n xs"
      using False "1.prems" by (intro "1.IH") auto
    moreover have "length (take n xs) = n" using le by simp
    ultimately show ?thesis
      unfolding eq by (simp only: set_simps ball_simps concat.simps append_take_drop_id) blast
  qed
qed

lemma pap_blocks_ok:
  "(\<forall>b \<in> set (pap_blocks pw). length b = 16)
    \<and> concat (pap_blocks pw) = pw @ replicate ((16 - length pw mod 16) mod 16) 0"
proof -
  have "(length pw + (16 - length pw mod 16) mod 16) mod 16 = (length pw mod 16 + (16 - length pw mod 16)) mod 16"
    by (simp only: mod_add_left_eq mod_add_right_eq)
  also have "length pw mod 16 + (16 - length pw mod 16) = 16"
    by (rule le_add_diff_inverse) (rule less_imp_le, rule mod_less_divisor, simp)
  finally have "16 dvd length pw + (16 - length pw mod 16) mod 16"
    by (simp only: mod_self dvd_eq_mod_eq_0)
  then have "16 dvd length (pw @ replicate ((16 - length pw mod 16) mod 16) (0 :: u8))"
    by (simp only: length_append length_replicate)
  then show ?thesis
    unfolding pap_blocks_def by (rule chunks_blocks [OF zero_less_numeral])
qed

lemma pap_encrypt_lengths:
  assumes "\<And>x. length (md5 x) = 16"
  shows "\<forall>b \<in> set bs. length b = 16 \<Longrightarrow> \<forall>c \<in> set (pap_encrypt md5 secret prev bs). length c = 16"
  by (induction bs arbitrary: prev) (auto simp: Let_def assms)

lemma strip_zeros_replicate: "strip_zeros (pw @ replicate n 0) = strip_zeros pw"
proof -
  have "dropWhile (\<lambda>b. b = 0) (replicate n 0 @ ys) = dropWhile (\<lambda>b. b = 0) ys" for ys :: bytes
    by (induction n) simp_all
  then show ?thesis by (simp add: strip_zeros_def)
qed

lemma strip_zeros_id: "pw = [] \<or> last pw \<noteq> 0 \<Longrightarrow> strip_zeros pw = pw"
  by (cases pw rule: rev_cases) (auto simp: strip_zeros_def)

lemma decrypt_encrypt_pap:
  assumes md5: "\<And>x. length (md5 x) = 16" and pw: "pw = [] \<or> last pw \<noteq> 0"
  shows "decrypt_pap_password md5 (concat (pap_encrypt md5 secret auth (pap_blocks pw))) secret auth = pw"
proof -
  have "chunks 16 (concat (pap_encrypt md5 secret auth (pap_blocks pw))) =
      pap_encrypt md5 secret auth (pap_blocks pw)"
    using pap_blocks_ok [of pw] by (intro chunks_concat pap_encrypt_lengths) (auto simp: md5)
  then show ?thesis
    using pap_loop_encrypt [OF md5] pap_blocks_ok [of pw]
    by (simp add: decrypt_pap_password_def strip_zeros_replicate strip_zeros_id [OF pw])
qed

section \<open>Admission\<close>

lemma io_ok_seq:
  "fst (m w) \<noteq> Panic \<Longrightarrow> io_seq (io_ok m) k w = k (snd (m w))"
  by (cases "m w"; cases "fst (m w)") (auto simp: io_seq_def io_bind_def io_ok_def)

lemma stmt_not_Panic:
  assumes "\<And>w. fst (f w) \<noteq> Panic"
  shows "fst (stmt f w) \<noteq> Panic"
  using assms by (simp add: stmt_def split: list.split delivery.split)

lemma audit_not_Panic [simp]: "fst (audit e i a d w) \<noteq> Panic"
  unfolding audit_def by (rule stmt_not_Panic) simp

lemma nats_publish_not_Panic [simp]: "fst (nats_publish m w) \<noteq> Panic"
  unfolding nats_publish_def by (rule stmt_not_Panic) simp

lemma ep_find_by_mac_not_Panic [simp]: "fst (ep_find_by_mac db m w) \<noteq> Panic"
  unfolding ep_find_by_mac_def by (rule stmt_not_Panic) (simp split: option.split)

definition request_mac :: "radius_packet \<Rightarrow> string option" where
  "request_mac pkt = aaa_normalize_mac (runwrap_or []
     (opt_or (attr_text pkt ATTR_CALLING_STATION_ID) (attr_text pkt ATTR_USER_NAME)))"

text \<open>The response as a function of the lookup: audit and publication have no influence on it.\<close>

definition access_response ::
  "(bytes \<Rightarrow> bytes) \<Rightarrow> (string \<Rightarrow> string option) \<Rightarrow> radius_packet \<Rightarrow> bytes
    \<Rightarrow> (string \<Rightarrow> (store_error, endpoint_row option) rust) \<Rightarrow> radius_packet" where
  "access_response md5 env pkt secret look =
     (case request_mac pkt of
        None \<Rightarrow> build_response pkt (pap_authenticated md5 env pkt secret) None ''PAP authentication''
      | Some mac \<Rightarrow>
          (case look mac of
             Ok (Some e) \<Rightarrow>
               (case radius_decision env (ep_status e) of (accept, vlan, msg) \<Rightarrow>
                  build_response pkt accept vlan msg)
           | Ok None \<Rightarrow> build_response pkt False (env_vlan env ''RADIUS_UNKNOWN_VLAN'') ''Unknown endpoint''
           | _ \<Rightarrow> build_response pkt False None ''Internal error''))"

lemma handle_access_request_response:
  "fst (handle_access_request db md5 env pkt secret w) =
     Ok (access_response md5 env pkt secret (\<lambda>mac. fst (ep_find_by_mac db mac w)))"
proof (cases "request_mac pkt")
  case None
  then show ?thesis
    by (simp add: handle_access_request_def access_response_def request_mac_def)
next
  case (Some mac)
  have find: "io_bind (io_ok (ep_find_by_mac db mac)) k w =
      k (case fst (ep_find_by_mac db mac w) of Ok x \<Rightarrow> Some x | _ \<Rightarrow> None) (snd (ep_find_by_mac db mac w))"
    for k :: "endpoint_row option option \<Rightarrow> radius_packet io"
    using ep_find_by_mac_not_Panic [of db mac w]
    by (cases "ep_find_by_mac db mac w"; cases "fst (ep_find_by_mac db mac w)")
       (auto simp: io_bind_def io_ok_def)
  show ?thesis
    using Some ep_find_by_mac_not_Panic [of db mac w]
    by (auto simp: handle_access_request_def access_response_def request_mac_def find io_ok_seq
        split: rust.split option.split prod.split)
qed

lemma ep_find_by_mac_SomeD:
  "fst (ep_find_by_mac db m w) = Ok (Some e) \<Longrightarrow>
   e \<in> set (endpoints w) \<and> mac_in db m = Some (ep_mac_address e)"
  by (auto simp: ep_find_by_mac_def stmt_def split: list.splits delivery.splits option.splits
      dest!: find_row_SomeD)

text \<open>
  Only a stored device that is allowed or quarantined is accepted, or the administrator when the
  request names no hardware address.
\<close>

lemma build_response_code [simp]:
  "rp_code (build_response req a v m) = CODE_ACCESS_ACCEPT \<longleftrightarrow> a"
  by (simp add: build_response_def radius_consts)

lemma accept_only_known:
  assumes "fst (handle_access_request db md5 env pkt secret w) = Ok resp"
    and "rp_code resp = CODE_ACCESS_ACCEPT"
  shows "(request_mac pkt = None \<and> pap_authenticated md5 env pkt secret)
    \<or> (\<exists>mac e. request_mac pkt = Some mac \<and> e \<in> set (endpoints w)
         \<and> mac_in db mac = Some (ep_mac_address e)
         \<and> (ep_status e = ''allowed'' \<or> ep_status e = ''quarantined''))"
  using assms
  by (auto simp: handle_access_request_response access_response_def radius_decision_def
      split: option.splits rust.splits if_splits dest!: ep_find_by_mac_SomeD)

text \<open>A quarantined device is accepted into the quarantine VLAN.\<close>

lemma get_attr_vlan:
  "get_attr (build_response req True (Some v) m) ATTR_TUNNEL_PRIVATE_GROUP_ID =
     Some (0 # as_bytes (dec (unat v)))"
  by (simp add: get_attr_def build_response_def vlan_attributes_def radius_consts)

lemma quarantined_vlan:
  assumes "request_mac pkt = Some mac"
    and "fst (ep_find_by_mac db mac w) = Ok (Some e)" and "ep_status e = ''quarantined''"
    and "fst (handle_access_request db md5 env pkt secret w) = Ok resp"
  shows "rp_code resp = CODE_ACCESS_ACCEPT
    \<and> get_attr resp ATTR_TUNNEL_PRIVATE_GROUP_ID =
        Some (0 # as_bytes (dec (unat (runwrap_or 99 (env_vlan env ''RADIUS_QUARANTINE_VLAN'')))))"
  using assms
  by (auto simp: handle_access_request_response access_response_def radius_decision_def get_attr_vlan)

text \<open>The VLAN of an unknown device is looked up and then dropped: a reject carries no VLAN.\<close>

lemma unknown_no_vlan:
  "fst (ep_find_by_mac db mac w) = Ok None \<Longrightarrow> request_mac pkt = Some mac \<Longrightarrow>
   fst (handle_access_request db md5 env pkt secret w) = Ok resp \<Longrightarrow>
   rp_code resp = CODE_ACCESS_REJECT \<and> get_attr resp ATTR_TUNNEL_PRIVATE_GROUP_ID = None"
  by (auto simp: handle_access_request_response access_response_def build_response_def get_attr_def
      radius_consts)

section \<open>The handlers keep the invariant\<close>

lemma handle_access_request_keeps [store_keeps]:
  "keeps store_inv (handle_access_request db md5 env pkt secret)"
  unfolding handle_access_request_def Let_def
  by (auto intro!: inv_rules store_keeps split: option.split prod.split)

lemma handle_auth_packet_keeps: "keeps store_inv (handle_auth_packet db md5 env buf secret)"
  using radius_parse_no_panic [of buf]
  unfolding handle_auth_packet_def
  by (auto intro!: inv_rules store_keeps split: rust.split)

text \<open>Every datagram sent is a well-formed packet with the identifier of the request.\<close>

lemma dec_length_5: "n < 65536 \<Longrightarrow> length (dec n) \<le> 5"
  by (simp add: dec.simps [of n] dec.simps [of "n div 10"] dec.simps [of "n div 10 div 10"]
      dec.simps [of "n div 10 div 10 div 10"] dec.simps [of "n div 10 div 10 div 10 div 10"])

lemma vlan_attributes_short [simp]: "short_attrs (vlan_attributes v)"
  using dec_length_5 [of "unat v"] by (simp add: short_attrs_def vlan_attributes_def)

lemma vlan_attributes_length: "length (encode_attrs (vlan_attributes v)) \<le> 22"
  using dec_length_5 [of "unat v"] by (simp add: vlan_attributes_def)

lemma short_attrs_Cons:
  "short_attrs []" "short_attrs (a # as) \<longleftrightarrow> length (attr_value a) \<le> 253 \<and> short_attrs as"
  by (simp_all add: short_attrs_def)

lemma build_response_ok:
  assumes "length (rp_authenticator req) = 16" and "length msg \<le> 200"
  shows "packet_ok (build_response req a v msg)"
proof -
  have "short_attrs (rp_attributes (build_response req a v msg))"
    using assms(2) by (cases v) (simp_all add: build_response_def short_attrs_Cons)
  moreover have "length (encode_attrs (rp_attributes (build_response req a v msg))) \<le> 224"
    using assms(2) vlan_attributes_length [of "the v"]
    by (cases v) (simp_all add: build_response_def)
  ultimately show ?thesis using assms(1) by (simp add: packet_ok_def build_response_def)
qed

lemma access_response_ok:
  assumes "length (rp_authenticator pkt) = 16"
  shows "packet_ok (access_response md5 env pkt secret look)"
  unfolding access_response_def
  by (auto simp: radius_decision_def intro!: build_response_ok [OF assms]
      split: option.split rust.split)

lemma access_response_id [simp]:
  "rp_identifier (access_response md5 env pkt secret look) = rp_identifier pkt"
  by (simp add: access_response_def build_response_def split: option.split rust.split prod.split)

lemma radius_parse_auth: "radius_parse buf = Ok pkt \<Longrightarrow> length (rp_authenticator pkt) = 16"
  by (auto simp: radius_parse_def rbind_Ok_iff Let_def dest!: rslice_OkD split: if_splits)

section \<open>No panic\<close>

lemma handle_acct_packet_no_panic: "handle_acct_packet buf \<noteq> Panic"
  by (auto simp: handle_acct_packet_def radius_parse_no_panic split: rust.split)

lemma handle_auth_packet_no_panic: "fst (handle_auth_packet db md5 env buf secret w) \<noteq> Panic"
proof (cases "radius_parse buf")
  case (Ok pkt)
  have "fst (handle_access_request db md5 env pkt secret w) \<noteq> Panic"
    by (simp add: handle_access_request_response)
  with Ok show ?thesis
    by (cases "handle_access_request db md5 env pkt secret w"; cases "fst (handle_access_request db md5 env pkt secret w)")
       (auto simp: handle_auth_packet_def io_bind_def)
qed (simp_all add: handle_auth_packet_def radius_parse_no_panic)

end
