(* ===== verification/Portal.thy ===== *)
theory Portal
  imports PmConsumer
begin

text \<open>
  The captive portal of the AAA service, \<^verbatim>\<open>services/aaa/src/captive_portal.rs\<close>, with the
  two ways a login is checked, \<^verbatim>\<open>crates/nac-auth/src/ldap.rs\<close> and
  \<^verbatim>\<open>local_auth.rs\<close>. The LDAP server, the password hash (\<^verbatim>\<open>argon2\<close>), the
  signing of tokens, the reading of identifiers and the four static pages are arguments.
\<close>

section \<open>Checking a login\<close>

datatype auth_error = InvalidCredentials | UserNotFound string | TokenExpired | TokenInvalid string
  | LdapError string | InternalError string

record user_identity =
  ui_username :: string
  ui_display_name :: "string option"
  ui_email :: "string option"
  ui_groups :: "string list"

type_synonym 'a auth = "world \<Rightarrow> (auth_error, 'a) rust \<times> world"

text \<open>
  \<open>hash_ok\<close> tells whether a stored hash can be read, \<open>verify\<close> whether a password belongs to it.
\<close>

record password_lib =
  hash_ok :: "string \<Rightarrow> bool"
  verify_password :: "string \<Rightarrow> string \<Rightarrow> bool"

definition find_user :: "string \<Rightarrow> (string \<times> string) option io" where
  "find_user username = stmt (\<lambda>w.
     (Ok (map_option (\<lambda>u. (us_password_hash u, us_role u))
        (find_row (\<lambda>u. us_username u = username \<and> us_enabled u) (nac_users w))), w))"

definition local_authenticate :: "password_lib \<Rightarrow> string \<Rightarrow> string \<Rightarrow> user_identity auth" where
  "local_authenticate lib username password w =
     (case find_user username w of
        (Panic, w') \<Rightarrow> (Panic, w')
      | (Err e, w') \<Rightarrow> (Err (InternalError ''database''), w')
      | (Ok None, w') \<Rightarrow> (Err (UserNotFound username), w')
      | (Ok (Some (password_hash, role)), w') \<Rightarrow>
          if \<not> hash_ok lib password_hash then (Err (InternalError ''hash''), w')
          else if \<not> verify_password lib password password_hash then (Err InvalidCredentials, w')
          else (Ok \<lparr>ui_username = username, ui_display_name = None, ui_email = None,
                     ui_groups = [role]\<rparr>, w'))"

text \<open>
  The directory: whether a connection is made, the answer to a bind (nothing when the connection
  fails, and otherwise whether it was granted), and the answer to a search (nothing when the connection
  fails, then nothing when the server reports an error, and otherwise the entries).
\<close>

record ldap_entry =
  le_dn :: string
  le_attrs :: "string \<Rightarrow> string list option"

record ldap_server =
  ld_connect :: bool
  ld_bind :: "string \<Rightarrow> string \<Rightarrow> bool option"
  ld_search :: "string \<Rightarrow> string \<Rightarrow> ldap_entry list option option"

record ldap_client =
  lc_bind_dn :: string
  lc_bind_pw :: string
  lc_user_base :: string
  lc_user_filter :: string

definition extract_cn_from_dn :: "string \<Rightarrow> string" where
  "extract_cn_from_dn dn =
     (let part = trim (hd (split_on CHR '','' dn))
      in if starts_with ''CN='' (to_uppercase part) then drop 3 part else dn)"

definition first_attr :: "ldap_entry \<Rightarrow> string \<Rightarrow> string option" where
  "first_attr e a = (case le_attrs e a of Some (v # _) \<Rightarrow> Some v | _ \<Rightarrow> None)"

definition ldap_authenticate ::
  "ldap_server \<Rightarrow> ldap_client \<Rightarrow> string \<Rightarrow> string \<Rightarrow> (auth_error, user_identity) rust" where
  "ldap_authenticate srv client username password =
     (if password = [] then Err InvalidCredentials
      else if \<not> ld_connect srv then Err (LdapError ''connect failed'')
      else
        case ld_bind srv (lc_bind_dn client) (lc_bind_pw client) of
          None \<Rightarrow> Err (LdapError ''service bind failed'')
        | Some False \<Rightarrow> Err (LdapError ''service bind error'')
        | Some True \<Rightarrow>
            (let filt = replace ''{}'' username (lc_user_filter client) in
             case ld_search srv (lc_user_base client) filt of
               None \<Rightarrow> Err (LdapError ''search failed'')
             | Some None \<Rightarrow> Err (UserNotFound username)
             | Some (Some []) \<Rightarrow> Err (UserNotFound username)
             | Some (Some (entry # _)) \<Rightarrow>
                 (case ld_bind srv (le_dn entry) password of
                    None \<Rightarrow> Err (LdapError ''user bind failed'')
                  | Some False \<Rightarrow> Err InvalidCredentials
                  | Some True \<Rightarrow>
                      Ok \<lparr>ui_username = username,
                          ui_display_name = opt_or (first_attr entry ''displayName'') (first_attr entry ''cn''),
                          ui_email = first_attr entry ''mail'',
                          ui_groups = (case le_attrs entry ''memberOf'' of
                             None \<Rightarrow> [] | Some dns \<Rightarrow> map extract_cn_from_dn dns)\<rparr>)))"

section \<open>Text on pages and in addresses\<close>

definition unreserved :: "char \<Rightarrow> bool" where
  "unreserved c \<longleftrightarrow> is_upper_ascii c \<or> is_lower_ascii c \<or> is_digit_ascii c
     \<or> c \<in> {CHR ''-'', CHR ''_'', CHR ''.'', CHR ''~''}"

definition percent_encode_url :: "string \<Rightarrow> string" where
  "percent_encode_url input =
     concat (map (\<lambda>b. if unreserved b then [b] else CHR ''%'' # fmt_02X (of_char b)) input)"

definition html_escape :: "string \<Rightarrow> string" where
  "html_escape s =
     replace_char CHR ''>'' ''&gt;'' (replace_char CHR ''<'' ''&lt;''
       (replace_char CHR ''\"'' ''&quot;'' (replace_char CHR ''&'' ''&amp;'' s)))"

record pages =
  login_template :: string
  success_html :: string
  denied_html :: string
  blocked_html :: string

definition login_html :: "pages \<Rightarrow> string \<Rightarrow> string \<Rightarrow> string" where
  "login_html pg mac redirect_url =
     replace ''{{REDIRECT_URL}}'' (html_escape redirect_url) (replace ''{{MAC}}'' mac (login_template pg))"

definition denied_page :: "pages \<Rightarrow> string \<Rightarrow> string option \<Rightarrow> string" where
  "denied_page pg unknown reason = replace ''{{REASON}}'' (runwrap_or unknown reason) (denied_html pg)"

datatype http_response = RedirectTo string | HtmlPage string | PlainText string | NoContent

section \<open>Looking up the client\<close>

definition portal_lookup :: "pg \<Rightarrow> (endpoint_row \<Rightarrow> string) \<Rightarrow> string \<Rightarrow> string option io" where
  "portal_lookup db col ip =
     io_bind (io_ok (stmt (\<lambda>w.
       (Ok (map_option col (find_row (\<lambda>r. map_option (inet_host db) (ep_ip_address r) = Some ip) (endpoints w))), w))))
     (\<lambda>found. io_return (flatten found))"

definition mac_from_db :: "pg \<Rightarrow> string \<Rightarrow> string option io" where
  "mac_from_db db ip = portal_lookup db ep_mac_address ip"

definition endpoint_status :: "pg \<Rightarrow> string \<Rightarrow> string option io" where
  "endpoint_status db ip = portal_lookup db ep_status ip"

section \<open>Pages and probes\<close>

text \<open>The three probes differ in their answer to a device that may pass.\<close>

definition probe :: "pg \<Rightarrow> string \<Rightarrow> http_response \<Rightarrow> string \<Rightarrow> http_response io" where
  "probe db portal_url answer ip =
     io_bind (endpoint_status db ip) (\<lambda>status. io_return
       (if status = Some ''denied'' then RedirectTo (portal_url @ ''/blocked'')
        else if status = Some ''quarantined'' then RedirectTo portal_url
        else answer))"

definition ncsi_probe :: "pg \<Rightarrow> string \<Rightarrow> string \<Rightarrow> http_response io" where
  "ncsi_probe db portal_url = probe db portal_url (PlainText (''Microsoft NCSI'' @ [char_of (13 :: nat), newline]))"

definition generate_204 :: "pg \<Rightarrow> string \<Rightarrow> string \<Rightarrow> http_response io" where
  "generate_204 db portal_url = probe db portal_url NoContent"

definition hotspot_detect :: "pg \<Rightarrow> string \<Rightarrow> string \<Rightarrow> http_response io" where
  "hotspot_detect db portal_url = probe db portal_url
     (HtmlPage ''<HTML><HEAD><TITLE>Success</TITLE></HEAD><BODY>Success</BODY></HTML>'')"

definition landing_page :: "pg \<Rightarrow> pages \<Rightarrow> string \<Rightarrow> string option \<Rightarrow> http_response io" where
  "landing_page db pg ip url =
     io_bind (mac_from_db db ip) (\<lambda>found.
     let mac = runwrap_or [] found; redirect_url = runwrap_or [] url in
     io_bind (endpoint_status db ip) (\<lambda>status. io_return
       (if status = Some ''denied'' then HtmlPage (blocked_html pg)
        else HtmlPage (login_html pg mac redirect_url))))"

text \<open>
  \<open>host\<close> is the header that is valid text; \<open>path_and_query\<close> is absent when the address of the request
  has none.
\<close>

definition original_url :: "string \<Rightarrow> string option \<Rightarrow> string" where
  "original_url host path_and_query = ''http://'' @ host @ runwrap_or ''/'' path_and_query"

definition catch_all ::
  "pg \<Rightarrow> string \<Rightarrow> string \<Rightarrow> string option \<Rightarrow> string option \<Rightarrow> http_response io" where
  "catch_all db portal_url ip path_and_query host =
     io_bind (endpoint_status db ip) (\<lambda>status. io_return
       (if status = Some ''denied'' then RedirectTo (portal_url @ ''/blocked'')
        else if status = Some ''quarantined'' then
          RedirectTo (case host of
              None \<Rightarrow> portal_url
            | Some h \<Rightarrow> portal_url @ ''/?url='' @ percent_encode_url (original_url h path_and_query))
        else NoContent))"

section \<open>Login\<close>

record login_form =
  lf_username :: string
  lf_password :: string
  lf_mac :: "string option"
  lf_endpoint_id :: "string option"
  lf_session_id :: "string option"
  lf_redirect_url :: "string option"

record auth_response_event =
  ae_session_id :: "string option"
  ae_endpoint_id :: "string option"
  ae_mac_address :: string
  ae_ip_address :: string
  ae_success :: bool
  ae_username :: "string option"
  ae_groups :: "string list"
  ae_reason :: "string option"

text \<open>
  The shared state of the handlers: the configured directory, if any, the password hash of
  \<^verbatim>\<open>LocalAuth\<close>, \<^verbatim>\<open>sign_token\<close> with the configured secret (name, groups, issued,
  expiry), the reading of identifiers by whoever decodes the event, and the default address. The
  database and the bus are the world, the address of the portal is an argument of the pages.
\<close>

record portal_state =
  ps_ldap :: "(ldap_server \<times> ldap_client) option"
  ps_password :: password_lib
  ps_sign :: "string \<Rightarrow> string list \<Rightarrow> int \<Rightarrow> int \<Rightarrow> string option"
  ps_uuid_in :: "string \<Rightarrow> uuid option"
  ps_default_mac :: "string option"

text \<open>
  What the policy manager reads out of the event (\<^verbatim>\<open>AuthResponse\<close> of
  \<^verbatim>\<open>session_handler.rs\<close>): the two identifiers must be UUIDs, and then every field is the
  one that was sent. A text that it cannot read stays on the bus as another event.
\<close>

definition read_id :: "(string \<Rightarrow> uuid option) \<Rightarrow> string option \<Rightarrow> uuid option option" where
  "read_id uuid_in s = (case s of None \<Rightarrow> Some None | Some t \<Rightarrow> map_option Some (uuid_in t))"

definition auth_message :: "(string \<Rightarrow> uuid option) \<Rightarrow> auth_response_event \<Rightarrow> nats_message" where
  "auth_message uuid_in e =
     (case (read_id uuid_in (ae_session_id e), read_id uuid_in (ae_endpoint_id e)) of
        (Some sid, Some eid) \<Rightarrow>
          AuthResponse \<lparr>ar_session_id = sid, ar_endpoint_id = eid, ar_mac_address = ae_mac_address e,
            ar_ip_address = ae_ip_address e, ar_success = ae_success e, ar_username = ae_username e,
            ar_groups = ae_groups e, ar_reason = ae_reason e\<rparr>
      | _ \<Rightarrow> OtherEvent ''nac.events.auth.response'' JNull)"

definition publish_auth_response :: "(string \<Rightarrow> uuid option) \<Rightarrow> auth_response_event \<Rightarrow> unit io" where
  "publish_auth_response uuid_in e =
     io_seq (io_ok (nats_publish (auth_message uuid_in e))) (io_return ())"

definition login_mac :: "pg \<Rightarrow> portal_state \<Rightarrow> string \<Rightarrow> login_form \<Rightarrow> string io" where
  "login_mac db st client_ip form =
     (case lf_mac form of
        Some (c # m) \<Rightarrow> io_return (c # m)
      | _ \<Rightarrow>
          (case ps_default_mac st of
             Some m \<Rightarrow> io_return m
           | None \<Rightarrow> io_bind (mac_from_db db client_ip) (\<lambda>m. io_return (runwrap_or [] m))))"

definition identify_user :: "portal_state \<Rightarrow> login_form \<Rightarrow> user_identity auth" where
  "identify_user st form =
     (case ps_ldap st of
        Some (srv, client) \<Rightarrow> (\<lambda>w. (ldap_authenticate srv client (lf_username form) (lf_password form), w))
      | None \<Rightarrow> local_authenticate (ps_password st) (lf_username form) (lf_password form))"

definition login_destination :: "login_form \<Rightarrow> string" where
  "login_destination form =
     (case lf_redirect_url form of
        Some u \<Rightarrow> if u \<noteq> [] \<and> (starts_with ''http://'' u \<or> starts_with ''https://'' u) then u else ''/success''
      | None \<Rightarrow> ''/success'')"

text \<open>The \<^verbatim>\<open>Result\<close> of the check as a value to branch on.\<close>

definition try_auth :: "'a auth \<Rightarrow> (auth_error + 'a) io" where
  "try_auth m w =
     (case m w of (Ok x, w') \<Rightarrow> (Ok (Inr x), w') | (Err e, w') \<Rightarrow> (Ok (Inl e), w') | (Panic, w') \<Rightarrow> (Panic, w'))"

definition handle_login :: "pg \<Rightarrow> portal_state \<Rightarrow> int \<Rightarrow> string \<Rightarrow> login_form \<Rightarrow> http_response io" where
  "handle_login db st now client_ip form =
     io_bind (login_mac db st client_ip form) (\<lambda>mac.
     io_bind (try_auth (identify_user st form)) (\<lambda>result.
     case result of
       Inr identity \<Rightarrow>
         (case ps_sign st (ui_username identity) (ui_groups identity) now (now + 3600) of
            None \<Rightarrow> io_return (RedirectTo ''/denied?reason=internal_error'')
          | Some token \<Rightarrow>
              io_seq (publish_auth_response (ps_uuid_in st)
                \<lparr>ae_session_id = lf_session_id form, ae_endpoint_id = lf_endpoint_id form,
                 ae_mac_address = mac, ae_ip_address = client_ip, ae_success = True,
                 ae_username = Some (ui_username identity), ae_groups = ui_groups identity,
                 ae_reason = None\<rparr>)
                (io_return (RedirectTo (login_destination form))))
     | Inl e \<Rightarrow>
         io_seq (publish_auth_response (ps_uuid_in st)
           \<lparr>ae_session_id = lf_session_id form, ae_endpoint_id = lf_endpoint_id form,
            ae_mac_address = mac, ae_ip_address = client_ip, ae_success = False, ae_username = None,
            ae_groups = [], ae_reason = Some ''invalid_credentials''\<rparr>)
           (io_return (RedirectTo ''/denied?reason=invalid_credentials''))))"

section \<open>The configured check\<close>

text \<open>
  \<^verbatim>\<open>main\<close> of the AAA service connects to a directory only when all five settings are there.
\<close>

record ldap_config =
  cf_ldap_url :: "string option"
  cf_ldap_bind_dn :: "string option"
  cf_ldap_bind_pw :: "string option"
  cf_ldap_user_base :: "string option"
  cf_ldap_user_filter :: "string option"

definition configured_ldap :: "(string \<Rightarrow> ldap_server) \<Rightarrow> ldap_config \<Rightarrow> (ldap_server \<times> ldap_client) option" where
  "configured_ldap server cfg =
     (case (cf_ldap_url cfg, cf_ldap_bind_dn cfg, cf_ldap_bind_pw cfg, cf_ldap_user_base cfg, cf_ldap_user_filter cfg) of
        (Some url, Some bind_dn, Some bind_pw, Some user_base, Some user_filter) \<Rightarrow>
          Some (server url, \<lparr>lc_bind_dn = bind_dn, lc_bind_pw = bind_pw, lc_user_base = user_base,
                             lc_user_filter = user_filter\<rparr>)
      | _ \<Rightarrow> None)"

text \<open>Without them a user of the database still gets in: nothing is denied for want of a directory.\<close>

lemma database_without_ldap:
  assumes "ps_ldap st = configured_ldap server cfg" and "cf_ldap_url cfg = None" and "schedule w = []"
    and "find_row (\<lambda>u. us_username u = lf_username form \<and> us_enabled u) (nac_users w) = Some u"
    and "hash_ok (ps_password st) (us_password_hash u)"
    and "verify_password (ps_password st) (lf_password form) (us_password_hash u)"
  shows "fst (identify_user st form w) = Ok \<lparr>ui_username = lf_username form, ui_display_name = None,
    ui_email = None, ui_groups = [us_role u]\<rparr>"
  using assms
  by (simp add: identify_user_def configured_ldap_def local_authenticate_def find_user_def stmt_def tick_def)

section \<open>Text comes back as it was\<close>

text \<open>
  What a reader of a query value and of an attribute does: \<^verbatim>\<open>%XX\<close> stands for a byte and
  \<^verbatim>\<open>+\<close> for a space, and the four entities stand for their characters.
\<close>

fun percent_decode :: "string \<Rightarrow> string" where
  "percent_decode [] = []"
| "percent_decode (c # cs) =
     (if c = CHR ''%'' then
        (case cs of
           a # b # ds \<Rightarrow> char_of (runwrap_or 0 (from_str_radix 16 256 [a, b])) # percent_decode ds
         | _ \<Rightarrow> c # percent_decode cs)
      else (if c = CHR ''+'' then CHR '' '' else c) # percent_decode cs)"

function html_unescape :: "string \<Rightarrow> string" where
  "html_unescape s =
     (case (strip_prefix ''&amp;'' s, strip_prefix ''&quot;'' s, strip_prefix ''&lt;'' s, strip_prefix ''&gt;'' s) of
        (Some t, _) \<Rightarrow> CHR ''&'' # html_unescape t
      | (None, Some t, _) \<Rightarrow> CHR ''\"'' # html_unescape t
      | (None, None, Some t, _) \<Rightarrow> CHR ''<'' # html_unescape t
      | (None, None, None, Some t) \<Rightarrow> CHR ''>'' # html_unescape t
      | (None, None, None, None) \<Rightarrow> (case s of [] \<Rightarrow> [] | c # t \<Rightarrow> c # html_unescape t))"
  by pat_completeness auto
termination
  by (relation "measure length") (auto simp: strip_prefix_Some_iff dest!: sym [where s = "Some _"])

declare html_unescape.simps [simp del]

lemma percent_decode_encode: "percent_decode (percent_encode_url s) = s"
proof (induction s)
  case (Cons c s)
  have "fmt_02X (of_char c) = [hex_upper (ccode c div 16), hex_upper (ccode c mod 16)]"
    by (simp add: fmt_02X_def)
  moreover have "runwrap_or 0 (from_str_radix 16 256 (fmt_02X (of_char c))) = ccode c"
    by simp
  moreover have "unreserved c \<Longrightarrow> c \<noteq> CHR ''%'' \<and> c \<noteq> CHR ''+''"
    by (auto simp: unreserved_def char_class_defs ccode_def)
  ultimately show ?case using Cons by (simp add: percent_encode_url_def)
qed (simp add: percent_encode_url_def)

definition escaped :: "char \<Rightarrow> string" where
  "escaped c =
     (if c = CHR ''&'' then ''&amp;'' else if c = CHR ''\"'' then ''&quot;''
      else if c = CHR ''<'' then ''&lt;'' else if c = CHR ''>'' then ''&gt;'' else [c])"

lemma html_escape_chars: "html_escape s = concat (map escaped s)"
  by (induction s) (simp_all add: html_escape_def replace_char_def escaped_def)

lemma html_unescape_escape: "html_unescape (html_escape s) = s"
proof (induction s)
  case Nil
  show ?case by (simp add: html_escape_chars html_unescape.simps)
next
  case (Cons c s)
  then show ?case
    by (subst html_unescape.simps) (simp add: html_escape_chars escaped_def)
qed

lemma html_escape_safe:
  "c \<in> set (html_escape s) \<Longrightarrow> c \<noteq> CHR ''\"'' \<and> c \<noteq> CHR ''<'' \<and> c \<noteq> CHR ''>''"
  by (auto simp: html_escape_chars escaped_def split: if_splits)

section \<open>A login is vouched for\<close>

text \<open>
  Specification: whom the configured check vouches for, by the stored users \<open>us\<close> or by the directory.
\<close>

definition vouched :: "portal_state \<Rightarrow> user_row list \<Rightarrow> login_form \<Rightarrow> user_identity \<Rightarrow> bool" where
  "vouched st us form x \<longleftrightarrow>
     ui_username x = lf_username form \<and>
     (case ps_ldap st of
        None \<Rightarrow> list_ex (\<lambda>u. us_username u = lf_username form \<and> us_enabled u
            \<and> verify_password (ps_password st) (lf_password form) (us_password_hash u)
            \<and> ui_groups x = [us_role u]) us
      | Some (srv, c) \<Rightarrow>
          lf_password form \<noteq> [] \<and> ld_bind srv (lc_bind_dn c) (lc_bind_pw c) = Some True
          \<and> (case ld_search srv (lc_user_base c) (replace ''{}'' (lf_username form) (lc_user_filter c)) of
               Some (Some (e # _)) \<Rightarrow> ld_bind srv (le_dn e) (lf_password form) = Some True
             | _ \<Rightarrow> False))"

text \<open>The only message of a login: a success for a vouched user, or a failure.\<close>

fun login_message :: "portal_state \<Rightarrow> user_row list \<Rightarrow> login_form \<Rightarrow> http_response \<Rightarrow> nats_message \<Rightarrow> bool" where
  "login_message st us form r (AuthResponse a) =
     (if ar_success a then
        (\<exists>x. vouched st us form x \<and> ar_username a = Some (lf_username form) \<and> ar_groups a = ui_groups x)
        \<and> r = RedirectTo (login_destination form)
      else ar_username a = None \<and> ar_groups a = [] \<and> r = RedirectTo ''/denied?reason=invalid_credentials'')"
| "login_message st us form r (OtherEvent subj j) =
     (read_id (ps_uuid_in st) (lf_session_id form) = None \<or> read_id (ps_uuid_in st) (lf_endpoint_id form) = None)"
| "login_message st us form r _ = False"

definition portal_calm :: "nats_message list \<Rightarrow> user_row list \<Rightarrow> world \<Rightarrow> bool" where
  "portal_calm p us w \<longleftrightarrow> published w = p \<and> nac_users w = us"

interpretation portal: io_steps "portal_calm p us" for p us
  by unfold_locales (simp add: portal_calm_def)

lemma ldap_vouched:
  "ps_ldap st = Some (srv, c) \<Longrightarrow> ldap_authenticate srv c (lf_username form) (lf_password form) = Ok x \<Longrightarrow>
   vouched st us form x"
  by (auto simp: ldap_authenticate_def vouched_def Let_def split: if_splits option.splits bool.splits list.splits)

lemma ldap_not_Panic: "ldap_authenticate srv c u p \<noteq> Panic"
  by (auto simp: ldap_authenticate_def Let_def split: option.split bool.split list.split)

lemma find_user_calm:
  "valid (portal_calm p us) (find_user u)
     (\<lambda>x w. portal_calm p us w \<and> x = map_option (\<lambda>r. (us_password_hash r, us_role r))
        (find_row (\<lambda>r. us_username r = u \<and> us_enabled r) us)) (portal_calm p us)"
  unfolding find_user_def
  by (rule valid_stmt) (auto simp: portal_calm_def valid_def)

lemma identify_vouched:
  "valid (portal_calm p us) (try_auth (identify_user st form))
     (\<lambda>r w. portal_calm p us w \<and> (\<forall>x. r = Inr x \<longrightarrow> vouched st us form x)) (\<lambda>_. False)"
proof (cases "ps_ldap st")
  case (Some sc)
  then show ?thesis
    using ldap_vouched [of st "fst sc" "snd sc" form _ us] ldap_not_Panic [of "fst sc" "snd sc"]
    by (auto simp: valid_def try_auth_def identify_user_def split: prod.split rust.split)
next
  case None
  have "valid (portal_calm p us) (try_auth (local_authenticate (ps_password st) (lf_username form) (lf_password form)))
      (\<lambda>r w. portal_calm p us w \<and> (\<forall>x. r = Inr x \<longrightarrow> vouched st us form x)) (\<lambda>_. False)"
  proof (rule validI)
    fix w r w'
    assume w: "portal_calm p us w"
      and m: "try_auth (local_authenticate (ps_password st) (lf_username form) (lf_password form)) w = (Ok r, w')"
    obtain f w1 where f: "find_user (lf_username form) w = (f, w1)" by fastforce
    show "portal_calm p us w' \<and> (\<forall>x. r = Inr x \<longrightarrow> vouched st us form x)"
    proof (cases f)
      case (Ok found)
      with f valid_OkD [OF find_user_calm w] have "portal_calm p us w1"
        "found = map_option (\<lambda>r. (us_password_hash r, us_role r))
          (find_row (\<lambda>r. us_username r = lf_username form \<and> us_enabled r) us)" by blast+
      with m f Ok show ?thesis
        by (auto simp: try_auth_def local_authenticate_def vouched_def None list_ex_iff
          dest!: find_row_SomeD split: option.splits if_splits)
    next
      case (Err e)
      with f valid_ErrD [OF find_user_calm w] have "portal_calm p us w1" by blast
      with m f Err show ?thesis by (auto simp: try_auth_def local_authenticate_def)
    next
      case Panic
      with m f show ?thesis by (simp add: try_auth_def local_authenticate_def)
    qed
  next
    fix w w'
    assume "portal_calm p us w"
    then have "fst (find_user (lf_username form) w) \<noteq> Panic" by (rule valid_PanicD [OF find_user_calm])
    then show "try_auth (local_authenticate (ps_password st) (lf_username form) (lf_password form)) w \<noteq> (Panic, w')"
      by (auto simp: try_auth_def local_authenticate_def split: prod.splits rust.splits option.splits if_splits)
  qed (auto simp: try_auth_def split: prod.splits rust.splits)
  then show ?thesis by (simp add: identify_user_def None)
qed

lemma login_mac_calm: "valid (portal_calm p us) (login_mac db st ip form) (\<lambda>_. portal_calm p us) (\<lambda>_. False)"
proof -
  have "valid (portal_calm p us) (mac_from_db db ip) (\<lambda>_. portal_calm p us) (\<lambda>_. False)"
    unfolding mac_from_db_def portal_lookup_def
    by (intro valid_bind [where R = "\<lambda>_. portal_calm p us"] valid_ok valid_stmt valid_return)
      (auto simp: portal_calm_def valid_def)
  then show ?thesis
    unfolding login_mac_def
    by (auto intro!: valid_return valid_bind split: option.split list.split)
qed

lemma publish_auth_response_once:
  "valid (portal_calm p us) (publish_auth_response uuid_in e)
     (\<lambda>_ w. published w = p \<or> published w = p @ [auth_message uuid_in e]) (\<lambda>_. False)"
  unfolding publish_auth_response_def nats_publish_def
  by (intro valid_seq [where R = "\<lambda>w. published w = p \<or> published w = p @ [auth_message uuid_in e]"] valid_ok valid_return)
    (auto simp: valid_def stmt_def portal_calm_def split: list.split delivery.split)

lemma publish_then:
  "valid (portal_calm p us) (io_seq (publish_auth_response uuid_in e) (io_return r))
     (\<lambda>r' w. r' = r \<and> (published w = p \<or> published w = p @ [auth_message uuid_in e])) (\<lambda>_. False)"
  by (rule valid_seq [OF publish_auth_response_once]) (simp add: valid_return)

lemma handle_login_vouched:
  "valid (portal_calm p us) (handle_login db st now ip form)
     (\<lambda>r w. published w = p \<or> (\<exists>m. published w = p @ [m] \<and> login_message st us form r m)) (\<lambda>_. False)"
  (is "valid _ _ ?post _")
  unfolding handle_login_def
proof (intro valid_bind [OF login_mac_calm] valid_bind [OF identify_vouched])
  fix mac r
  have publish: "valid (\<lambda>w. portal_calm p us w \<and> V) (io_seq (publish_auth_response (ps_uuid_in st) e) (io_return r')) ?post (\<lambda>_. False)"
    if "V \<Longrightarrow> login_message st us form r' (auth_message (ps_uuid_in st) e)" for V e r'
    using that by (cases V) (auto simp: valid_def [of "\<lambda>_. False"] intro: valid_weaken [OF publish_then])
  show "valid (\<lambda>w. portal_calm p us w \<and> (\<forall>x. r = Inr x \<longrightarrow> vouched st us form x))
     (case r of
       Inr identity \<Rightarrow>
         (case ps_sign st (ui_username identity) (ui_groups identity) now (now + 3600) of
            None \<Rightarrow> io_return (RedirectTo ''/denied?reason=internal_error'')
          | Some token \<Rightarrow>
              io_seq (publish_auth_response (ps_uuid_in st)
                \<lparr>ae_session_id = lf_session_id form, ae_endpoint_id = lf_endpoint_id form,
                 ae_mac_address = mac, ae_ip_address = ip, ae_success = True,
                 ae_username = Some (ui_username identity), ae_groups = ui_groups identity,
                 ae_reason = None\<rparr>)
                (io_return (RedirectTo (login_destination form))))
     | Inl e \<Rightarrow>
         io_seq (publish_auth_response (ps_uuid_in st)
           \<lparr>ae_session_id = lf_session_id form, ae_endpoint_id = lf_endpoint_id form,
            ae_mac_address = mac, ae_ip_address = ip, ae_success = False, ae_username = None,
            ae_groups = [], ae_reason = Some ''invalid_credentials''\<rparr>)
           (io_return (RedirectTo ''/denied?reason=invalid_credentials'')))
     ?post (\<lambda>_. False)"
  proof (cases r)
    case (Inl e)
    then show ?thesis
      by (simp only: sum.case) (rule publish, auto simp: auth_message_def split: option.split)
  next
    case (Inr x)
    show ?thesis
    proof (cases "ps_sign st (ui_username x) (ui_groups x) now (now + 3600)")
      case None
      then show ?thesis by (auto simp: Inr portal_calm_def intro: valid_return)
    next
      case (Some token)
      have "vouched st us form x \<Longrightarrow> ui_username x = lf_username form" by (simp add: vouched_def)
      then show ?thesis
        unfolding Inr sum.case Some option.case
        by (intro publish) (auto simp: auth_message_def split: option.split)
    qed
  qed
qed

section \<open>Back to where the user was going\<close>

lemma replace_skip:
  "\<not> contains p (a @ butlast p) \<Longrightarrow> p \<noteq> [] \<Longrightarrow> replace p r (a @ p @ b) = a @ r @ replace p r b"
proof (induction a)
  case Nil
  have "strip_prefix p (p @ b) = Some b" by (simp add: strip_prefix_Some_iff)
  with Nil.prems(2) show ?case by (cases p) simp_all
next
  case (Cons x a)
  have "strip_prefix p (x # a @ p @ b) = None"
  proof (rule ccontr)
    assume "strip_prefix p (x # a @ p @ b) \<noteq> None"
    then obtain t where t: "x # a @ p @ b = p @ t" by (auto simp: strip_prefix_Some_iff)
    have "p = take (length p) (x # a @ p @ b)" unfolding t by simp
    also have "\<dots> = take (length p) (x # a @ butlast p)"
      using Cons.prems(2) by (cases p rule: rev_cases) (simp_all add: take_Cons' take_append)
    finally have "x # a @ butlast p = p @ drop (length p) (x # a @ butlast p)" by (metis append_take_drop_id)
    then have "contains p (x # a @ butlast p)" by (metis append_Nil contains_iff)
    with Cons.prems(1) show False by simp
  qed
  moreover have "\<not> contains p (a @ butlast p)" using Cons.prems(1) by simp
  ultimately show ?case using Cons by simp
qed

lemma replace_absent: "\<not> contains p s \<Longrightarrow> replace p r s = s"
  by (induction p r s rule: replace.induct) (auto simp: starts_with_def split: option.splits)

lemma login_page:
  assumes "login_template pg = a @ ''{{MAC}}'' @ b @ ''{{REDIRECT_URL}}'' @ c"
    and "\<not> contains ''{{MAC}}'' (a @ butlast ''{{MAC}}'')"
    and "\<not> contains ''{{MAC}}'' (b @ ''{{REDIRECT_URL}}'' @ c)"
    and "\<not> contains ''{{REDIRECT_URL}}'' ((a @ mac @ b) @ butlast ''{{REDIRECT_URL}}'')"
    and "\<not> contains ''{{REDIRECT_URL}}'' c"
  shows "login_html pg mac u = a @ mac @ b @ html_escape u @ c"
  using replace_skip [OF assms(2), of mac "b @ ''{{REDIRECT_URL}}'' @ c"] replace_absent [OF assms(3), of mac]
    replace_skip [OF assms(4), of "html_escape u" c] replace_absent [OF assms(5), of "html_escape u"]
  by (simp add: login_html_def assms(1) del: contains.simps replace.simps)

lemma denied_page_reflects:
  assumes "denied_html pg = a @ ''{{REASON}}'' @ c"
    and "\<not> contains ''{{REASON}}'' (a @ butlast ''{{REASON}}'')" and "\<not> contains ''{{REASON}}'' c"
  shows "denied_page pg unknown (Some markup) = a @ markup @ c"
  using replace_skip [OF assms(2), of markup c] replace_absent [OF assms(3), of markup]
  by (simp add: denied_page_def assms(1) del: contains.simps replace.simps)

lemma original_url_http: "starts_with ''http://'' (original_url host pq)"
  by (simp add: original_url_def starts_with_iff)

lemma way_back:
  "percent_decode (percent_encode_url (original_url host pq)) = original_url host pq"
  "html_unescape (html_escape (original_url host pq)) = original_url host pq"
  "list_all (\<lambda>c. c \<noteq> CHR ''\"'' \<and> c \<noteq> CHR ''<'' \<and> c \<noteq> CHR ''>'') (html_escape (original_url host pq))"
  "login_destination (form\<lparr>lf_redirect_url := Some (original_url host pq)\<rparr>) = original_url host pq"
  using html_escape_safe original_url_http
  by (auto simp: percent_decode_encode html_unescape_escape list_all_iff login_destination_def original_url_def)

lemma portal_lookup_run:
  "schedule w = [] \<Longrightarrow> portal_lookup db col ip w =
     (Ok (map_option col (find_row (\<lambda>r. map_option (inet_host db) (ep_ip_address r) = Some ip) (endpoints w))), tick w)"
  by (simp add: portal_lookup_def io_bind_def io_ok_def stmt_def flatten_def)

lemma catch_all_run:
  "schedule w = [] \<Longrightarrow> fst (catch_all db portal_url ip pq host w) = Ok
     (let status = map_option ep_status (find_row (\<lambda>r. map_option (inet_host db) (ep_ip_address r) = Some ip) (endpoints w))
      in if status = Some ''denied'' then RedirectTo (portal_url @ ''/blocked'')
         else if status = Some ''quarantined'' then
           RedirectTo (case host of None \<Rightarrow> portal_url
             | Some h \<Rightarrow> portal_url @ ''/?url='' @ percent_encode_url (original_url h pq))
         else NoContent)"
  by (simp add: catch_all_def io_bind_def endpoint_status_def portal_lookup_run Let_def)

section \<open>The portal and the database\<close>

lemma portal_lookup_keeps [store_keeps]: "keeps store_inv (portal_lookup db col ip)"
  unfolding portal_lookup_def by (intro inv_rules inv.keeps_read) simp

lemma portal_pages_keep:
  "keeps store_inv (probe db portal_url answer ip)" "keeps store_inv (landing_page db pg ip url)"
  "keeps store_inv (catch_all db portal_url ip pq host)"
  unfolding probe_def landing_page_def catch_all_def mac_from_db_def endpoint_status_def Let_def
  by (intro inv_rules portal_lookup_keeps)+

lemma identify_keeps:
  assumes "io_steps I"
  shows "keeps I (try_auth (identify_user st form))"
proof (cases "ps_ldap st")
  case (Some sc)
  then show ?thesis
    using ldap_not_Panic [of "fst sc" "snd sc"]
    by (auto simp: keeps_def valid_def try_auth_def identify_user_def split: prod.split rust.split)
next
  case None
  have f: "keeps I (find_user u)" for u unfolding find_user_def by (rule io_steps.keeps_read [OF assms]) simp
  have "keeps I (try_auth (local_authenticate lib u pw))" for lib u pw
    unfolding keeps_def
  proof (rule validI)
    fix w r w'
    assume "I w" and "try_auth (local_authenticate lib u pw) w = (Ok r, w')"
    then show "I w'"
      using f [of u] by (auto simp: keeps_def try_auth_def local_authenticate_def
        dest: valid_OkD valid_ErrD split: prod.splits rust.splits option.splits if_splits)
  next
    fix w w'
    assume "I w"
    then have "fst (find_user u w) \<noteq> Panic" using f [of u] by (auto simp: keeps_def dest: valid_PanicD)
    then show "try_auth (local_authenticate lib u pw) w \<noteq> (Panic, w')"
      by (auto simp: try_auth_def local_authenticate_def split: prod.splits rust.splits option.splits if_splits)
  qed (auto simp: try_auth_def split: prod.splits rust.splits)
  then show ?thesis by (simp add: identify_user_def None)
qed

lemma handle_login_keeps: "keeps store_inv (handle_login db st now ip form)"
  unfolding handle_login_def login_mac_def mac_from_db_def publish_auth_response_def
  by (auto intro!: inv_rules store_keeps identify_keeps [OF inv.io_steps_axioms] split: option.split list.split sum.split)

text \<open>
  The name is put into the filter as it is: an asterisk searches for every user. The identity still
  carries the name that was typed, not that of the entry whose password was checked.
\<close>

lemma wildcard_name_identified:
  assumes "lc_user_filter client = ''(uid={})''" and "ld_connect srv" and "password \<noteq> []"
    and "ld_bind srv (lc_bind_dn client) (lc_bind_pw client) = Some True"
    and "ld_search srv (lc_user_base client) ''(uid=*)'' = Some (Some (entry # others))"
    and "ld_bind srv (le_dn entry) password = Some True"
  shows "\<exists>x. ldap_authenticate srv client ''*'' password = Ok x \<and> ui_username x = ''*''"
proof -
  have "replace ''{}'' ''*'' (lc_user_filter client) = ''(uid=*)''"
    unfolding assms(1) by code_simp
  then show ?thesis using assms(2-) by (simp add: ldap_authenticate_def Let_def)
qed

end
