(* ===== verification/CommandBus.thy ===== *)
theory CommandBus
  imports PmApi AgentGateway Radius Portal
begin

text \<open>
  The commands on the bus, whichever service publishes them. One invariant of the shared world covers
  the rows and the messages together: every stored hardware address is one that the database has
  printed, and every enforcement command carries an action the enforcement agent knows and such an
  address. Every handler keeps it, under all faults; a handler that reads a row and then publishes
  about it is covered by following the row through the handler (\<open>yields\<close>).
\<close>

named_theorems orderly_ops "operations that keep rows and bus in order"

section \<open>The invariant\<close>

text \<open>The actions the enforcement agent maps without its fallback.\<close>

definition known_actions :: "string list" where
  "known_actions = [''allow'', ''allowed'', ''block'', ''blocked'', ''denied'', ''quarantine'', ''quarantined'']"

text \<open>
  A text the database prints for a hardware address, the same in lower case as the ARP
  synchronisation has it, or the null address of the rules for IP addresses.
\<close>

definition printed :: "pg \<Rightarrow> string \<Rightarrow> bool" where
  "printed db m \<longleftrightarrow> m = zero_mac \<or> (\<exists>s x. mac_in db s = Some x \<and> (m = x \<or> m = to_lowercase x))"

fun proper :: "pg \<Rightarrow> nats_message \<Rightarrow> bool" where
  "proper db (Enforcement c) = (cmd_action c \<in> set known_actions \<and> printed db (cmd_mac_address c))"
| "proper db m = True"

definition macs :: "world \<Rightarrow> string set" where
  "macs w = ep_mac_address ` set (endpoints w)"

definition orderly :: "pg \<Rightarrow> nats_message list \<Rightarrow> world \<Rightarrow> bool" where
  "orderly db p w \<longleftrightarrow> macs w \<subseteq> Collect (printed db) \<and> only_speaks (proper db) p w"

interpretation orderly: io_steps "orderly db p" for db p
  by unfold_locales (simp add: orderly_def macs_def only_speaks_def)

abbreviation row_printed :: "pg \<Rightarrow> endpoint_row \<Rightarrow> bool" where
  "row_printed db r \<equiv> printed db (ep_mac_address r)"

lemma printed_zero: "printed db ''00:00:00:00:00:00''" "printed db zero_mac"
  by (simp_all add: printed_def zero_mac_def)

lemma printed_lower:
  assumes "printed db m"
  shows "printed db (to_lowercase m)"
proof (cases "m = zero_mac")
  case True
  then have "to_lowercase m = zero_mac" by (simp add: zero_mac_def) code_simp
  then show ?thesis by (simp add: printed_zero)
next
  case False
  with assms obtain s x where "mac_in db s = Some x" "m = x \<or> m = to_lowercase x" by (auto simp: printed_def)
  moreover have "to_lowercase (to_lowercase x) = to_lowercase x" by (simp add: comp_def)
  ultimately show ?thesis unfolding printed_def by metis
qed

section \<open>Statements\<close>

lemma macs_update: "(\<And>r. ep_mac_address (f r) = ep_mac_address r) \<Longrightarrow>
   ep_mac_address ` set (update_rows P f rows) = ep_mac_address ` set rows"
  unfolding update_rows_def by (induction rows) auto

lemma orderly_stmt:
  assumes "\<And>w. fst (f w) \<noteq> Panic" and "\<And>w. published (snd (f w)) = published w"
    and "\<And>w. macs (snd (f w)) \<subseteq> macs w"
  shows "keeps (orderly db p) (stmt f)"
proof (rule orderly.keeps_stmt)
  fix w
  assume "orderly db p w"
  with assms(2,3) [of w] show "orderly db p (snd (f w))" by (auto simp: orderly_def only_speaks_def)
qed (rule assms(1))

lemma orderly_frame:
  assumes "\<And>p. keeps (\<lambda>w. published w = p) m" and "\<And>es. keeps (\<lambda>w. endpoints w = es) m"
  shows "keeps (orderly db p) m"
  unfolding keeps_def valid_def
proof (intro allI impI)
  fix w :: world
  assume "orderly db p w"
  then show "case m w of (Ok x, w') \<Rightarrow> orderly db p w' | (Err e, w') \<Rightarrow> orderly db p w' | (Panic, w') \<Rightarrow> False"
    using assms(1) [of "published w"] assms(2) [of "endpoints w"]
    by (fastforce simp: keeps_def valid_def orderly_def macs_def only_speaks_def split: prod.splits rust.splits)
qed

lemma orderly_publish: "proper db m \<Longrightarrow> keeps (orderly db p) (nats_publish m)"
  unfolding nats_publish_def
  by (rule orderly.keeps_stmt) (auto simp: orderly_def macs_def only_speaks_def intro: exI [of _ "_ @ [m]"])

lemma orderly_evaluate [orderly_ops]: "keeps (orderly db p) (io_evaluate rules ctx)"
  unfolding io_evaluate_def
  by (rule orderly.keeps_pure) (auto simp: evaluate_not_panic split: rust.splits)

lemma orderly_frames [orderly_ops]:
  "keeps (orderly db p) (ep_list l f)" "keeps (orderly db p) (ep_find_by_mac db' m)"
  "keeps (orderly db p) (ep_find_by_agent_id a)" "keeps (orderly db p) (ep_find_by_id i)"
  "keeps (orderly db p) (se_create cs)" "keeps (orderly db p) (se_find_active_by_endpoint i)"
  "keeps (orderly db p) (se_find_by_id i)" "keeps (orderly db p) (se_transition i st u)"
  "keeps (orderly db p) (se_terminate i)" "keeps (orderly db p) (po_find_by_id i)"
  "keeps (orderly db p) (audit e eid a' d)" "keeps (orderly db p) (posture_save db' i rep c)"
  "keeps (orderly db p) (po_load_rules db')" "keeps (orderly db p) (po_load_rules_with_id db')"
  "keeps (orderly db p) (po_find_rule_by_id db' i)"
  by (rule orderly_frame; rule store_quiet store_frame)+

lemma orderly_updates [orderly_ops]:
  "keeps (orderly db p) (ep_set_status i s)" "keeps (orderly db p) (ep_set_policy i pid)"
  "keeps (orderly db p) (ep_set_exempt i b)" "keeps (orderly db p) (ep_set_username i u)"
  "keeps (orderly db p) (ep_set_compliance i b)" "keeps (orderly db p) (ep_update_posture_fields i pf)"
  "keeps (orderly db p) (update_ip db' ip mac)" "keeps (orderly db p) reset_authenticated"
  unfolding ep_set_status_def ep_set_policy_def ep_set_exempt_def ep_set_username_def ep_set_compliance_def
    ep_update_posture_fields_def update_ip_def reset_authenticated_def
  by (rule orderly_stmt; auto simp: update_endpoint_def macs_def macs_update split: option.splits)+

lemma orderly_reads [orderly_ops]:
  "keeps (orderly db p) (portal_lookup db' col ip)" "keeps (orderly db p) ep_count"
  "keeps (orderly db p) terminate_open_sessions" "keeps (orderly db p) select_ip_rules"
  unfolding portal_lookup_def ep_count_def terminate_open_sessions_def select_ip_rules_def
  by (auto simp: macs_def intro!: orderly.keeps_bind orderly.keeps_ok orderly.keeps_return orderly_stmt)

lemmas orderly_rules = orderly.keeps_return orderly.keeps_fail orderly.keeps_bind orderly.keeps_seq
  orderly.keeps_ok orderly.keeps_when orderly.keeps_list

section \<open>Rows that are read\<close>

lemma orderly_macs: "orderly db p w \<Longrightarrow> r \<in> set (endpoints w) \<Longrightarrow> row_printed db r"
  by (auto simp: orderly_def macs_def)

lemma find_row_printed: "orderly db p w \<Longrightarrow> pred_option (row_printed db) (find_row P (endpoints w))"
  by (auto simp: pred_option_def elim: option.set_cases dest!: find_row_SomeD intro: orderly_macs)

lemma found_rows:
  "yields (orderly db p) (pred_option (row_printed db)) (ep_find_by_mac db' m)"
  "yields (orderly db p) (pred_option (row_printed db)) (ep_find_by_id i)"
  "yields (orderly db p) (pred_option (row_printed db)) (ep_find_by_host db' ip)"
  unfolding ep_find_by_mac_def ep_find_by_id_def ep_find_by_host_def
  by (rule orderly.yields_stmt; auto intro: find_row_printed split: option.splits)+

lemma listed_rows: "yields (orderly db p) (list_all (row_printed db)) (ep_list l f)"
  unfolding ep_list_def
proof (rule orderly.yields_stmt)
  fix w rows
  assume "orderly db p w" and "fst (page l f (sort_key (\<lambda>r. - ep_last_seen r) (endpoints w)), w) = Ok rows"
  then have "set rows \<subseteq> set (endpoints w)"
    by (auto simp: page_def split: if_splits dest!: in_set_takeD in_set_dropD)
  with \<open>orderly db p w\<close> show "list_all (row_printed db) rows"
    by (auto simp: list_all_iff intro: orderly_macs)
qed (auto simp: page_def)

lemma selected_rows:
  "yields (orderly db p) (list_all (\<lambda>(m, i). printed db m)) select_addresses"
  "yields (orderly db p) (list_all (\<lambda>(m, i, s). printed db m)) select_enforced"
  "yields (orderly db p) (list_all (\<lambda>(j, m, i). printed db m)) reset_authenticated"
proof -
  show "yields (orderly db p) (list_all (\<lambda>(m, i). printed db m)) select_addresses"
    "yields (orderly db p) (list_all (\<lambda>(m, i, s). printed db m)) select_enforced"
    unfolding select_addresses_def select_enforced_def
    by (rule orderly.yields_stmt; auto simp: list_all_iff intro: orderly_macs)+
  show "yields (orderly db p) (list_all (\<lambda>(j, m, i). printed db m)) reset_authenticated"
    unfolding reset_authenticated_def
  proof (rule orderly.yields_stmt)
    fix w
    assume "orderly db p w"
    then show "orderly db p (snd (Ok (map (\<lambda>r. (ep_id r, ep_mac_address r, ep_ip_address r)) (filter needs_reauth (endpoints w))),
        w\<lparr>endpoints := update_rows needs_reauth (\<lambda>r. r\<lparr>ep_status := ''quarantined'', ep_username := None\<rparr>) (endpoints w)\<rparr>))"
      by (simp add: orderly_def macs_def macs_update only_speaks_def)
  qed (auto simp: list_all_iff intro: orderly_macs)
qed

lemma printedI: "mac_in db s = Some x \<Longrightarrow> printed db x"
  by (auto simp: printed_def)

lemma orderly_write:
  assumes "orderly db p w" and "row_printed db r"
  shows "orderly db p (w\<lparr>endpoints := endpoints w @ [r], fresh := n\<rparr>)"
    and "orderly db p (w\<lparr>endpoints := update_rows P (\<lambda>_. r) (endpoints w)\<rparr>)"
  using assms by (auto simp: orderly_def macs_def only_speaks_def set_update_rows)

lemma row_mac [simp]: "ep_mac_address (new_endpoint ep mac ip w) = mac"
  "ep_mac_address (merge_endpoint ep ip t r) = ep_mac_address r"
  by (simp_all add: new_endpoint_def merge_endpoint_def)

lemma found_printed: "orderly db p w \<Longrightarrow> find_row P (endpoints w) = Some r \<Longrightarrow> row_printed db r"
  using find_row_printed [of db p w P] by simp

lemma upserted_row: "yields (orderly db p) (row_printed db) (ep_upsert db ep)"
  unfolding ep_upsert_def
  by (rule orderly.yields_stmt;
      auto simp: cast_inet_def Let_def split: option.splits rust.splits if_splits
        intro!: orderly_write;
      (erule printedI | erule (1) found_printed))

lemma moved_row [orderly_ops]: "keeps (orderly db p) (ep_upsert_by_agent_id db ep)"
proof (cases "up_agent_id ep")
  case (Some a)
  show ?thesis
    unfolding ep_upsert_by_agent_id_def Some option.case
    by (auto intro!: orderly.keeps_return orderly.keeps_stmt orderly_write simp: cast_inet_def Let_def
        split: option.splits rust.splits if_splits; erule printedI)
qed (simp add: ep_upsert_by_agent_id_def orderly.keeps_return)

lemmas upsert_orderly [orderly_ops] = upserted_row [THEN yields_keeps]

lemmas host_orderly [orderly_ops] = found_rows(3) [THEN yields_keeps]

section \<open>Handlers that publish commands\<close>

lemma decision_known: "decision_to_status d \<in> set known_actions"
  by (cases d) (simp_all add: decision_to_status_def known_actions_def)

lemma action_known:
  "status_action s = Some a \<Longrightarrow> a \<in> set known_actions" "auth_action s \<in> set known_actions"
  "b = ''block'' \<or> b = ''quarantine'' \<or> b = ''allow'' \<Longrightarrow> b \<in> set known_actions"
  by (auto simp: status_action_def auth_action_def known_actions_def split: if_splits)

lemma orderly_commands:
  "printed db m \<Longrightarrow> keeps (orderly db p) (publish_enforcement_command m ip s d)"
  "printed db m \<Longrightarrow> keeps (orderly db p) (publish_auth_command m ip s d)"
  "printed db m \<Longrightarrow> a \<in> set known_actions \<Longrightarrow> keeps (orderly db p) (publish_enforcement m i a)"
  "keeps (orderly db p) (publish_ip_enforcement i b)"
proof -
  show "keeps (orderly db p) (publish_enforcement_command m ip s d)" if "printed db m"
  proof (cases "status_action s")
    case (Some a)
    with action_known(1) [OF Some] that show ?thesis
      by (auto simp: publish_enforcement_command_def intro!: orderly_rules orderly_publish)
  qed (simp add: publish_enforcement_command_def orderly.keeps_return)
  show "keeps (orderly db p) (publish_auth_command m ip s d)" if "printed db m"
    unfolding publish_auth_command_def Let_def
    by (intro orderly_rules orderly_publish) (simp add: action_known that)
  show "keeps (orderly db p) (publish_enforcement m i a)" if "printed db m" "a \<in> set known_actions"
    unfolding publish_enforcement_def by (intro orderly_rules orderly_publish) (simp add: that)
  show "keeps (orderly db p) (publish_ip_enforcement i b)"
  proof (cases "b = ''block'' \<or> b = ''quarantine'' \<or> b = ''allow''")
    case True
    with action_known(3) [OF True] show ?thesis
      unfolding publish_ip_enforcement_def
      by (simp only: if_True, intro orderly_rules orderly_publish) (simp add: printed_zero)
  qed (simp add: publish_ip_enforcement_def orderly.keeps_return)
qed

lemma orderly_process_event: "keeps (orderly db p) (process_event db event)"
proof -
  have change: "keeps (orderly db p) (change_status db row ip d)" if "row_printed db row" for row ip d
    unfolding change_status_def Let_def by (auto intro!: orderly_rules orderly_ops orderly_commands that)
  have find: "keeps (orderly db p) (io_ok (ep_find_by_mac db m))" for m
    by (intro orderly_rules orderly_ops)
  show ?thesis
    unfolding process_event_def Let_def
    by (rule orderly.keeps_bind [OF find bind_yields [OF upserted_row]])
       (auto intro!: orderly_rules orderly_ops orderly_commands change)
qed

lemma resolved_row: "yields (orderly db p) (pred_option (row_printed db)) (resolve_endpoint db resp)"
proof -
  let ?V = "pred_option (pred_option (row_printed db))"
  have look: "yields (orderly db p) ?V (case ar_endpoint_id resp of
          Some eid \<Rightarrow> io_bind (ep_find_by_id eid) (\<lambda>e. io_return (Some e))
        | None \<Rightarrow>
            if ar_mac_address resp \<noteq> [] then
              io_bind (ep_find_by_mac db (ar_mac_address resp)) (\<lambda>e. io_return (Some e))
            else if ar_ip_address resp \<noteq> [] then
              io_bind (ep_find_by_host db (ar_ip_address resp)) (\<lambda>e. io_return (Some e))
            else io_return None)"
    by (auto intro!: yields_bind [OF found_rows(1)] yields_bind [OF found_rows(2)] yields_bind [OF found_rows(3)]
        yields_return split: option.split)
  show ?thesis
    unfolding resolve_endpoint_def
  proof (rule yields_bind [OF look])
    fix looked
    assume "?V looked"
    then show "yields (orderly db p) (pred_option (row_printed db)) (case looked of
       None \<Rightarrow> io_return None
     | Some (Some e) \<Rightarrow> io_return (Some e)
     | Some None \<Rightarrow>
         if ar_mac_address resp = [] then io_return None
         else
           io_bind (ep_upsert db
              \<lparr>up_mac_address = ar_mac_address resp,
               up_ip_address = (if ar_ip_address resp = [] then None else Some (ar_ip_address resp)),
               up_hostname = None, up_os_family = None, up_os_version = None,
               up_device_type = None, up_vendor = None, up_interface = None, up_agent_id = None\<rparr>)
             (\<lambda>e. io_return (Some e)))"
      by (auto intro!: yields_return yields_bind [OF upserted_row] split: option.split)
  qed
qed

lemma orderly_process_auth: "keeps (orderly db p) (process_auth_response db resp)"
  unfolding process_auth_response_def auth_success_def auth_failure_def Let_def
  by (rule bind_yields [OF resolved_row])
     (auto intro!: orderly_rules orderly_ops orderly_commands split: option.split)

lemma orderly_process_posture: "keeps (orderly db p) (process_posture db rep)"
  unfolding process_posture_def posture_known_def Let_def
  by (rule bind_yields [OF found_rows(1)])
     (auto intro!: orderly_rules orderly_ops orderly_publish simp: status_command_def decision_known split: option.split)

section \<open>Evaluation and background tasks\<close>

text \<open>The values a request may give as the default action of an evaluation.\<close>

definition default_actions :: "string option list" where
  "default_actions = [None, Some ''allowed'', Some ''denied'', Some ''quarantined'']"

abbreviation known :: "string option \<Rightarrow> bool" where
  "known \<equiv> pred_option (\<lambda>s. s \<in> set known_actions)"

lemma find_status_known: "known (find_status db rules ep)"
  by (induction db rules ep rule: find_status.induct) (auto simp: decision_known)

lemma assigned_known: "yields (orderly db p) known (assigned_status db' rules pid)"
proof (cases "map_of (rev rules) pid")
  case None
  show ?thesis
    unfolding assigned_status_def None option.case
    by (rule yields_bind [where V = "\<lambda>_. True"])
       (auto intro!: keeps_yields orderly_rules orderly_ops yields_return
        simp: option.pred_map comp_def decision_known option.pred_True)
qed (auto simp: assigned_status_def decision_known intro!: yields_return)

lemma orderly_evaluate_loop:
  assumes "dflt \<in> set default_actions"
  shows "list_all (row_printed db) eps \<Longrightarrow> keeps (orderly db p) (evaluate_loop db' rules dflt eps c s)"
proof (induction eps arbitrary: c s)
  case (Cons ep eps)
  have step: "keeps (orderly db p) (case opt_or x dflt of
          None \<Rightarrow> evaluate_loop db' rules dflt eps c s
        | Some status \<Rightarrow>
            if ep_status ep \<noteq> status then
              io_seq (ep_set_status (ep_id ep) status)
             (io_seq (io_ok (nats_publish (Enforcement (status_command ep status))))
                (evaluate_loop db' rules dflt eps (c + 1) s))
            else evaluate_loop db' rules dflt eps c s)" if "known x" for x
  proof (cases "opt_or x dflt")
    case (Some status)
    then have "status \<in> set known_actions"
      using that assms by (auto simp: opt_or_eq_Some default_actions_def known_actions_def)
    then show ?thesis
      using Cons.prems unfolding Some option.case
      by (auto intro!: orderly_rules orderly_ops orderly_publish Cons.IH simp: status_command_def)
  next
    case None
    show ?thesis unfolding None option.case by (rule Cons.IH) (use Cons.prems in simp)
  qed
  have "yields (orderly db p) known (case ep_assigned_policy_id ep of
         Some pid \<Rightarrow> assigned_status db' rules pid
       | None \<Rightarrow> io_return (find_status db' rules ep))"
    by (auto intro!: assigned_known yields_return find_status_known split: option.split)
  from bind_yields [OF this step] show ?case using Cons by simp
qed (simp add: orderly.keeps_return)

lemma orderly_evaluate_policies:
  "dflt \<in> set default_actions \<Longrightarrow> keeps (orderly db p) (evaluate_policies db' dflt)"
  unfolding evaluate_policies_def
  by (auto intro!: orderly_rules orderly_ops bind_yields [OF listed_rows] orderly_evaluate_loop split: prod.split)

lemma enforced_actions: "''quarantine'' \<in> set known_actions" "''block'' \<in> set known_actions"
  by (simp_all add: known_actions_def)

lemma orderly_reconcile: "keeps (orderly db p) reconcile"
proof -
  have loops: "list_all (\<lambda>(j, m, i). printed db m) xs \<Longrightarrow> keeps (orderly db p) (io_list reauth_one xs)"
    "list_all (\<lambda>(m, i, s). printed db m) ys \<Longrightarrow> keeps (orderly db p) (io_list reapply_one ys)"
    "keeps (orderly db p) (io_list reapply_rule zs)" for xs ys zs
    unfolding reauth_one_def reapply_one_def reapply_rule_def
    by (rule orderly.keeps_list;
        auto simp: list_all_iff intro!: orderly_rules orderly_ops orderly_commands enforced_actions printed_zero)+
  show ?thesis
    unfolding reconcile_def
    by (intro orderly.keeps_seq bind_yields [OF selected_rows(3)] bind_yields [OF selected_rows(2)] loops
        orderly.keeps_bind [where m = select_ip_rules] orderly.keeps_ok orderly_ops; assumption?)
qed

text \<open>An address of the ARP table is published again only when a row has it, in whatever case.\<close>

lemma existing_printed:
  assumes "list_all (\<lambda>(m, i). printed db m) rows" and "existing_map rows mac \<noteq> None"
  shows "printed db mac"
proof -
  have "mac \<in> fst ` set (map (\<lambda>(m, i). (to_lowercase m, i)) rows)"
    using assms(2) by (auto simp: existing_map_def map_of_eq_None_iff)
  with assms(1) show ?thesis by (auto simp: list_all_iff intro!: printed_lower dest: bspec)
qed

lemma orderly_arp_sync: "keeps (orderly db p) (arp_sync db' now arp route order pend)"
proof -
  have res: "keeps (orderly db p) (resend mac ip found)" if "printed db mac" for mac ip found
    unfolding resend_def
    by (auto intro!: orderly_rules orderly_commands that enforced_actions split: option.split)
  have one: "keeps (orderly db p) (sync_one db' now gws existing mac ip pend)"
    if "existing mac \<noteq> None \<Longrightarrow> printed db mac" for gws existing mac ip pend
    unfolding sync_one_def Let_def detected_event_def
    by (auto intro!: orderly_rules orderly_ops orderly_publish res that)
  have loop: "keeps (orderly db p) (sync_loop db' now gws (existing_map rows) xs pend)"
    if "list_all (\<lambda>(m, i). printed db m) rows" for gws rows xs pend
    by (induction xs arbitrary: pend) (auto intro!: orderly_rules one existing_printed [OF that])
  show ?thesis
    unfolding arp_sync_def Let_def
    by (auto intro!: orderly_rules bind_yields [OF selected_rows(1)] loop split: option.split)
qed

section \<open>The other services\<close>

lemma orderly_agents:
  "keeps (orderly db p) (register db sign now remote req)"
  "keeps (orderly db p) (report_status verify now header rpt)"
  "keeps (orderly db p) (get_agent_policy dev)"
  unfolding register_def report_status_def get_agent_policy_def Let_def
  by (auto intro!: orderly_rules orderly_ops orderly_publish split: option.split prod.split)

lemma orderly_access: "keeps (orderly db p) (handle_auth_packet db' md5 env buf secret)"
proof -
  have "keeps (orderly db p) (handle_access_request db' md5 env pkt secret)" for pkt
    unfolding handle_access_request_def Let_def
    by (auto intro!: orderly_rules orderly_ops orderly_publish split: option.split prod.split)
  then show ?thesis
    unfolding handle_auth_packet_def
    by (auto intro!: orderly_rules simp: radius_parse_no_panic split: rust.split)
qed

lemma orderly_get: "keeps (orderly db p) (get_endpoint i)"
  unfolding get_endpoint_def respond_def not_found_def by (auto intro!: orderly_rules orderly_ops split: option.split)

lemma orderly_update_status:
  assumes "status \<in> set known_actions"
  shows "keeps (orderly db p) (update_endpoint_status i status event)"
  unfolding update_endpoint_status_def not_found_def
  by (rule bind_yields [OF found_rows(2)])
     (auto intro!: orderly_rules orderly_ops orderly_publish orderly_get simp: assms split: option.split)

lemma orderly_api_endpoints:
  "keeps (orderly db p) (list_endpoints l f)" "keeps (orderly db p) (get_endpoint_by_mac db' m)"
  "keeps (orderly db p) (allow_endpoint i)" "keeps (orderly db p) (block_endpoint i)"
  "keeps (orderly db p) (quarantine_endpoint i)" "keeps (orderly db p) (assign_policy i pid)"
  "keeps (orderly db p) (set_exempt i b)"
proof -
  show "keeps (orderly db p) (list_endpoints l f)" "keeps (orderly db p) (get_endpoint_by_mac db' m)"
    "keeps (orderly db p) (assign_policy i pid)" "keeps (orderly db p) (set_exempt i b)"
    unfolding list_endpoints_def get_endpoint_by_mac_def assign_policy_def set_exempt_def respond_def
      not_found_def Let_def
    by (auto intro!: orderly_rules orderly_ops orderly_get split: option.split)
  show "keeps (orderly db p) (allow_endpoint i)" "keeps (orderly db p) (block_endpoint i)"
    "keeps (orderly db p) (quarantine_endpoint i)"
    unfolding allow_endpoint_def block_endpoint_def quarantine_endpoint_def
    by (rule orderly_update_status; simp add: known_actions_def)+
qed

lemma orderly_tables [orderly_ops]:
  "keeps (orderly db p) po_list_all" "keeps (orderly db p) (po_create c)" "keeps (orderly db p) (po_delete i)"
  "keeps (orderly db p) (insert_user n h r)" "keeps (orderly db p) (insert_ip_rule cidr a note)"
  "keeps (orderly db p) (audit_count e)" "keeps (orderly db p) (audit_list l f e)"
  unfolding po_list_all_def po_create_def po_delete_def insert_user_def insert_ip_rule_def
    audit_count_def audit_list_def
  by (rule orderly_stmt; auto simp: Let_def macs_def macs_update page_def)+

lemma orderly_po_update [orderly_ops]: "keeps (orderly db p) (po_update i u)"
  unfolding po_update_def Let_def
  by (rule orderly.keeps_bind [OF orderly_frames(10)])
     (auto intro!: orderly.keeps_return orderly_stmt simp: macs_def split: option.splits if_splits)

lemma orderly_update_user [orderly_ops]: "keeps (orderly db p) (update_user i f)"
  unfolding update_user_def rows_affected_def respond_def not_found_def
  by (auto intro!: orderly_rules orderly_stmt simp: macs_def)

lemma orderly_api_policies:
  "keeps (orderly db p) list_policies" "keeps (orderly db p) (get_policy i)"
  "keeps (orderly db p) (api_create_policy c)" "keeps (orderly db p) (api_update_policy i u)"
  "keeps (orderly db p) (delete_policy i)"
  unfolding list_policies_def get_policy_def api_create_policy_def api_update_policy_def
    delete_policy_def respond_def not_found_def
  by (auto intro!: orderly_rules orderly_ops split: option.split)

lemma orderly_api_users:
  "keeps (orderly db p) list_users" "keeps (orderly db p) (create_user hp n pw r)"
  "keeps (orderly db p) (delete_user i)" "keeps (orderly db p) (change_password hp i pw)"
  "keeps (orderly db p) (set_enabled i a)"
  unfolding list_users_def create_user_def delete_user_def change_password_def set_enabled_def
    respond_def not_found_def rows_affected_def
  by (auto intro!: orderly_rules orderly_ops orderly_stmt simp: macs_def split: option.split sum.split)

lemma orderly_api_rules:
  "keeps (orderly db p) list_ip_rules" "keeps (orderly db p) (create_ip_rule c a n)"
  "keeps (orderly db p) (delete_ip_rule i)" "keeps (orderly db p) (set_ip_rule_enabled i e)"
  unfolding list_ip_rules_def create_ip_rule_def delete_ip_rule_def set_ip_rule_enabled_def
    respond_def not_found_def Let_def
  by (auto intro!: orderly_rules orderly_ops orderly_commands orderly_stmt simp: macs_def
      split: option.split sum.split)

lemma orderly_api_reads:
  "keeps (orderly db p) (list_audit l f e)" "keeps (orderly db p) (get_stats d)"
  unfolding list_audit_def get_stats_def Let_def respond_def
  by (auto intro!: orderly_rules orderly_ops orderly.keeps_read split: prod.split)

lemma orderly_hosts: "orderly db p w \<Longrightarrow> orderly db p (snd (list_hosts checked arp neigh subnet w))"
  by (auto simp: list_hosts_def load_db_endpoints_def stmt_def io_bind_def not_found_def respond_def
      orderly.I_tick Let_def split: rust.split option.split prod.split list.split delivery.split)

lemma orderly_portal:
  "keeps (orderly db p) (probe db' portal_url answer ip)"
  "keeps (orderly db p) (landing_page db' pg ip url)"
  "keeps (orderly db p) (catch_all db' portal_url ip pq host)"
  "keeps (orderly db p) (handle_login db' st now ip form)"
proof -
  show "keeps (orderly db p) (probe db' portal_url answer ip)"
    "keeps (orderly db p) (landing_page db' pg ip url)"
    "keeps (orderly db p) (catch_all db' portal_url ip pq host)"
    unfolding probe_def landing_page_def catch_all_def mac_from_db_def endpoint_status_def Let_def
    by (intro orderly_rules orderly_ops)+
  have "proper db (auth_message uuid_in e)" for uuid_in e
    by (simp add: auth_message_def split: option.split)
  then show "keeps (orderly db p) (handle_login db' st now ip form)"
    unfolding handle_login_def login_mac_def mac_from_db_def publish_auth_response_def
    by (auto intro!: orderly_rules orderly_ops orderly_publish identify_keeps [OF orderly.io_steps_axioms]
        split: option.split list.split sum.split)
qed

lemmas orderly_handlers = orderly_process_event orderly_process_auth orderly_process_posture
  orderly_evaluate_policies orderly_reconcile orderly_arp_sync orderly_agents orderly_access orderly_get
  orderly_api_endpoints orderly_api_policies orderly_api_users orderly_api_rules orderly_api_reads
  orderly_portal

end
