(* ===== verification/Firewall.thy ===== *)
theory Firewall
  imports MacText
begin

text \<open>
  The firewall driver, \<^verbatim>\<open>services/enforcement/src/iptables.rs\<close>, for both of its back ends.
  The driver runs external programs: the state of the kernel is a type variable and
  \<^verbatim>\<open>Command::output\<close> an argument that maps a program, its arguments and its input to an
  outcome and a new state. An operation is partial, because the loops that delete a legacy rule
  repeat until the program fails. The rule set that is installed at start is a list of rules with
  the text the code writes and a first-match reading of it.
\<close>

section \<open>Running programs\<close>

datatype cmd_out = SpawnError | Exited bool string

type_synonym 'k exec = "string \<Rightarrow> string list \<Rightarrow> string \<Rightarrow> 'k \<Rightarrow> cmd_out \<times> 'k"
type_synonym 'k fw = "'k \<Rightarrow> ((string, unit) rust \<times> 'k) option"

definition fw_ok :: "'k fw" where
  "fw_ok k = Some (Ok (), k)"

definition fw_seq :: "'k fw \<Rightarrow> 'k fw \<Rightarrow> 'k fw" where
  "fw_seq m n k = (case m k of None \<Rightarrow> None | Some (Ok _, k') \<Rightarrow> n k' | Some (r, k') \<Rightarrow> Some (r, k'))"

text \<open>\<^verbatim>\<open>.ok()\<close> on a unit result.\<close>

definition fw_ignore :: "'k fw \<Rightarrow> 'k fw" where
  "fw_ignore m k = (case m k of None \<Rightarrow> None | Some (r, k') \<Rightarrow> Some (Ok (), k'))"

definition cmd_ok :: "'k exec \<Rightarrow> string \<Rightarrow> string list \<Rightarrow> 'k \<Rightarrow> bool \<times> 'k" where
  "cmd_ok exec prog args k =
     (case exec prog args [] k of (Exited b err, k') \<Rightarrow> (b, k') | (SpawnError, k') \<Rightarrow> (False, k'))"

section \<open>The nft back end\<close>

definition NFT_TABLE :: string where "NFT_TABLE = ''nac_filter''"
definition SET_BLOCK :: string where "SET_BLOCK = ''blocked_macs''"
definition SET_QUARANTINE :: string where "SET_QUARANTINE = ''quarantined_macs''"
definition SET_BLOCK_IP :: string where "SET_BLOCK_IP = ''blocked_ips''"
definition SET_QUARANTINE_IP :: string where "SET_QUARANTINE_IP = ''quarantined_ips''"

lemmas set_names = SET_BLOCK_def SET_QUARANTINE_def SET_BLOCK_IP_def SET_QUARANTINE_IP_def

definition elem_args :: "string \<Rightarrow> string \<Rightarrow> string \<Rightarrow> string list" where
  "elem_args verb st e = [verb, ''element'', ''inet'', NFT_TABLE, st, ''{ '' @ e @ '' }'']"

definition nft_add_elem :: "'k exec \<Rightarrow> string \<Rightarrow> string \<Rightarrow> 'k fw" where
  "nft_add_elem exec st e k =
     (case exec ''nft'' (elem_args ''add'' st e) [] k of
        (SpawnError, k') \<Rightarrow> Some (Err ''spawn'', k')
      | (Exited True err, k') \<Rightarrow> Some (Ok (), k')
      | (Exited False err, k') \<Rightarrow>
          if contains ''exists'' (to_lowercase err) then Some (Ok (), k')
          else Some (Err (''nft add element '' @ st @ '' '' @ e @ '': '' @ trim err), k'))"

definition nft_del_elem :: "'k exec \<Rightarrow> string \<Rightarrow> string \<Rightarrow> 'k fw" where
  "nft_del_elem exec st e k =
     (case exec ''nft'' (elem_args ''delete'' st e) [] k of
        (SpawnError, k') \<Rightarrow> Some (Err ''spawn'', k')
      | (Exited True err, k') \<Rightarrow> Some (Ok (), k')
      | (Exited False err, k') \<Rightarrow>
          if \<not> contains ''could not'' (to_lowercase err) \<and> \<not> contains ''no element'' (to_lowercase err)
          then Some (Err (''nft delete element '' @ st @ '' '' @ e @ '': '' @ trim err), k')
          else Some (Ok (), k'))"

section \<open>The iptables-legacy back end\<close>

definition CHAIN_BLOCK :: string where "CHAIN_BLOCK = ''NAC_BLOCK''"
definition CHAIN_QUARANTINE :: string where "CHAIN_QUARANTINE = ''NAC_QUARANTINE''"
definition CAPTIVE_PORT :: string where "CAPTIVE_PORT = ''8080''"
definition CAPTIVE_DNS_PORT :: string where "CAPTIVE_DNS_PORT = ''5353''"

definition run_ipt :: "'k exec \<Rightarrow> string list \<Rightarrow> 'k fw" where
  "run_ipt exec args k =
     (case exec ''iptables-legacy'' args [] k of
        (SpawnError, k') \<Rightarrow> Some (Err ''spawn'', k')
      | (Exited True err, k') \<Rightarrow> Some (Ok (), k')
      | (Exited False err, k') \<Rightarrow> Some (Err (''iptables-legacy '' @ join '' '' args @ '': '' @ trim err), k'))"

definition ipt_chain_exists :: "'k exec \<Rightarrow> string \<Rightarrow> 'k \<Rightarrow> bool \<times> 'k" where
  "ipt_chain_exists exec chain = cmd_ok exec ''iptables-legacy'' [''-L'', chain, ''-n'']"

definition ipt_rule_exists :: "'k exec \<Rightarrow> string \<Rightarrow> string list \<Rightarrow> 'k \<Rightarrow> bool \<times> 'k" where
  "ipt_rule_exists exec chain rule = cmd_ok exec ''iptables-legacy'' ([''-C'', chain] @ rule)"

definition fw_unless :: "('k \<Rightarrow> bool \<times> 'k) \<Rightarrow> 'k fw \<Rightarrow> 'k fw" where
  "fw_unless test m k = (case test k of (b, k') \<Rightarrow> if b then Some (Ok (), k') else m k')"

definition ipt_ensure_jump :: "'k exec \<Rightarrow> string \<Rightarrow> string \<Rightarrow> 'k fw" where
  "ipt_ensure_jump exec parent chain =
     fw_unless (ipt_rule_exists exec parent [''-j'', chain])
       (run_ipt exec [''-I'', parent, ''1'', ''-j'', chain])"

definition setup_ipt_legacy :: "'k exec \<Rightarrow> 'k fw" where
  "setup_ipt_legacy exec =
     fw_seq (fw_unless (ipt_chain_exists exec CHAIN_BLOCK) (run_ipt exec [''-N'', CHAIN_BLOCK]))
    (fw_seq (fw_unless (ipt_chain_exists exec CHAIN_QUARANTINE) (run_ipt exec [''-N'', CHAIN_QUARANTINE]))
    (fw_seq (ipt_ensure_jump exec ''FORWARD'' CHAIN_BLOCK)
    (fw_seq (ipt_ensure_jump exec ''FORWARD'' CHAIN_QUARANTINE)
            (ipt_ensure_jump exec ''INPUT'' CHAIN_BLOCK))))"

definition mac_match :: "string \<Rightarrow> string list" where
  "mac_match mac = [''-m'', ''mac'', ''--mac-source'', mac]"

definition drop_rule :: "string \<Rightarrow> string list" where
  "drop_rule mac = mac_match mac @ [''-j'', ''DROP'']"

definition dns_rule :: "string \<Rightarrow> string list" where
  "dns_rule mac = mac_match mac @ [''-p'', ''udp'', ''--dport'', ''53'', ''-j'', ''RETURN'']"

definition portal_rule :: "string \<Rightarrow> string list" where
  "portal_rule mac = mac_match mac @ [''-p'', ''tcp'', ''--dport'', CAPTIVE_PORT, ''-j'', ''RETURN'']"

text \<open>\<^verbatim>\<open>while run_ipt(args).is_ok() {}\<close>.\<close>

partial_function (option) repeat_ok :: "'k fw \<Rightarrow> 'k \<Rightarrow> 'k option" where
  "repeat_ok m k =
     (case m k of None \<Rightarrow> None
      | Some (r, k') \<Rightarrow> (case r of Ok _ \<Rightarrow> repeat_ok m k' | _ \<Rightarrow> Some k'))"

definition fw_loop :: "'k fw \<Rightarrow> 'k fw" where
  "fw_loop m k = map_option (\<lambda>k'. (Ok (), k')) (repeat_ok m k)"

definition ipt_remove_block :: "'k exec \<Rightarrow> string \<Rightarrow> 'k fw" where
  "ipt_remove_block exec mac = fw_loop (run_ipt exec ([''-D'', CHAIN_BLOCK] @ drop_rule mac))"

definition ipt_remove_quarantine :: "'k exec \<Rightarrow> string \<Rightarrow> 'k fw" where
  "ipt_remove_quarantine exec mac =
     fw_seq (fw_loop (run_ipt exec ([''-D'', CHAIN_QUARANTINE] @ dns_rule mac)))
    (fw_seq (fw_loop (run_ipt exec ([''-D'', CHAIN_QUARANTINE] @ portal_rule mac)))
            (fw_loop (run_ipt exec ([''-D'', CHAIN_QUARANTINE] @ drop_rule mac))))"

definition ipt_block :: "'k exec \<Rightarrow> string \<Rightarrow> 'k fw" where
  "ipt_block exec mac0 =
     (let mac = ipt_mac mac0 in
      fw_seq (ipt_remove_quarantine exec mac)
        (fw_unless (ipt_rule_exists exec CHAIN_BLOCK (drop_rule mac))
          (run_ipt exec ([''-I'', CHAIN_BLOCK] @ drop_rule mac))))"

definition ipt_quarantine :: "'k exec \<Rightarrow> string \<Rightarrow> 'k fw" where
  "ipt_quarantine exec mac0 =
     (let mac = ipt_mac mac0 in
      fw_seq (ipt_remove_block exec mac)
        (fw_unless (ipt_rule_exists exec CHAIN_QUARANTINE (drop_rule mac))
          (fw_seq (run_ipt exec ([''-I'', CHAIN_QUARANTINE] @ dns_rule mac))
          (fw_seq (run_ipt exec ([''-I'', CHAIN_QUARANTINE] @ portal_rule mac))
                  (run_ipt exec ([''-A'', CHAIN_QUARANTINE] @ drop_rule mac))))))"

definition ipt_allow :: "'k exec \<Rightarrow> string \<Rightarrow> 'k fw" where
  "ipt_allow exec mac0 =
     (let mac = ipt_mac mac0 in
      fw_seq (ipt_remove_block exec mac) (ipt_remove_quarantine exec mac))"

section \<open>The driver\<close>

datatype backend = Nft | IptablesLegacy | Unavailable

definition enforcer_new :: "'k exec \<Rightarrow> 'k \<Rightarrow> backend \<times> 'k" where
  "enforcer_new exec k =
     (case cmd_ok exec ''nft'' [''--version''] k of (b, k1) \<Rightarrow>
        if b then (Nft, k1)
        else (case cmd_ok exec ''iptables-legacy'' [''-L'', ''-n''] k1 of (c, k2) \<Rightarrow>
                if c then (IptablesLegacy, k2) else (Unavailable, k2)))"

text \<open>\<^verbatim>\<open>ip.filter(|s| !s.is_empty() && *s != "0.0.0.0")\<close>.\<close>

definition real_ip :: "string option \<Rightarrow> string option" where
  "real_ip ip = (case ip of None \<Rightarrow> None
     | Some s \<Rightarrow> if s \<noteq> [] \<and> s \<noteq> ''0.0.0.0'' then Some s else None)"

definition fw_block :: "'k exec \<Rightarrow> backend \<Rightarrow> string \<Rightarrow> string option \<Rightarrow> 'k fw" where
  "fw_block exec be mac ip =
     (case be of
        Nft \<Rightarrow>
          (let m = nft_mac mac in
           fw_seq (fw_ignore (nft_del_elem exec SET_QUARANTINE m))
          (fw_seq (nft_add_elem exec SET_BLOCK m)
             (case real_ip ip of
                None \<Rightarrow> fw_ok
              | Some a \<Rightarrow>
                  fw_seq (fw_ignore (nft_del_elem exec SET_QUARANTINE_IP a))
                    (fw_ignore (nft_add_elem exec SET_BLOCK_IP a)))))
      | IptablesLegacy \<Rightarrow> ipt_block exec mac
      | Unavailable \<Rightarrow> fw_ok)"

definition fw_quarantine :: "'k exec \<Rightarrow> backend \<Rightarrow> string \<Rightarrow> string option \<Rightarrow> 'k fw" where
  "fw_quarantine exec be mac ip =
     (case be of
        Nft \<Rightarrow>
          (let m = nft_mac mac in
           fw_seq (fw_ignore (nft_del_elem exec SET_BLOCK m))
          (fw_seq (nft_add_elem exec SET_QUARANTINE m)
             (case real_ip ip of
                None \<Rightarrow> fw_ok
              | Some a \<Rightarrow>
                  fw_seq (fw_ignore (nft_del_elem exec SET_BLOCK_IP a))
                    (fw_ignore (nft_add_elem exec SET_QUARANTINE_IP a)))))
      | IptablesLegacy \<Rightarrow> ipt_quarantine exec mac
      | Unavailable \<Rightarrow> fw_ok)"

definition fw_remove_ip :: "'k exec \<Rightarrow> backend \<Rightarrow> string \<Rightarrow> 'k fw" where
  "fw_remove_ip exec be ip =
     (case be of
        Nft \<Rightarrow> fw_seq (fw_ignore (nft_del_elem exec SET_BLOCK_IP ip))
                 (fw_ignore (nft_del_elem exec SET_QUARANTINE_IP ip))
      | _ \<Rightarrow> fw_ok)"

definition fw_allow :: "'k exec \<Rightarrow> backend \<Rightarrow> string \<Rightarrow> string option \<Rightarrow> 'k fw" where
  "fw_allow exec be mac ip =
     (case be of
        Nft \<Rightarrow>
          (let m = nft_mac mac in
           fw_seq (fw_ignore (nft_del_elem exec SET_BLOCK m))
          (fw_seq (fw_ignore (nft_del_elem exec SET_QUARANTINE m))
             (case real_ip ip of
                None \<Rightarrow> fw_ok
              | Some a \<Rightarrow>
                  fw_seq (fw_ignore (nft_del_elem exec SET_BLOCK_IP a))
                    (fw_ignore (nft_del_elem exec SET_QUARANTINE_IP a)))))
      | IptablesLegacy \<Rightarrow> ipt_allow exec mac
      | Unavailable \<Rightarrow> fw_ok)"

section \<open>The installed rule set\<close>

datatype nft_match = EtherIn string | IpIn string | CtEstablished | UdpDport string | TcpDport string

datatype nft_verdict = Accept | Drop | RedirectTo string | RejectReset

datatype nft_rule = Rule (rule_chain: string) (rule_matches: "nft_match list") (rule_verdict: nft_verdict)

fun match_text :: "nft_match \<Rightarrow> string" where
  "match_text (EtherIn s) = ''ether saddr @'' @ s"
| "match_text (IpIn s) = ''ip saddr @'' @ s"
| "match_text CtEstablished = ''ct state established,related''"
| "match_text (UdpDport p) = ''udp dport '' @ p"
| "match_text (TcpDport p) = ''tcp dport '' @ p"

fun verdict_text :: "nft_verdict \<Rightarrow> string" where
  "verdict_text Accept = ''accept''"
| "verdict_text Drop = ''drop''"
| "verdict_text (RedirectTo p) = ''redirect to :'' @ p"
| "verdict_text RejectReset = ''reject with tcp reset''"

fun rule_text :: "nft_rule \<Rightarrow> string" where
  "rule_text (Rule c ms v) = ''add rule inet '' @ NFT_TABLE @ '' '' @ c @ '' '' @
     join '' '' (map match_text ms @ [verdict_text v])"

definition prerouting_rules :: "nft_rule list" where
  "prerouting_rules = map (\<lambda>(ms, v). Rule ''nac_prerouting'' ms v)
     [([EtherIn SET_BLOCK, UdpDport ''53''], RedirectTo CAPTIVE_DNS_PORT),
      ([EtherIn SET_BLOCK, TcpDport ''53''], RedirectTo CAPTIVE_DNS_PORT),
      ([EtherIn SET_QUARANTINE, UdpDport ''53''], RedirectTo CAPTIVE_DNS_PORT),
      ([EtherIn SET_QUARANTINE, TcpDport ''53''], RedirectTo CAPTIVE_DNS_PORT),
      ([IpIn SET_BLOCK_IP, UdpDport ''53''], RedirectTo CAPTIVE_DNS_PORT),
      ([IpIn SET_BLOCK_IP, TcpDport ''53''], RedirectTo CAPTIVE_DNS_PORT),
      ([IpIn SET_QUARANTINE_IP, UdpDport ''53''], RedirectTo CAPTIVE_DNS_PORT),
      ([IpIn SET_QUARANTINE_IP, TcpDport ''53''], RedirectTo CAPTIVE_DNS_PORT),
      ([EtherIn SET_BLOCK, TcpDport ''80''], RedirectTo CAPTIVE_PORT),
      ([EtherIn SET_QUARANTINE, TcpDport ''80''], RedirectTo CAPTIVE_PORT),
      ([IpIn SET_BLOCK_IP, TcpDport ''80''], RedirectTo CAPTIVE_PORT),
      ([IpIn SET_QUARANTINE_IP, TcpDport ''80''], RedirectTo CAPTIVE_PORT),
      ([EtherIn SET_BLOCK, TcpDport ''443''], RejectReset),
      ([EtherIn SET_QUARANTINE, TcpDport ''443''], RejectReset),
      ([IpIn SET_BLOCK_IP, TcpDport ''443''], RejectReset),
      ([IpIn SET_QUARANTINE_IP, TcpDport ''443''], RejectReset)]"

definition forward_rules :: "nft_rule list" where
  "forward_rules = map (\<lambda>ms. Rule ''nac_forward'' ms Drop)
     [[EtherIn SET_BLOCK], [EtherIn SET_QUARANTINE], [IpIn SET_BLOCK_IP], [IpIn SET_QUARANTINE_IP]]"

definition mgmt_port_rules :: "string list \<Rightarrow> nft_rule list" where
  "mgmt_port_rules management_ips =
     (if management_ips = [] then
        map (\<lambda>p. Rule ''nac_input'' [TcpDport p] Accept) [''22'', ''3000'', ''8000'', ''8001'']
      else
        map (\<lambda>p. Rule ''nac_input'' [IpIn ''management_ips'', TcpDport p] Accept)
          [''22'', ''3000'', ''8000'', ''8001''])"

definition input_rules :: "string list \<Rightarrow> nft_rule list" where
  "input_rules management_ips =
     [Rule ''nac_input'' [CtEstablished] Accept]
     @ mgmt_port_rules management_ips
     @ map (\<lambda>(ms, v). Rule ''nac_input'' ms v)
     [([UdpDport CAPTIVE_DNS_PORT], Accept),
      ([TcpDport CAPTIVE_DNS_PORT], Accept),
      ([EtherIn SET_BLOCK, TcpDport CAPTIVE_PORT], Accept),
      ([EtherIn SET_QUARANTINE, TcpDport CAPTIVE_PORT], Accept),
      ([IpIn SET_BLOCK_IP, TcpDport CAPTIVE_PORT], Accept),
      ([IpIn SET_QUARANTINE_IP, TcpDport CAPTIVE_PORT], Accept),
      ([EtherIn SET_BLOCK], Drop),
      ([IpIn SET_BLOCK_IP], Drop)]"

definition mgmt_elems_lines :: "string list \<Rightarrow> string list" where
  "mgmt_elems_lines management_ips =
     (if management_ips = [] then []
      else [''add element inet '' @ NFT_TABLE @ '' management_ips { '' @ join '', '' management_ips @ '' }''])"

definition nft_lines :: "string list \<Rightarrow> string list" where
  "nft_lines management_ips =
     [''add table inet '' @ NFT_TABLE]
     @ map (\<lambda>(s, ty). ''add set inet '' @ NFT_TABLE @ '' '' @ s @ '' { type '' @ ty @ ''; }'')
       [(SET_BLOCK, ''ether_addr''), (SET_QUARANTINE, ''ether_addr''), (SET_BLOCK_IP, ''ipv4_addr''),
        (SET_QUARANTINE_IP, ''ipv4_addr''), (''management_ips'', ''ipv4_addr'')]
     @ [''add chain inet '' @ NFT_TABLE @ '' nac_prerouting { type nat hook prerouting priority dstnat; }'',
        ''flush chain inet '' @ NFT_TABLE @ '' nac_prerouting'']
     @ map rule_text prerouting_rules
     @ [''add chain inet '' @ NFT_TABLE @ '' nac_forward { type filter hook forward priority -100; policy accept; }'',
        ''flush chain inet '' @ NFT_TABLE @ '' nac_forward'']
     @ map rule_text forward_rules
     @ [''add chain inet '' @ NFT_TABLE @ '' nac_input { type filter hook input priority -100; policy accept; }'',
        ''flush chain inet '' @ NFT_TABLE @ '' nac_input'']
     @ map rule_text (take 1 (input_rules management_ips))
     @ mgmt_elems_lines management_ips
     @ map rule_text (drop 1 (input_rules management_ips))
     @ [''add table ip '' @ NFT_TABLE @ ''_nat'',
        ''add chain ip '' @ NFT_TABLE @ ''_nat nac_postrouting { type nat hook postrouting priority srcnat; }'',
        ''flush chain ip '' @ NFT_TABLE @ ''_nat nac_postrouting'',
        ''add rule ip '' @ NFT_TABLE @ ''_nat nac_postrouting masquerade'']"

definition nft_ruleset :: "string list \<Rightarrow> string" where
  "nft_ruleset management_ips = concat (map (\<lambda>l. l @ [newline]) (nft_lines management_ips))"

definition setup_nft :: "'k exec \<Rightarrow> string list \<Rightarrow> 'k fw" where
  "setup_nft exec management_ips k =
     (case exec ''nft'' [''-f'', ''-''] (nft_ruleset management_ips)
             (snd (exec ''sysctl'' [''-w'', ''net.ipv4.ip_forward=1''] [] k)) of
        (SpawnError, k') \<Rightarrow> Some (Err ''spawn'', k')
      | (Exited True err, k') \<Rightarrow> Some (Ok (), k')
      | (Exited False err, k') \<Rightarrow> Some (Err (''nft setup failed: '' @ trim err), k'))"

definition setup_chains :: "'k exec \<Rightarrow> backend \<Rightarrow> string list \<Rightarrow> 'k fw" where
  "setup_chains exec be management_ips =
     (case be of Nft \<Rightarrow> setup_nft exec management_ips
      | IptablesLegacy \<Rightarrow> setup_ipt_legacy exec
      | Unavailable \<Rightarrow> fw_ok)"

section \<open>Reading a chain\<close>

record packet =
  pk_ether :: string
  pk_ip :: string
  pk_udp :: bool
  pk_dport :: string
  pk_established :: bool

fun matches :: "(string \<Rightarrow> string set) \<Rightarrow> packet \<Rightarrow> nft_match \<Rightarrow> bool" where
  "matches sets p (EtherIn s) = (pk_ether p \<in> sets s)"
| "matches sets p (IpIn s) = (pk_ip p \<in> sets s)"
| "matches sets p CtEstablished = pk_established p"
| "matches sets p (UdpDport d) = (pk_udp p \<and> pk_dport p = d)"
| "matches sets p (TcpDport d) = (\<not> pk_udp p \<and> pk_dport p = d)"

fun chain_verdict :: "(string \<Rightarrow> string set) \<Rightarrow> nft_rule list \<Rightarrow> packet \<Rightarrow> nft_verdict" where
  "chain_verdict sets [] p = Accept"
| "chain_verdict sets (Rule c ms v # rs) p =
     (if list_all (matches sets p) ms then v else chain_verdict sets rs p)"

lemma forward_verdict:
  "chain_verdict sets forward_rules p = Drop \<longleftrightarrow>
     pk_ether p \<in> sets SET_BLOCK \<or> pk_ether p \<in> sets SET_QUARANTINE \<or>
     pk_ip p \<in> sets SET_BLOCK_IP \<or> pk_ip p \<in> sets SET_QUARANTINE_IP"
  by (simp add: forward_rules_def)

lemma chain_verdict_append:
  "chain_verdict sets (rs @ ts) p =
     (if \<exists>r\<in>set rs. list_all (matches sets p) (rule_matches r) then chain_verdict sets rs p
      else chain_verdict sets ts p)"
proof (induction rs)
  case (Cons r rs)
  then show ?case by (cases r) simp
qed simp

lemma chain_verdict_accept:
  "(\<And>r. r \<in> set rs \<Longrightarrow> rule_verdict r = Accept) \<Longrightarrow> chain_verdict sets rs p = Accept"
proof (induction rs)
  case (Cons r rs)
  then show ?case using Cons.prems [of r] by (cases r) auto
qed simp

lemma mgmt_port_accept: "r \<in> set (mgmt_port_rules ips) \<Longrightarrow> rule_verdict r = Accept"
  by (auto simp: mgmt_port_rules_def split: if_splits)

definition MGMT_PORTS :: "string list" where "MGMT_PORTS = [''22'', ''3000'', ''8000'', ''8001'']"

lemma mgmt_port_rules_alt:
  "mgmt_port_rules ips =
     map (\<lambda>p. Rule ''nac_input'' ((if ips = [] then [] else [IpIn ''management_ips'']) @ [TcpDport p]) Accept)
       MGMT_PORTS"
  by (simp add: mgmt_port_rules_def MGMT_PORTS_def)

lemma mgmt_port_hit:
  "(\<exists>r\<in>set (mgmt_port_rules ips). list_all (matches sets p) (rule_matches r)) \<longleftrightarrow>
     \<not> pk_udp p \<and> pk_dport p \<in> set MGMT_PORTS \<and> (ips = [] \<or> pk_ip p \<in> sets ''management_ips'')"
  by (auto simp: mgmt_port_rules_alt)

lemma input_head_accept: "chain_verdict sets (Rule c [CtEstablished] Accept # mgmt_port_rules ips) p = Accept"
  by (rule chain_verdict_accept) (auto dest: mgmt_port_accept)

definition input_tail :: "nft_rule list" where
  "input_tail = map (\<lambda>(ms, v). Rule ''nac_input'' ms v)
     [([UdpDport CAPTIVE_DNS_PORT], Accept),
      ([TcpDport CAPTIVE_DNS_PORT], Accept),
      ([EtherIn SET_BLOCK, TcpDport CAPTIVE_PORT], Accept),
      ([EtherIn SET_QUARANTINE, TcpDport CAPTIVE_PORT], Accept),
      ([IpIn SET_BLOCK_IP, TcpDport CAPTIVE_PORT], Accept),
      ([IpIn SET_QUARANTINE_IP, TcpDport CAPTIVE_PORT], Accept),
      ([EtherIn SET_BLOCK], Drop),
      ([IpIn SET_BLOCK_IP], Drop)]"

lemma input_rules_split:
  "input_rules ips = (Rule ''nac_input'' [CtEstablished] Accept # mgmt_port_rules ips) @ input_tail"
  by (simp only: input_rules_def input_tail_def append.simps)

definition portal_hit :: "(string \<Rightarrow> string set) \<Rightarrow> packet \<Rightarrow> bool" where
  "portal_hit sets p \<longleftrightarrow> pk_dport p = CAPTIVE_DNS_PORT \<or>
     \<not> pk_udp p \<and> pk_dport p = CAPTIVE_PORT \<and>
      (pk_ether p \<in> sets SET_BLOCK \<union> sets SET_QUARANTINE \<or>
       pk_ip p \<in> sets SET_BLOCK_IP \<union> sets SET_QUARANTINE_IP)"

definition mgmt_hit :: "string list \<Rightarrow> (string \<Rightarrow> string set) \<Rightarrow> packet \<Rightarrow> bool" where
  "mgmt_hit ips sets p \<longleftrightarrow> \<not> pk_udp p \<and> pk_dport p \<in> set MGMT_PORTS \<and>
     (ips = [] \<or> pk_ip p \<in> sets ''management_ips'')"

lemma input_tail_verdict:
  "chain_verdict sets input_tail p =
     (if portal_hit sets p \<or> \<not> (pk_ether p \<in> sets SET_BLOCK \<or> pk_ip p \<in> sets SET_BLOCK_IP)
      then Accept else Drop)"
  by (simp add: input_tail_def portal_hit_def)

lemma input_rules_verdict:
  "chain_verdict sets (input_rules ips) p =
     (if pk_established p \<or> mgmt_hit ips sets p \<or> portal_hit sets p \<or>
         \<not> (pk_ether p \<in> sets SET_BLOCK \<or> pk_ip p \<in> sets SET_BLOCK_IP)
      then Accept else Drop)"
proof -
  let ?h = "Rule ''nac_input'' [CtEstablished] Accept # mgmt_port_rules ips"
  have "(\<exists>r\<in>set ?h. list_all (matches sets p) (rule_matches r)) \<longleftrightarrow> pk_established p \<or> mgmt_hit ips sets p"
    using mgmt_port_hit [of ips sets p] by (simp add: mgmt_hit_def)
  then show ?thesis
    by (simp only: input_rules_split chain_verdict_append input_head_accept input_tail_verdict split: if_split) blast
qed

end
