(* ===== verification/FirewallLaws.thy ===== *)
theory FirewallLaws
  imports Firewall
begin

text \<open>
  What the firewall driver does to a kernel. The two programs it runs are described by the laws
  \<open>nft_works\<close> and \<open>ipt_works\<close>, hypotheses about code that is not in the
  repository; a list-based reference kernel satisfies each of them. The locale
  \<open>enforcer\<close> is the contract the services rely on, met by both back ends: a blocked or
  quarantined device has its packets dropped, an allowed one passes, a command for one device
  leaves the others alone, and the last command for a device decides.
\<close>

section \<open>The laws of nft\<close>

definition nft_works :: "'k exec \<Rightarrow> ('k \<Rightarrow> string \<Rightarrow> string set) \<Rightarrow> bool" where
  "nft_works exec sets \<longleftrightarrow>
     (\<forall>st e k. \<exists>b err k'. exec ''nft'' (elem_args ''add'' st e) [] k = (Exited b err, k') \<and>
        (b \<or> contains ''exists'' (to_lowercase err)) \<and> sets k' = (sets k)(st := insert e (sets k st))) \<and>
     (\<forall>st e k. \<exists>b err k'. exec ''nft'' (elem_args ''delete'' st e) [] k = (Exited b err, k') \<and>
        (b \<or> contains ''could not'' (to_lowercase err)) \<and> sets k' = (sets k)(st := sets k st - {e}))"

lemma nft_add:
  assumes "nft_works exec sets"
  obtains k' where "nft_add_elem exec st e k = Some (Ok (), k')"
    and "sets k' = (sets k)(st := insert e (sets k st))"
proof -
  from assms obtain b err k' where "exec ''nft'' (elem_args ''add'' st e) [] k = (Exited b err, k')"
    "b \<or> contains ''exists'' (to_lowercase err)" "sets k' = (sets k)(st := insert e (sets k st))"
    unfolding nft_works_def by meson
  then have "nft_add_elem exec st e k = Some (Ok (), k')" by (cases b) (simp_all add: nft_add_elem_def)
  with that \<open>sets k' = _\<close> show thesis by blast
qed

lemma nft_del:
  assumes "nft_works exec sets"
  obtains k' where "nft_del_elem exec st e k = Some (Ok (), k')"
    and "sets k' = (sets k)(st := sets k st - {e})"
proof -
  from assms obtain b err k' where "exec ''nft'' (elem_args ''delete'' st e) [] k = (Exited b err, k')"
    "b \<or> contains ''could not'' (to_lowercase err)" "sets k' = (sets k)(st := sets k st - {e})"
    unfolding nft_works_def by meson
  then have "nft_del_elem exec st e k = Some (Ok (), k')" by (cases b) (simp_all add: nft_del_elem_def)
  with that \<open>sets k' = _\<close> show thesis by blast
qed

text \<open>An operation that succeeds and changes the sets by a function.\<close>

definition does :: "('k \<Rightarrow> string \<Rightarrow> string set) \<Rightarrow> 'k fw \<Rightarrow>
    ((string \<Rightarrow> string set) \<Rightarrow> string \<Rightarrow> string set) \<Rightarrow> bool" where
  "does sets m f \<longleftrightarrow> (\<forall>k. \<exists>k'. m k = Some (Ok (), k') \<and> sets k' = f (sets k))"

lemma does_ok: "does sets fw_ok (\<lambda>S. S)"
  by (simp add: does_def fw_ok_def)

lemma does_add: "nft_works exec sets \<Longrightarrow> does sets (nft_add_elem exec st e) (\<lambda>S. S(st := insert e (S st)))"
  unfolding does_def by (meson nft_add)

lemma does_del: "nft_works exec sets \<Longrightarrow> does sets (nft_del_elem exec st e) (\<lambda>S. S(st := S st - {e}))"
  unfolding does_def by (meson nft_del)

lemma doesE:
  assumes "does sets m f"
  obtains k' where "m k = Some (Ok (), k')" and "sets k' = f (sets k)"
  using assms that unfolding does_def by blast

lemma does_seq:
  assumes "does sets m f" and "does sets n g"
  shows "does sets (fw_seq m n) (\<lambda>S. g (f S))"
  unfolding does_def
proof
  fix k
  obtain k' where m: "m k = Some (Ok (), k')" "sets k' = f (sets k)" by (rule doesE [OF assms(1)])
  obtain k'' where n: "n k' = Some (Ok (), k'')" "sets k'' = g (sets k')" by (rule doesE [OF assms(2)])
  from m n show "\<exists>k''. fw_seq m n k = Some (Ok (), k'') \<and> sets k'' = g (f (sets k))"
    by (simp add: fw_seq_def)
qed

lemma does_ignore:
  assumes "does sets m f"
  shows "does sets (fw_ignore m) f"
  unfolding does_def
proof
  fix k
  obtain k' where m: "m k = Some (Ok (), k')" "sets k' = f (sets k)" by (rule doesE [OF assms])
  then show "\<exists>k'. fw_ignore m k = Some (Ok (), k') \<and> sets k' = f (sets k)"
    by (simp add: fw_ignore_def)
qed

lemma does_eq: "does sets m f \<Longrightarrow> f = g \<Longrightarrow> does sets m g" by simp

lemmas does_rules = does_ok does_add does_del does_seq does_ignore

section \<open>What the nft back end does\<close>

definition move_in :: "string \<Rightarrow> string \<Rightarrow> string \<Rightarrow> (string \<Rightarrow> string set) \<Rightarrow> string \<Rightarrow> string set" where
  "move_in src dst e S = (S(src := S src - {e}))(dst := insert e ((S(src := S src - {e})) dst))"

definition drop_both :: "string \<Rightarrow> string \<Rightarrow> string \<Rightarrow> (string \<Rightarrow> string set) \<Rightarrow> string \<Rightarrow> string set" where
  "drop_both s1 s2 e S = (S(s1 := S s1 - {e}))(s2 := (S(s1 := S s1 - {e})) s2 - {e})"

definition with_ip :: "string option \<Rightarrow>
    (string \<Rightarrow> (string \<Rightarrow> string set) \<Rightarrow> string \<Rightarrow> string set) \<Rightarrow>
    (string \<Rightarrow> string set) \<Rightarrow> string \<Rightarrow> string set" where
  "with_ip ip f S = (case real_ip ip of None \<Rightarrow> S | Some a \<Rightarrow> f a S)"

lemma nft_block_does:
  assumes "nft_works exec sets"
  shows "does sets (fw_block exec Nft mac ip)
     (\<lambda>S. with_ip ip (move_in SET_QUARANTINE_IP SET_BLOCK_IP)
        (move_in SET_QUARANTINE SET_BLOCK (nft_mac mac) S))"
  unfolding fw_block_def backend.case Let_def with_ip_def move_in_def
  by (cases "real_ip ip"; simp only: option.case)
     (rule does_eq, (rule does_rules assms)+, rule refl)+

lemma nft_quarantine_does:
  assumes "nft_works exec sets"
  shows "does sets (fw_quarantine exec Nft mac ip)
     (\<lambda>S. with_ip ip (move_in SET_BLOCK_IP SET_QUARANTINE_IP)
        (move_in SET_BLOCK SET_QUARANTINE (nft_mac mac) S))"
  unfolding fw_quarantine_def backend.case Let_def with_ip_def move_in_def
  by (cases "real_ip ip"; simp only: option.case)
     (rule does_eq, (rule does_rules assms)+, rule refl)+

lemma nft_allow_does:
  assumes "nft_works exec sets"
  shows "does sets (fw_allow exec Nft mac ip)
     (\<lambda>S. with_ip ip (drop_both SET_BLOCK_IP SET_QUARANTINE_IP)
        (drop_both SET_BLOCK SET_QUARANTINE (nft_mac mac) S))"
  unfolding fw_allow_def backend.case Let_def with_ip_def drop_both_def
  by (cases "real_ip ip"; simp only: option.case)
     (rule does_eq, (rule does_rules assms)+, rule refl)+

lemma nft_remove_ip_does:
  assumes "nft_works exec sets"
  shows "does sets (fw_remove_ip exec Nft ip) (drop_both SET_BLOCK_IP SET_QUARANTINE_IP ip)"
  unfolding fw_remove_ip_def backend.case drop_both_def
  by (rule does_eq, (rule does_rules assms)+, rule ext, rule refl)

section \<open>The contract\<close>

datatype fw_action = Block | Isolate | Permit

text \<open>A sequence of calls; the caller logs an error and goes on.\<close>

fun fw_run ::
  "(fw_action \<Rightarrow> string \<Rightarrow> string option \<Rightarrow> 'k fw) \<Rightarrow>
   (fw_action \<times> string \<times> string option) list \<Rightarrow> 'k \<Rightarrow> 'k option"
where
  "fw_run act [] k = Some k"
| "fw_run act ((a, mac, ip) # cs) k =
     (case act a mac ip k of None \<Rightarrow> None | Some (_, k') \<Rightarrow> fw_run act cs k')"

locale enforcer =
  fixes act :: "fw_action \<Rightarrow> string \<Rightarrow> string option \<Rightarrow> 'k fw"
    and good :: "'k \<Rightarrow> bool"
    and dropped :: "'k \<Rightarrow> packet \<Rightarrow> bool"
    and touches :: "string \<Rightarrow> string option \<Rightarrow> packet \<Rightarrow> bool"
    and sends :: "string \<Rightarrow> string option \<Rightarrow> packet \<Rightarrow> bool"
    and spared :: "packet \<Rightarrow> bool"
  assumes act_ok: "good k \<Longrightarrow> \<exists>k'. act a mac ip k = Some (Ok (), k') \<and> good k'"
    and block_drops: "good k \<Longrightarrow> act Block mac ip k = Some (r, k') \<Longrightarrow> touches mac ip p \<Longrightarrow> dropped k' p"
    and quarantine_drops: "good k \<Longrightarrow> act Isolate mac ip k = Some (r, k') \<Longrightarrow> touches mac ip p \<Longrightarrow>
          \<not> spared p \<Longrightarrow> dropped k' p"
    and permit_passes: "good k \<Longrightarrow> act Permit mac ip k = Some (r, k') \<Longrightarrow> sends mac ip p \<Longrightarrow> \<not> dropped k' p"
    and others_kept: "good k \<Longrightarrow> act a mac ip k = Some (r, k') \<Longrightarrow> \<not> touches mac ip p \<Longrightarrow>
          dropped k' p = dropped k p"
    and sends_touches: "sends mac ip p \<Longrightarrow> touches mac ip p"
begin

abbreviation run :: "(fw_action \<times> string \<times> string option) list \<Rightarrow> 'k \<Rightarrow> 'k option" where
  "run \<equiv> fw_run act"

lemma run_ok: "good k \<Longrightarrow> \<exists>k'. run cs k = Some k' \<and> good k'"
proof (induction cs arbitrary: k)
  case (Cons c cs)
  obtain a mac ip where c: "c = (a, mac, ip)" by (cases c)
  from act_ok [OF Cons.prems] obtain k1 where "act a mac ip k = Some (Ok (), k1)" "good k1" by blast
  with Cons.IH [of k1] c show ?case by simp
qed simp

lemma run_append: "run (cs @ ds) k = (case run cs k of None \<Rightarrow> None | Some k' \<Rightarrow> run ds k')"
proof (induction cs arbitrary: k)
  case (Cons c cs)
  then show ?case by (cases c) (simp split: option.split)
qed simp

lemma run_kept:
  "good k \<Longrightarrow> run cs k = Some k' \<Longrightarrow> \<forall>(a, mac, ip) \<in> set cs. \<not> touches mac ip p \<Longrightarrow>
   dropped k' p = dropped k p"
proof (induction cs arbitrary: k)
  case (Cons c cs)
  obtain a mac ip where c: "c = (a, mac, ip)" by (cases c)
  from act_ok [OF Cons.prems(1)] obtain k1 where k1: "act a mac ip k = Some (Ok (), k1)" "good k1" by blast
  have "dropped k1 p = dropped k p"
    using others_kept [OF Cons.prems(1) k1(1), of p] Cons.prems(3) c by simp
  moreover have "dropped k' p = dropped k1 p"
    using Cons.IH [OF k1(2)] Cons.prems c k1 by simp
  ultimately show ?case by simp
qed simp

text \<open>The last command that concerns a device decides.\<close>

lemma last_decides:
  assumes "good k" and "\<forall>(a, mac, ip) \<in> set ds. \<not> touches mac ip p"
    and "sends mac ip p" and "\<not> spared p"
  shows "\<exists>k'. run (cs @ (a, mac, ip) # ds) k = Some k' \<and> dropped k' p = (a \<noteq> Permit)"
proof -
  from run_ok [OF assms(1)] obtain k1 where k1: "run cs k = Some k1" "good k1" by blast
  from act_ok [OF k1(2)] obtain k2 where k2: "act a mac ip k1 = Some (Ok (), k2)" "good k2" by blast
  from run_ok [OF k2(2)] obtain k3 where k3: "run ds k2 = Some k3" "good k3" by blast
  have "dropped k2 p = (a \<noteq> Permit)"
    using k1(2) k2 assms(3,4) sends_touches
    by (cases a) (blast dest: block_drops quarantine_drops permit_passes)+
  with run_kept [OF k2(2) k3(1) assms(2)] k1 k2 k3 show ?thesis
    by (simp add: run_append)
qed

end

definition fw_act :: "'k exec \<Rightarrow> backend \<Rightarrow> fw_action \<Rightarrow> string \<Rightarrow> string option \<Rightarrow> 'k fw" where
  "fw_act exec be a mac ip =
     (case a of Block \<Rightarrow> fw_block exec be mac ip
      | Isolate \<Rightarrow> fw_quarantine exec be mac ip
      | Permit \<Rightarrow> fw_allow exec be mac ip)"

section \<open>The nft back end meets it\<close>

definition nft_effect :: "fw_action \<Rightarrow> string \<Rightarrow> string option \<Rightarrow> (string \<Rightarrow> string set) \<Rightarrow> string \<Rightarrow> string set" where
  "nft_effect a mac ip S =
     (case a of
        Block \<Rightarrow> with_ip ip (move_in SET_QUARANTINE_IP SET_BLOCK_IP)
                   (move_in SET_QUARANTINE SET_BLOCK (nft_mac mac) S)
      | Isolate \<Rightarrow> with_ip ip (move_in SET_BLOCK_IP SET_QUARANTINE_IP)
                   (move_in SET_BLOCK SET_QUARANTINE (nft_mac mac) S)
      | Permit \<Rightarrow> with_ip ip (drop_both SET_BLOCK_IP SET_QUARANTINE_IP)
                   (drop_both SET_BLOCK SET_QUARANTINE (nft_mac mac) S))"

lemma nft_act_does:
  "nft_works exec sets \<Longrightarrow> does sets (fw_act exec Nft a mac ip) (nft_effect a mac ip)"
  using nft_block_does nft_quarantine_does nft_allow_does
  by (cases a) (simp_all only: fw_act_def nft_effect_def [abs_def] fw_action.case)

definition nft_dropped :: "(string \<Rightarrow> string set) \<Rightarrow> packet \<Rightarrow> bool" where
  "nft_dropped S p \<longleftrightarrow> chain_verdict S forward_rules p = Drop"

definition nft_touches :: "string \<Rightarrow> string option \<Rightarrow> packet \<Rightarrow> bool" where
  "nft_touches mac ip p \<longleftrightarrow> pk_ether p = nft_mac mac \<or> real_ip ip = Some (pk_ip p)"

definition nft_sends :: "string \<Rightarrow> string option \<Rightarrow> packet \<Rightarrow> bool" where
  "nft_sends mac ip p \<longleftrightarrow> pk_ether p = nft_mac mac \<and> real_ip ip = Some (pk_ip p)"

lemma set_names_distinct [simp]:
  "SET_BLOCK \<noteq> SET_QUARANTINE" "SET_BLOCK \<noteq> SET_BLOCK_IP" "SET_BLOCK \<noteq> SET_QUARANTINE_IP"
  "SET_QUARANTINE \<noteq> SET_BLOCK_IP" "SET_QUARANTINE \<noteq> SET_QUARANTINE_IP" "SET_BLOCK_IP \<noteq> SET_QUARANTINE_IP"
  "SET_QUARANTINE \<noteq> SET_BLOCK" "SET_BLOCK_IP \<noteq> SET_BLOCK" "SET_QUARANTINE_IP \<noteq> SET_BLOCK"
  "SET_BLOCK_IP \<noteq> SET_QUARANTINE" "SET_QUARANTINE_IP \<noteq> SET_QUARANTINE" "SET_QUARANTINE_IP \<noteq> SET_BLOCK_IP"
  by (simp_all add: set_names)

lemmas nft_effect_simps = nft_dropped_def forward_verdict nft_effect_def nft_touches_def nft_sends_def
  with_ip_def move_in_def drop_both_def

lemma nft_effect_hits:
  "a \<noteq> Permit \<Longrightarrow> nft_touches mac ip p \<Longrightarrow> nft_dropped (nft_effect a mac ip S) p"
  by (cases a; cases "real_ip ip") (auto simp: nft_effect_simps)

lemma nft_effect_permits: "nft_sends mac ip p \<Longrightarrow> \<not> nft_dropped (nft_effect Permit mac ip S) p"
  by (cases "real_ip ip") (auto simp: nft_effect_simps)

lemma nft_effect_others:
  "\<not> nft_touches mac ip p \<Longrightarrow> nft_dropped (nft_effect a mac ip S) p = nft_dropped S p"
  by (cases a; cases "real_ip ip") (auto simp: nft_effect_simps)

locale nft_kernel =
  fixes exec :: "'k exec" and sets :: "'k \<Rightarrow> string \<Rightarrow> string set"
  assumes works: "nft_works exec sets"
begin

lemma act_effect: "\<exists>k'. fw_act exec Nft a mac ip k = Some (Ok (), k') \<and> sets k' = nft_effect a mac ip (sets k)"
  using nft_act_does [OF works] unfolding does_def by blast

lemma act_SomeD: "fw_act exec Nft a mac ip k = Some (r, k') \<Longrightarrow> sets k' = nft_effect a mac ip (sets k)"
  using act_effect [of a mac ip k] by auto

end

sublocale nft_kernel \<subseteq> fw: enforcer "fw_act exec Nft" "\<lambda>k. True" "\<lambda>k. nft_dropped (sets k)"
    nft_touches nft_sends "\<lambda>p. False"
proof unfold_locales
  show "\<exists>k'. fw_act exec Nft a mac ip k = Some (Ok (), k') \<and> True" for k a mac ip
    using act_effect by blast
  show "nft_dropped (sets k') p" if "fw_act exec Nft Block mac ip k = Some (r, k')" "nft_touches mac ip p"
    for k mac ip r k' p using that by (simp add: act_SomeD nft_effect_hits)
  show "nft_dropped (sets k') p" if "fw_act exec Nft Isolate mac ip k = Some (r, k')"
    "nft_touches mac ip p" for k mac ip r k' p using that by (simp add: act_SomeD nft_effect_hits)
  show "\<not> nft_dropped (sets k') p" if "fw_act exec Nft Permit mac ip k = Some (r, k')"
    "nft_sends mac ip p" for k mac ip r k' p using that by (simp add: act_SomeD nft_effect_permits)
  show "nft_dropped (sets k') p = nft_dropped (sets k) p"
    if "fw_act exec Nft a mac ip k = Some (r, k')" "\<not> nft_touches mac ip p"
    for k a mac ip r k' p using that by (simp add: act_SomeD nft_effect_others)
qed (simp add: nft_sends_def nft_touches_def)

context nft_kernel
begin

lemmas last_action = fw.last_decides

end

section \<open>A reference kernel for nft\<close>

fun nft_exec :: "(string \<Rightarrow> string list) exec" where
  "nft_exec prog [v, w, x, y, st, e] inp k =
     (if prog = ''nft'' \<and> w = ''element'' \<and> y = NFT_TABLE then
        (let el = butlast (butlast (tl (tl e))) in
         if v = ''add'' then
           (if el \<in> set (k st) then (Exited False ''exists'', k)
            else (Exited True [], k(st := el # k st)))
         else if v = ''delete'' then
           (if el \<in> set (k st) then (Exited True [], k(st := removeAll el (k st)))
            else (Exited False ''could not process'', k))
         else (SpawnError, k))
      else (SpawnError, k))"
| "nft_exec prog args inp k = (SpawnError, k)"

definition nft_sets :: "(string \<Rightarrow> string list) \<Rightarrow> string \<Rightarrow> string set" where
  "nft_sets k st = set (k st)"

lemma nft_exec_add:
  "nft_exec ''nft'' (elem_args ''add'' st e) [] k =
     (if e \<in> set (k st) then (Exited False ''exists'', k) else (Exited True [], k(st := e # k st)))"
  by (simp add: elem_args_def Let_def butlast_append)

lemma nft_exec_delete:
  "nft_exec ''nft'' (elem_args ''delete'' st e) [] k =
     (if e \<in> set (k st) then (Exited True [], k(st := removeAll e (k st)))
      else (Exited False ''could not process'', k))"
  by (simp add: elem_args_def Let_def butlast_append)

lemma nft_messages:
  "contains ''exists'' (to_lowercase ''exists'')"
  "contains ''could not'' (to_lowercase ''could not process'')"
  by (simp_all add: text_simps starts_with_def)

lemma exited_exI:
  "f = (Exited b err, k') \<Longrightarrow> b \<or> P err \<Longrightarrow> Q k' \<Longrightarrow>
   \<exists>b err k'. f = (Exited b err, k') \<and> (b \<or> P err) \<and> Q k'"
  by blast

lemma nft_exec_works: "nft_works nft_exec nft_sets"
  unfolding nft_works_def
proof (intro conjI allI)
  fix st e k
  show "\<exists>b err k'. nft_exec ''nft'' (elem_args ''add'' st e) [] k = (Exited b err, k') \<and>
      (b \<or> contains ''exists'' (to_lowercase err)) \<and>
      nft_sets k' = (nft_sets k)(st := insert e (nft_sets k st))"
    unfolding nft_exec_add
    by (cases "e \<in> set (k st)"; simp only: if_True if_False)
      (rule exited_exI [OF refl], simp add: nft_messages del: contains.simps list.map,
       simp add: nft_sets_def [abs_def] fun_eq_iff insert_absorb)+
  show "\<exists>b err k'. nft_exec ''nft'' (elem_args ''delete'' st e) [] k = (Exited b err, k') \<and>
      (b \<or> contains ''could not'' (to_lowercase err)) \<and>
      nft_sets k' = (nft_sets k)(st := nft_sets k st - {e})"
    unfolding nft_exec_delete
    by (cases "e \<in> set (k st)"; simp only: if_True if_False)
      (rule exited_exI [OF refl], simp add: nft_messages del: contains.simps list.map,
       simp add: nft_sets_def [abs_def] fun_eq_iff)+
qed

interpretation nftk: nft_kernel nft_exec nft_sets
  by unfold_locales (rule nft_exec_works)

end
