(* ===== verification/FirewallLegacy.thy ===== *)
theory FirewallLegacy
  imports FirewallLaws
begin

text \<open>
  The legacy back end meets the same contract. Its loops delete a rule until the program fails; they
  end because every round removes one occurrence of the rule.
\<close>

section \<open>The laws of iptables\<close>

type_synonym ipt_rule = "string list"

definition device_rules :: "string \<Rightarrow> ipt_rule set" where
  "device_rules mac = {drop_rule mac, dns_rule mac, portal_rule mac}"

definition ipt_works :: "'k exec \<Rightarrow> ('k \<Rightarrow> string \<Rightarrow> ipt_rule list option) \<Rightarrow> bool" where
  "ipt_works exec rules_in \<longleftrightarrow>
     (\<forall>k c rs mac r. rules_in k c = Some rs \<longrightarrow> r \<in> device_rules mac \<longrightarrow>
        (\<exists>err k'. exec ''iptables-legacy'' ([''-C'', c] @ r) [] k = (Exited (r \<in> set rs) err, k')
           \<and> rules_in k' = rules_in k) \<and>
        (\<exists>err k'. exec ''iptables-legacy'' ([''-D'', c] @ r) [] k = (Exited (r \<in> set rs) err, k')
           \<and> rules_in k' = (rules_in k)(c \<mapsto> remove1 r rs)) \<and>
        (\<exists>err k'. exec ''iptables-legacy'' ([''-I'', c] @ r) [] k = (Exited True err, k')
           \<and> rules_in k' = (rules_in k)(c \<mapsto> r # rs)) \<and>
        (\<exists>err k'. exec ''iptables-legacy'' ([''-A'', c] @ r) [] k = (Exited True err, k')
           \<and> rules_in k' = (rules_in k)(c \<mapsto> rs @ [r])))"

lemma count_list_pos: "x \<in> set xs \<Longrightarrow> 0 < count_list xs x"
  by (induction xs) auto

section \<open>What the legacy back end does\<close>

definition purge :: "string \<Rightarrow> ipt_rule list \<Rightarrow> ipt_rule list" where
  "purge mac rs = removeAll (drop_rule mac) (removeAll (portal_rule mac) (removeAll (dns_rule mac) rs))"

definition hold :: "string \<Rightarrow> ipt_rule list \<Rightarrow> ipt_rule list" where
  "hold mac rs = (if drop_rule mac \<in> set rs then rs
     else (portal_rule mac # dns_rule mac # rs) @ [drop_rule mac])"

definition bar :: "string \<Rightarrow> ipt_rule list \<Rightarrow> ipt_rule list" where
  "bar mac rs = (if drop_rule mac \<in> set rs then rs else drop_rule mac # rs)"

definition ipt_effect :: "fw_action \<Rightarrow> string \<Rightarrow> ipt_rule list \<times> ipt_rule list \<Rightarrow>
    ipt_rule list \<times> ipt_rule list" where
  "ipt_effect a mac s =
     (case a of Block \<Rightarrow> (bar mac (fst s), purge mac (snd s))
      | Isolate \<Rightarrow> (removeAll (drop_rule mac) (fst s), hold mac (snd s))
      | Permit \<Rightarrow> (removeAll (drop_rule mac) (fst s), purge mac (snd s)))"

locale ipt_kernel =
  fixes exec :: "'k exec" and rules_in :: "'k \<Rightarrow> string \<Rightarrow> ipt_rule list option"
  assumes works: "ipt_works exec rules_in"
begin

lemma check:
  assumes "rules_in k c = Some rs" and "r \<in> device_rules mac"
  obtains k' where "ipt_rule_exists exec c r k = (r \<in> set rs, k')" and "rules_in k' = rules_in k"
proof -
  from works assms obtain err k' where
    "exec ''iptables-legacy'' ([''-C'', c] @ r) [] k = (Exited (r \<in> set rs) err, k')" "rules_in k' = rules_in k"
    unfolding ipt_works_def by meson
  with that show thesis by (simp add: ipt_rule_exists_def cmd_ok_def)
qed

lemma insert:
  assumes "rules_in k c = Some rs" and "r \<in> device_rules mac"
  obtains k' where "run_ipt exec ([''-I'', c] @ r) k = Some (Ok (), k')"
    and "rules_in k' = (rules_in k)(c \<mapsto> r # rs)"
proof -
  from works assms obtain err k' where
    "exec ''iptables-legacy'' ([''-I'', c] @ r) [] k = (Exited True err, k')"
    "rules_in k' = (rules_in k)(c \<mapsto> r # rs)"
    unfolding ipt_works_def by meson
  with that show thesis by (simp add: run_ipt_def)
qed

lemma append:
  assumes "rules_in k c = Some rs" and "r \<in> device_rules mac"
  obtains k' where "run_ipt exec ([''-A'', c] @ r) k = Some (Ok (), k')"
    and "rules_in k' = (rules_in k)(c \<mapsto> rs @ [r])"
proof -
  from works assms obtain err k' where
    "exec ''iptables-legacy'' ([''-A'', c] @ r) [] k = (Exited True err, k')"
    "rules_in k' = (rules_in k)(c \<mapsto> rs @ [r])"
    unfolding ipt_works_def by meson
  with that show thesis by (simp add: run_ipt_def)
qed

lemma delete:
  assumes "rules_in k c = Some rs" and "r \<in> device_rules mac"
  obtains res k' where "run_ipt exec ([''-D'', c] @ r) k = Some (res, k')"
    and "res = Ok () \<longleftrightarrow> r \<in> set rs" and "res \<noteq> Panic" and "rules_in k' = (rules_in k)(c \<mapsto> remove1 r rs)"
proof -
  from works assms obtain err k' where
    "exec ''iptables-legacy'' ([''-D'', c] @ r) [] k = (Exited (r \<in> set rs) err, k')"
    "rules_in k' = (rules_in k)(c \<mapsto> remove1 r rs)"
    unfolding ipt_works_def by meson
  with that show thesis by (cases "r \<in> set rs") (simp_all add: run_ipt_def)
qed

text \<open>The loop returns, and has removed every occurrence.\<close>

lemma delete_loop:
  assumes "r \<in> device_rules mac"
  shows "rules_in k c = Some rs \<Longrightarrow>
    \<exists>k'. fw_loop (run_ipt exec ([''-D'', c] @ r)) k = Some (Ok (), k') \<and>
      rules_in k' = (rules_in k)(c \<mapsto> removeAll r rs)"
proof (induction "count_list rs r" arbitrary: k rs rule: less_induct)
  case less
  obtain res k1 where d: "run_ipt exec ([''-D'', c] @ r) k = Some (res, k1)"
    "res = Ok () \<longleftrightarrow> r \<in> set rs" "res \<noteq> Panic" "rules_in k1 = (rules_in k)(c \<mapsto> remove1 r rs)"
    by (rule delete [OF less.prems assms])
  show ?case
  proof (cases "r \<in> set rs")
    case True
    have "count_list (remove1 r rs) r < count_list rs r"
      using count_list_pos [OF True] True by simp
    then obtain k' where "fw_loop (run_ipt exec ([''-D'', c] @ r)) k1 = Some (Ok (), k')"
      "rules_in k' = (rules_in k1)(c \<mapsto> removeAll r (remove1 r rs))"
      using less.hyps [of "remove1 r rs" k1] d(4) by auto
    moreover have "removeAll r (remove1 r rs) = removeAll r rs" by (induction rs) auto
    ultimately show ?thesis using d True unfolding fw_loop_def by (subst repeat_ok.simps) simp
  next
    case False
    then have "repeat_ok (run_ipt exec ([''-D'', c] @ r)) k = Some k1"
      using d by (subst repeat_ok.simps) (cases res; simp)
    with False d less.prems show ?thesis
      by (simp add: fw_loop_def remove1_idem)
  qed
qed

text \<open>An operation that succeeds and changes the two chains by a function.\<close>

definition at :: "'k \<Rightarrow> ipt_rule list \<times> ipt_rule list \<Rightarrow> bool" where
  "at k s \<longleftrightarrow> rules_in k CHAIN_BLOCK = Some (fst s) \<and> rules_in k CHAIN_QUARANTINE = Some (snd s)"

definition goes :: "'k fw \<Rightarrow> (ipt_rule list \<times> ipt_rule list \<Rightarrow> ipt_rule list \<times> ipt_rule list) \<Rightarrow> bool" where
  "goes m f \<longleftrightarrow> (\<forall>k s. at k s \<longrightarrow> (\<exists>k'. m k = Some (Ok (), k') \<and> at k' (f s)))"

lemma goesI: "(\<And>k s. at k s \<Longrightarrow> \<exists>k'. m k = Some (Ok (), k') \<and> at k' (f s)) \<Longrightarrow> goes m f"
  by (simp add: goes_def)

lemma goesE:
  assumes "goes m f" and "at k s"
  obtains k' where "m k = Some (Ok (), k')" and "at k' (f s)"
  using assms unfolding goes_def by blast

lemma goes_seq:
  assumes "goes m f" and "goes n g"
  shows "goes (fw_seq m n) (\<lambda>s. g (f s))"
proof (rule goesI)
  fix k s assume "at k s"
  then obtain k1 where m: "m k = Some (Ok (), k1)" "at k1 (f s)" by (rule goesE [OF assms(1)])
  from m(2) obtain k2 where "n k1 = Some (Ok (), k2)" "at k2 (g (f s))" by (rule goesE [OF assms(2)])
  with m show "\<exists>k'. fw_seq m n k = Some (Ok (), k') \<and> at k' (g (f s))" by (simp add: fw_seq_def)
qed

definition chain_of :: "bool \<Rightarrow> string" where
  "chain_of q = (if q then CHAIN_QUARANTINE else CHAIN_BLOCK)"

definition upd :: "bool \<Rightarrow> (ipt_rule list \<Rightarrow> ipt_rule list) \<Rightarrow> ipt_rule list \<times> ipt_rule list \<Rightarrow>
    ipt_rule list \<times> ipt_rule list" where
  "upd q f s = (if q then (fst s, f (snd s)) else (f (fst s), snd s))"

definition sel :: "bool \<Rightarrow> ipt_rule list \<times> ipt_rule list \<Rightarrow> ipt_rule list" where
  "sel q s = (if q then snd s else fst s)"

lemma at_sel: "at k s \<Longrightarrow> rules_in k (chain_of q) = Some (sel q s)"
  by (simp add: at_def chain_of_def sel_def)

lemma at_upd:
  "at k s \<Longrightarrow> rules_in k' = (rules_in k)(chain_of q \<mapsto> f (sel q s)) \<Longrightarrow> at k' (upd q f s)"
  by (auto simp: at_def chain_of_def sel_def upd_def CHAIN_BLOCK_def CHAIN_QUARANTINE_def)

lemma goes_loop:
  assumes "r \<in> device_rules mac"
  shows "goes (fw_loop (run_ipt exec ([''-D'', chain_of q] @ r))) (upd q (removeAll r))"
proof (rule goesI)
  fix k s assume "at k s"
  with delete_loop [OF assms at_sel, of k s q] at_upd show
    "\<exists>k'. fw_loop (run_ipt exec ([''-D'', chain_of q] @ r)) k = Some (Ok (), k') \<and>
      at k' (upd q (removeAll r) s)" by metis
qed

lemma goes_insert:
  assumes "r \<in> device_rules mac"
  shows "goes (run_ipt exec ([''-I'', chain_of q] @ r)) (upd q ((#) r))"
proof (rule goesI)
  fix k s assume a: "at k s"
  obtain k' where k': "run_ipt exec ([''-I'', chain_of q] @ r) k = Some (Ok (), k')"
    "rules_in k' = (rules_in k)(chain_of q \<mapsto> r # sel q s)"
    by (rule insert [OF at_sel [OF a] assms])
  from k'(1) at_upd [OF a, of k' q "(#) r", OF k'(2)] show
    "\<exists>k'. run_ipt exec ([''-I'', chain_of q] @ r) k = Some (Ok (), k') \<and> at k' (upd q ((#) r) s)"
    by blast
qed

lemma goes_append:
  assumes "r \<in> device_rules mac"
  shows "goes (run_ipt exec ([''-A'', chain_of q] @ r)) (upd q (\<lambda>rs. rs @ [r]))"
proof (rule goesI)
  fix k s assume a: "at k s"
  obtain k' where k': "run_ipt exec ([''-A'', chain_of q] @ r) k = Some (Ok (), k')"
    "rules_in k' = (rules_in k)(chain_of q \<mapsto> sel q s @ [r])"
    by (rule append [OF at_sel [OF a] assms])
  from k'(1) at_upd [OF a, of k' q "\<lambda>rs. rs @ [r]", OF k'(2)] show
    "\<exists>k'. run_ipt exec ([''-A'', chain_of q] @ r) k = Some (Ok (), k') \<and> at k' (upd q (\<lambda>rs. rs @ [r]) s)"
    by blast
qed

lemma goes_unless:
  assumes "r \<in> device_rules mac" and "goes m f"
  shows "goes (fw_unless (ipt_rule_exists exec (chain_of q) r) m) (\<lambda>s. if r \<in> set (sel q s) then s else f s)"
proof (rule goesI)
  fix k s assume a: "at k s"
  obtain k1 where k1: "ipt_rule_exists exec (chain_of q) r k = (r \<in> set (sel q s), k1)"
    "rules_in k1 = rules_in k"
    by (rule check [OF at_sel [OF a] assms(1)])
  from a k1(2) have "at k1 s" by (simp add: at_def)
  with assms(2) k1(1) show
    "\<exists>k'. fw_unless (ipt_rule_exists exec (chain_of q) r) m k = Some (Ok (), k') \<and>
       at k' (if r \<in> set (sel q s) then s else f s)"
    by (auto simp: fw_unless_def elim!: goesE)
qed

lemma device_rulesI:
  "drop_rule mac \<in> device_rules mac" "dns_rule mac \<in> device_rules mac" "portal_rule mac \<in> device_rules mac"
  by (simp_all add: device_rules_def)

lemma goes_remove_block: "goes (ipt_remove_block exec mac) (upd False (removeAll (drop_rule mac)))"
  using goes_loop [OF device_rulesI(1), of False mac] by (simp add: ipt_remove_block_def chain_of_def)

lemma goes_eq: "goes m f \<Longrightarrow> f = g \<Longrightarrow> goes m g" by simp

lemma goes_remove_quarantine: "goes (ipt_remove_quarantine exec mac) (upd True (purge mac))"
proof -
  have c: "CHAIN_QUARANTINE = chain_of True" by (simp add: chain_of_def)
  show ?thesis unfolding ipt_remove_quarantine_def c
    by (rule goes_eq, (rule goes_seq goes_loop device_rulesI)+,
      simp add: upd_def purge_def fun_eq_iff)
qed

lemma goes_act: "goes (fw_act exec IptablesLegacy a mac ip) (ipt_effect a (ipt_mac mac))"
proof -
  let ?m = "ipt_mac mac"
  have c: "CHAIN_QUARANTINE = chain_of True" "CHAIN_BLOCK = chain_of False" by (simp_all add: chain_of_def)
  have "goes (ipt_block exec mac) (ipt_effect Block ?m)"
    unfolding ipt_block_def Let_def c
    by (rule goes_eq, (rule goes_seq goes_unless goes_insert goes_remove_quarantine device_rulesI)+,
      simp add: ipt_effect_def upd_def sel_def bar_def fun_eq_iff)
  moreover have "goes (ipt_quarantine exec mac) (ipt_effect Isolate ?m)"
    unfolding ipt_quarantine_def Let_def c
    by (rule goes_eq, (rule goes_seq goes_unless goes_insert goes_append goes_remove_block device_rulesI)+,
      simp add: ipt_effect_def upd_def sel_def hold_def fun_eq_iff)
  moreover have "goes (ipt_allow exec mac) (ipt_effect Permit ?m)"
    unfolding ipt_allow_def Let_def c
    by (rule goes_eq, (rule goes_seq goes_remove_block goes_remove_quarantine)+,
      simp add: ipt_effect_def upd_def fun_eq_iff)
  ultimately show ?thesis
    by (cases a) (simp_all add: fw_act_def fw_block_def fw_quarantine_def fw_allow_def)
qed

end

section \<open>Reading the legacy chains\<close>

text \<open>What a rule of a device does with a packet: \<open>Some True\<close> drops, \<open>Some False\<close> returns.\<close>

definition rule_hit :: "packet \<Rightarrow> ipt_rule \<Rightarrow> bool option" where
  "rule_hit p r =
     (let mac = to_uppercase (pk_ether p) in
      if r = drop_rule mac then Some True
      else if r = dns_rule mac \<and> pk_udp p \<and> pk_dport p = ''53'' then Some False
      else if r = portal_rule mac \<and> \<not> pk_udp p \<and> pk_dport p = CAPTIVE_PORT then Some False
      else None)"

fun chain_drops :: "packet \<Rightarrow> ipt_rule list \<Rightarrow> bool" where
  "chain_drops p [] = False"
| "chain_drops p (r # rs) = (case rule_hit p r of Some b \<Rightarrow> b | None \<Rightarrow> chain_drops p rs)"

definition ipt_dropped :: "ipt_rule list \<times> ipt_rule list \<Rightarrow> packet \<Rightarrow> bool" where
  "ipt_dropped s p \<longleftrightarrow> chain_drops p (fst s) \<or> chain_drops p (snd s)"

definition ipt_spared :: "packet \<Rightarrow> bool" where
  "ipt_spared p \<longleftrightarrow> pk_udp p \<and> pk_dport p = ''53'' \<or> \<not> pk_udp p \<and> pk_dport p = CAPTIVE_PORT"

definition ipt_touches :: "string \<Rightarrow> string option \<Rightarrow> packet \<Rightarrow> bool" where
  "ipt_touches mac ip p \<longleftrightarrow> to_uppercase (pk_ether p) = ipt_mac mac"

lemma rules_distinct [simp]:
  "drop_rule m = drop_rule n \<longleftrightarrow> m = n" "dns_rule m = dns_rule n \<longleftrightarrow> m = n"
  "portal_rule m = portal_rule n \<longleftrightarrow> m = n"
  "drop_rule m \<noteq> dns_rule n" "drop_rule m \<noteq> portal_rule n" "dns_rule m \<noteq> portal_rule n"
  "dns_rule n \<noteq> drop_rule m" "portal_rule n \<noteq> drop_rule m" "portal_rule n \<noteq> dns_rule m"
  by (simp_all add: drop_rule_def dns_rule_def portal_rule_def mac_match_def)

lemma chain_drops_unspared:
  "\<not> ipt_spared p \<Longrightarrow> chain_drops p rs \<longleftrightarrow> drop_rule (to_uppercase (pk_ether p)) \<in> set rs"
proof (induction rs)
  case (Cons r rs)
  from Cons.prems have "rule_hit p r = (if r = drop_rule (to_uppercase (pk_ether p)) then Some True else None)"
    unfolding rule_hit_def ipt_spared_def Let_def by (simp del: list.map)
  with Cons show ?case by (auto simp del: list.map)
qed simp

lemma chain_drops_append:
  "chain_drops p (rs @ ts) = (if \<forall>r \<in> set rs. rule_hit p r = None then chain_drops p ts else chain_drops p rs)"
  by (induction rs) (auto split: option.split)

lemma chain_drops_filter:
  "(\<And>r. r \<in> set rs \<Longrightarrow> \<not> P r \<Longrightarrow> rule_hit p r = None) \<Longrightarrow> chain_drops p (filter P rs) = chain_drops p rs"
  by (induction rs) (auto split: option.split)

lemma chain_drops_none: "(\<And>r. r \<in> set rs \<Longrightarrow> rule_hit p r = None) \<Longrightarrow> \<not> chain_drops p rs"
  by (induction rs) auto

lemma rule_hit_device:
  "rule_hit p (drop_rule m) = (if m = to_uppercase (pk_ether p) then Some True else None)"
  "m \<noteq> to_uppercase (pk_ether p) \<Longrightarrow> rule_hit p (dns_rule m) = None"
  "m \<noteq> to_uppercase (pk_ether p) \<Longrightarrow> rule_hit p (portal_rule m) = None"
  by (simp_all add: rule_hit_def Let_def)

lemma purge_filter: "purge mac rs = filter (\<lambda>r. r \<notin> device_rules mac) rs"
  unfolding purge_def removeAll_filter_not_eq device_rules_def
  by (induction rs) auto

lemma purged: "\<not> chain_drops p (purge (to_uppercase (pk_ether p)) rs)"
  unfolding purge_filter
  by (rule chain_drops_none) (auto simp: device_rules_def rule_hit_def Let_def)

lemma not_dropped_removed:
  "\<not> chain_drops p (removeAll (drop_rule (to_uppercase (pk_ether p))) rs)"
  by (induction rs) (auto simp: rule_hit_def Let_def)

section \<open>The legacy back end meets the contract\<close>

definition plain :: "ipt_rule list \<Rightarrow> bool" where
  "plain rs \<longleftrightarrow> (\<forall>r \<in> set rs. \<forall>m. r \<noteq> dns_rule m \<and> r \<noteq> portal_rule m)"

lemma plain_drops: "plain rs \<Longrightarrow> drop_rule (to_uppercase (pk_ether p)) \<in> set rs \<Longrightarrow> chain_drops p rs"
  by (induction rs) (auto simp: plain_def rule_hit_def Let_def)

lemma bar_drops: "plain rs \<Longrightarrow> chain_drops p (bar (to_uppercase (pk_ether p)) rs)"
  by (auto simp: bar_def rule_hit_device plain_drops)

lemma hold_drops: "\<not> ipt_spared p \<Longrightarrow> chain_drops p (hold (to_uppercase (pk_ether p)) rs)"
  by (simp add: chain_drops_unspared hold_def del: list.map)

lemma ipt_effect_others:
  assumes "mac \<noteq> to_uppercase (pk_ether p)"
  shows "chain_drops p (purge mac rs) = chain_drops p rs"
    "chain_drops p (removeAll (drop_rule mac) rs) = chain_drops p rs"
    "chain_drops p (bar mac rs) = chain_drops p rs"
    "chain_drops p (hold mac rs) = chain_drops p rs"
proof -
  note none = rule_hit_device(1) [of p mac] rule_hit_device(2,3) [OF assms]
  show "chain_drops p (purge mac rs) = chain_drops p rs"
    unfolding purge_filter using assms
    by (intro chain_drops_filter) (auto simp: device_rules_def none simp del: list.map)
  show "chain_drops p (removeAll (drop_rule mac) rs) = chain_drops p rs"
    unfolding removeAll_filter_not_eq using assms
    by (intro chain_drops_filter) (auto simp: none simp del: list.map)
  show "chain_drops p (bar mac rs) = chain_drops p rs"
    using assms by (simp add: bar_def none del: list.map)
  show "chain_drops p (hold mac rs) = chain_drops p rs"
  proof (cases "\<forall>r \<in> set rs. rule_hit p r = None")
    case True
    then have "\<not> chain_drops p rs" by (intro chain_drops_none) blast
    with True assms show ?thesis by (simp add: hold_def none chain_drops_append del: list.map)
  next
    case False
    with assms show ?thesis by (simp only: hold_def none chain_drops_append chain_drops.simps
        append_Cons option.case if_False split: if_split) simp
  qed
qed

lemma plain_effect: "plain (fst s) \<Longrightarrow> plain (fst (ipt_effect a mac s))"
  by (cases a) (auto simp: ipt_effect_def plain_def bar_def)

context ipt_kernel
begin

definition good :: "'k \<Rightarrow> bool" where
  "good k \<longleftrightarrow> (\<exists>s. at k s \<and> plain (fst s))"

definition dropped :: "'k \<Rightarrow> packet \<Rightarrow> bool" where
  "dropped k p \<longleftrightarrow> ipt_dropped (the (rules_in k CHAIN_BLOCK), the (rules_in k CHAIN_QUARANTINE)) p"

lemma dropped_at: "at k s \<Longrightarrow> dropped k p = ipt_dropped s p"
  by (simp add: dropped_def at_def)

lemma act_at:
  assumes "good k"
  obtains s k' where "at k s" and "plain (fst s)" and "fw_act exec IptablesLegacy a mac ip k = Some (Ok (), k')"
    and "at k' (ipt_effect a (ipt_mac mac) s)"
  using assms goesE [OF goes_act] that unfolding good_def by metis

lemma act_SomeE:
  assumes "good k" and "fw_act exec IptablesLegacy a mac ip k = Some (r, k')"
  obtains s where "at k s" and "plain (fst s)" and "at k' (ipt_effect a (ipt_mac mac) s)"
  by (rule act_at [OF assms(1), of a mac ip]) (use assms(2) that in simp)

end

sublocale ipt_kernel \<subseteq> fw: enforcer "fw_act exec IptablesLegacy" good dropped ipt_touches ipt_touches
    ipt_spared
proof unfold_locales
  show "\<exists>k'. fw_act exec IptablesLegacy a mac ip k = Some (Ok (), k') \<and> good k'" if "good k" for k a mac ip
    by (rule act_at [OF that, of a mac ip]) (unfold good_def, blast intro: plain_effect)
  show "dropped k' p" if "good k" "fw_act exec IptablesLegacy Block mac ip k = Some (r, k')"
    "ipt_touches mac ip p" for k mac ip r k' p
    by (rule act_SomeE [OF that(1,2)])
      (use that(3) in \<open>simp add: dropped_at ipt_dropped_def ipt_effect_def ipt_touches_def
        bar_drops [of _ p, unfolded that(3) [unfolded ipt_touches_def]] del: list.map\<close>)
  show "dropped k' p" if "good k" "fw_act exec IptablesLegacy Isolate mac ip k = Some (r, k')"
    "ipt_touches mac ip p" "\<not> ipt_spared p" for k mac ip r k' p
    by (rule act_SomeE [OF that(1,2)])
      (use that(4) in \<open>simp add: dropped_at ipt_dropped_def ipt_effect_def
        hold_drops [of p, unfolded that(3) [unfolded ipt_touches_def]] del: list.map\<close>)
  show "\<not> dropped k' p" if "good k" "fw_act exec IptablesLegacy Permit mac ip k = Some (r, k')"
    "ipt_touches mac ip p" for k mac ip r k' p
    by (rule act_SomeE [OF that(1,2)])
      (simp add: dropped_at ipt_dropped_def ipt_effect_def
        purged [of p, unfolded that(3) [unfolded ipt_touches_def]]
        not_dropped_removed [of p, unfolded that(3) [unfolded ipt_touches_def]] del: list.map)
  show "dropped k' p = dropped k p" if "good k" "fw_act exec IptablesLegacy a mac ip k = Some (r, k')"
    "\<not> ipt_touches mac ip p" for k a mac ip r k' p
    by (rule act_SomeE [OF that(1,2)]; cases a)
      (use that(3) in \<open>simp_all add: dropped_at ipt_dropped_def ipt_effect_def ipt_touches_def
        ipt_effect_others not_sym del: list.map\<close>)
qed

context ipt_kernel
begin

lemmas last_action = fw.last_decides

end

section \<open>A reference kernel for iptables\<close>

fun ipt_exec :: "(string \<Rightarrow> ipt_rule list option) exec" where
  "ipt_exec prog (v # c # r) inp k =
     (if prog \<noteq> ''iptables-legacy'' then (SpawnError, k)
      else if v = ''-N'' then
        (if k c = None then (Exited True [], k(c \<mapsto> [])) else (Exited False ''exists'', k))
      else case k c of None \<Rightarrow> (Exited False ''no chain'', k)
      | Some rs \<Rightarrow>
          if v = ''-L'' then (Exited True [], k)
          else if v = ''-C'' then (Exited (r \<in> set rs) [], k)
          else if v = ''-D'' then (Exited (r \<in> set rs) [], k(c \<mapsto> remove1 r rs))
          else if v = ''-I'' then (Exited True [], k(c \<mapsto> r # rs))
          else if v = ''-A'' then (Exited True [], k(c \<mapsto> rs @ [r]))
          else (Exited False ''bad option'', k))"
| "ipt_exec prog args inp k = (SpawnError, k)"

lemma ipt_exec_works: "ipt_works ipt_exec (\<lambda>k. k)"
  by (simp add: ipt_works_def)

interpretation iptk: ipt_kernel ipt_exec "\<lambda>k. k"
  by unfold_locales (rule ipt_exec_works)

end
