(* ===== verification/Enforcement.thy ===== *)
theory Enforcement
  imports FirewallLegacy NetArp NetIcmp6 Store
begin

text \<open>
  The enforcement agent: \<^verbatim>\<open>services/enforcement/src/consumer.rs\<close> (commands),
  \<^verbatim>\<open>arp_spoof.rs\<close> (the frames it sends), \<^verbatim>\<open>gateway_lock.rs\<close> and the
  two periodic loops of \<^verbatim>\<open>main.rs\<close>. The state is the kernel's firewall, the table of
  devices under enforcement, the frames sent and which of the next frames fail to be sent. The two
  files of the proc file system are fields of the state; the hash map is a finite map, and the order
  in which a loop visits it is an argument of the loop.
\<close>

section \<open>State\<close>

datatype nac_action = NBlock | NQuarantine

record quarantine_entry =
  victim_ip :: ipv4
  victim_mac :: mac6
  gateway_ip :: ipv4
  qe_action :: nac_action

record 'k enforcement =
  kernel :: 'k
  qstate :: "string \<Rightarrow> quarantine_entry option"
  sent :: "bytes list"
  send_fails :: "bool list"
  spoofer :: "mac6 option"
  proc_route :: "string option"
  proc_arp :: "string option"

type_synonym ('k, 'a) em = "'k enforcement \<Rightarrow> ((string, 'a) rust \<times> 'k enforcement) option"

definition em_return :: "'a \<Rightarrow> ('k, 'a) em" where
  "em_return x s = Some (Ok x, s)"

definition em_bind :: "('k, 'a) em \<Rightarrow> ('a \<Rightarrow> ('k, 'b) em) \<Rightarrow> ('k, 'b) em" where
  "em_bind m f s =
     (case m s of None \<Rightarrow> None
      | Some (Ok x, s') \<Rightarrow> f x s'
      | Some (Err e, s') \<Rightarrow> Some (Err e, s')
      | Some (Panic, s') \<Rightarrow> Some (Panic, s'))"

definition em_seq :: "('k, unit) em \<Rightarrow> ('k, 'b) em \<Rightarrow> ('k, 'b) em" where
  "em_seq m n = em_bind m (\<lambda>_. n)"

definition em_ignore :: "('k, unit) em \<Rightarrow> ('k, unit) em" where
  "em_ignore m s = (case m s of None \<Rightarrow> None | Some (r, s') \<Rightarrow> Some (Ok (), s'))"

definition em_fw :: "'k fw \<Rightarrow> ('k, unit) em" where
  "em_fw m s = map_option (\<lambda>(r, k). (r, s\<lparr>kernel := k\<rparr>)) (m (kernel s))"

section \<open>The proc files\<close>

fun route_gateway :: "string list \<Rightarrow> ipv4 option" where
  "route_gateway [] = None"
| "route_gateway (line # rest) =
     (let parts = split_whitespace line in
      if length parts < 3 then route_gateway rest
      else case from_str_radix 16 (2 ^ 32) (parts ! 1) of
          None \<Rightarrow> route_gateway rest
        | Some dest \<Rightarrow>
            if dest = 0 then
              (case from_str_radix 16 (2 ^ 32) (parts ! 2) of
                 None \<Rightarrow> route_gateway rest
               | Some gw \<Rightarrow>
                   (case u32_to_le (of_nat gw) of
                      [a, b, c, d] \<Rightarrow> Some (Ipv4 a b c d) | _ \<Rightarrow> None))
            else route_gateway rest)"

definition detect_default_gateway :: "string option \<Rightarrow> ipv4 option" where
  "detect_default_gateway route =
     (case route of None \<Rightarrow> None | Some content \<Rightarrow> route_gateway (drop 1 (lines content)))"

definition parse_arp_hex :: "string \<Rightarrow> mac6 option" where
  "parse_arp_hex s =
     (case List.map_filter (\<lambda>h. map_option of_nat (from_str_radix 16 256 h)) (split_on CHR '':'' s) of
        [a, b, c, d, e, f] \<Rightarrow> Some (Mac a b c d e f)
      | _ \<Rightarrow> None)"

fun arp_lookup :: "string \<Rightarrow> string list \<Rightarrow> mac6 option" where
  "arp_lookup ip [] = None"
| "arp_lookup ip (line # rest) =
     (let parts = split_whitespace line in
      if 4 \<le> length parts \<and> parts ! 0 = ip \<and> parts ! 3 \<noteq> ''00:00:00:00:00:00'' then
        (case parse_arp_hex (parts ! 3) of Some m \<Rightarrow> Some m | None \<Rightarrow> arp_lookup ip rest)
      else arp_lookup ip rest)"

definition get_arp_mac :: "string option \<Rightarrow> ipv4 \<Rightarrow> mac6 option" where
  "get_arp_mac arp ip =
     (case arp of None \<Rightarrow> None | Some content \<Rightarrow> arp_lookup (ipv4_to_string ip) (drop 1 (lines content)))"

definition arp_mac_lookup :: "string option \<Rightarrow> ipv4 \<Rightarrow> mac6 option" where
  "arp_mac_lookup arp ip =
     (case arp of None \<Rightarrow> None | Some content \<Rightarrow> arp_lookup (ipv4_to_string ip) (drop 1 (lines content)))"

section \<open>The spoofer\<close>

definition broadcast_mac :: mac6 where
  "broadcast_mac = Mac 0xff 0xff 0xff 0xff 0xff 0xff"

definition send_frame :: "bytes \<Rightarrow> ('k, unit) em" where
  "send_frame frame s =
     (let s' = s\<lparr>send_fails := tl (send_fails s)\<rparr> in
      if send_fails s \<noteq> [] \<and> hd (send_fails s) then Some (Err ''send_to error'', s')
      else Some (Ok (), s'\<lparr>sent := sent s' @ [frame]\<rparr>))"

text \<open>\<^verbatim>\<open>send_frame(&craft(..)?)\<close>.\<close>

definition send_crafted :: "(net_proto_error, bytes) rust \<Rightarrow> ('k, unit) em" where
  "send_crafted f =
     (case f of Ok frame \<Rightarrow> send_frame frame
      | Err e \<Rightarrow> (\<lambda>s. Some (Err ''craft'', s)) | Panic \<Rightarrow> (\<lambda>s. Some (Panic, s)))"

definition sp_quarantine :: "mac6 \<Rightarrow> ipv4 \<Rightarrow> mac6 \<Rightarrow> ipv4 \<Rightarrow> ('k, unit) em" where
  "sp_quarantine my_mac vip vmac gip s =
     em_seq (send_crafted (craft_arp_reply vmac my_mac gip vmac vip))
       (\<lambda>s. let gw_mac = runwrap_or broadcast_mac (arp_mac_lookup (proc_arp s) gip)
            in send_crafted (craft_arp_reply gw_mac my_mac vip gw_mac gip) s) s"

definition sp_block :: "mac6 \<Rightarrow> ipv4 \<Rightarrow> mac6 \<Rightarrow> ipv4 \<Rightarrow> ('k, unit) em" where
  "sp_block my_mac vip vmac gip s =
     em_seq (send_crafted (craft_arp_reply vmac my_mac gip vmac vip))
       (\<lambda>s. let gw_mac = runwrap_or broadcast_mac (arp_mac_lookup (proc_arp s) gip)
            in send_crafted (craft_arp_reply gw_mac my_mac vip gw_mac gip) s) s"

definition sp_allow :: "ipv4 \<Rightarrow> mac6 \<Rightarrow> ipv4 \<Rightarrow> mac6 \<Rightarrow> ('k, unit) em" where
  "sp_allow vip vmac gip gmac =
     em_seq (send_crafted (craft_arp_reply vmac gmac gip vmac vip))
    (em_seq (send_crafted (craft_arp_reply gmac vmac vip gmac gip))
            (send_crafted (craft_gratuitous_arp vmac vip vip)))"

text \<open>
  The channel of an interface looked up by name: opening it fails (\<open>None\<close>), gives a kind of channel
  that is not Ethernet, or an Ethernet channel.
\<close>

definition on_interface :: "string list \<Rightarrow> string \<Rightarrow> bool option \<Rightarrow> ('k, unit) em \<Rightarrow> ('k, unit) em" where
  "on_interface names iface channel m s =
     (if iface \<notin> set names then Some (Err ''interface not found'', s)
      else case channel of
             None \<Rightarrow> Some (Err ''channel error'', s)
           | Some False \<Rightarrow> Some (Err ''unsupported channel'', s)
           | Some True \<Rightarrow> m s)"

text \<open>\<^verbatim>\<open>GatewayLock::announce\<close> and \<^verbatim>\<open>Ipv6Blocker::block\<close>.\<close>

definition gateway_announce :: "string list \<Rightarrow> string \<Rightarrow> bool option \<Rightarrow> ipv4 \<Rightarrow> mac6 \<Rightarrow> ('k, unit) em" where
  "gateway_announce names iface channel gip gmac =
     on_interface names iface channel (send_crafted (craft_gratuitous_arp gmac gip gip))"

definition ipv6_block :: "string list \<Rightarrow> string \<Rightarrow> bool option \<Rightarrow> mac6 \<Rightarrow> ipv6 \<Rightarrow> ('k, unit) em" where
  "ipv6_block names iface channel my_mac target =
     on_interface names iface channel (send_crafted (Ok (craft_na_spoof my_mac target)))"

section \<open>Commands\<close>

definition is_allow_action :: "string \<Rightarrow> bool" where
  "is_allow_action a \<longleftrightarrow> a = ''allowed'' \<or> a = ''allow''"

definition map_action :: "string \<Rightarrow> nac_action" where
  "map_action a =
     (if a = ''denied'' \<or> a = ''block'' \<or> a = ''blocked'' then NBlock
      else if a = ''quarantined'' \<or> a = ''quarantine'' then NQuarantine
      else NQuarantine)"

definition cmd_ip_opt :: "enforcement_command \<Rightarrow> string option" where
  "cmd_ip_opt cmd =
     (if cmd_ip_address cmd = [] \<or> cmd_ip_address cmd = ''0.0.0.0'' then None
      else Some (cmd_ip_address cmd))"

definition update_state ::
  "enforcement_command \<Rightarrow> ipv4 \<Rightarrow> mac6 \<Rightarrow> ipv4 \<Rightarrow> nac_action \<Rightarrow> ('k, unit) em" where
  "update_state cmd vip vmac gw action s =
     Some (Ok (), s\<lparr>qstate := (qstate s)(to_lowercase (cmd_mac_address cmd) \<mapsto>
       \<lparr>victim_ip = vip, victim_mac = vmac, gateway_ip = gw, qe_action = action\<rparr>)\<rparr>)"

text \<open>The address of an earlier command leaves the sets when the new one has another address.\<close>

definition drop_stale_ip :: "'k exec \<Rightarrow> backend \<Rightarrow> enforcement_command \<Rightarrow> ('k, unit) em" where
  "drop_stale_ip exec be cmd s =
     (if cmd_ip_address cmd \<noteq> [] \<and> cmd_ip_address cmd \<noteq> ''0.0.0.0'' then
        (case map_option victim_ip (qstate s (to_lowercase (cmd_mac_address cmd))) of
           None \<Rightarrow> em_return () s
         | Some old_ip \<Rightarrow>
             (case parse_ipv4 (cmd_ip_address cmd) of
                None \<Rightarrow> em_return () s
              | Some new_ip \<Rightarrow>
                  if old_ip \<noteq> new_ip then em_fw (fw_remove_ip exec be (ipv4_to_string old_ip)) s
                  else em_return () s))
      else em_return () s)"

definition fw_apply :: "'k exec \<Rightarrow> backend \<Rightarrow> nac_action \<Rightarrow> string \<Rightarrow> string option \<Rightarrow> 'k fw" where
  "fw_apply exec be action mac ip =
     (case action of NBlock \<Rightarrow> fw_block exec be mac ip | NQuarantine \<Rightarrow> fw_quarantine exec be mac ip)"

definition sp_apply :: "nac_action \<Rightarrow> mac6 \<Rightarrow> ipv4 \<Rightarrow> mac6 \<Rightarrow> ipv4 \<Rightarrow> ('k, unit) em" where
  "sp_apply action my_mac vip vmac gw =
     (case action of NBlock \<Rightarrow> sp_block my_mac vip vmac gw | NQuarantine \<Rightarrow> sp_quarantine my_mac vip vmac gw)"

definition cmd_gateway :: "enforcement_command \<Rightarrow> string option \<Rightarrow> ipv4 option" where
  "cmd_gateway cmd route =
     (if cmd_gateway_ip cmd \<noteq> [] \<and> cmd_gateway_ip cmd \<noteq> ''0.0.0.0'' then parse_ipv4 (cmd_gateway_ip cmd)
      else detect_default_gateway route)"

definition execute_command :: "'k exec \<Rightarrow> backend \<Rightarrow> enforcement_command \<Rightarrow> ('k, unit) em" where
  "execute_command exec be cmd =
     (let action = map_action (cmd_action cmd) in
      em_seq (drop_stale_ip exec be cmd)
     (em_seq (em_fw (fw_apply exec be action (cmd_mac_address cmd) (cmd_ip_opt cmd)))
       (\<lambda>s.
         if cmd_ip_address cmd = [] \<or> cmd_ip_address cmd = ''0.0.0.0'' then em_return () s
         else case parse_ipv4 (cmd_ip_address cmd) of
           None \<Rightarrow> em_return () s
         | Some vip \<Rightarrow>
             (case parse_mac (cmd_mac_address cmd) of
                None \<Rightarrow> em_return () s
              | Some vmac \<Rightarrow>
                  (case cmd_gateway cmd (proc_route s) of
                     None \<Rightarrow> em_return () s
                   | Some gw \<Rightarrow>
                       (case spoofer s of
                          None \<Rightarrow> update_state cmd vip vmac gw action s
                        | Some my_mac \<Rightarrow>
                            em_seq (sp_apply action my_mac vip vmac gw)
                              (update_state cmd vip vmac gw action) s))))))"

definition execute_allow :: "'k exec \<Rightarrow> backend \<Rightarrow> enforcement_command \<Rightarrow> ('k, unit) em" where
  "execute_allow exec be cmd =
     em_seq (em_fw (fw_allow exec be (cmd_mac_address cmd) (cmd_ip_opt cmd)))
       (\<lambda>s.
         let key = to_lowercase (cmd_mac_address cmd);
             entry = qstate s key;
             s1 = s\<lparr>qstate := (qstate s)(key := None)\<rparr>;
             vmac = opt_or (map_option victim_mac entry) (parse_mac (cmd_mac_address cmd));
             vip = opt_or (map_option victim_ip entry) (parse_ipv4 (cmd_ip_address cmd))
         in case (vmac, vip) of
              (Some vm, Some vi) \<Rightarrow>
                (let gw = runwrap_or (Ipv4 0 0 0 0)
                       (opt_or (map_option gateway_ip entry) (detect_default_gateway (proc_route s1)));
                     gm = runwrap_or broadcast_mac
                       (opt_or (Option.bind (cmd_gateway_mac cmd) parse_mac) (get_arp_mac (proc_arp s1) gw))
                 in case spoofer s1 of None \<Rightarrow> em_return () s1
                    | Some my_mac \<Rightarrow> sp_allow vi vm gw gm s1)
            | _ \<Rightarrow> em_return () s1)"

text \<open>One message of the subscription; an error is logged.\<close>

definition strip_command :: "enforcement_command \<Rightarrow> enforcement_command" where
  "strip_command cmd = cmd\<lparr>cmd_ip_address := before_char CHR ''/'' (cmd_ip_address cmd)\<rparr>"

definition consume :: "'k exec \<Rightarrow> backend \<Rightarrow> enforcement_command option \<Rightarrow> ('k, unit) em" where
  "consume exec be msg =
     (case msg of None \<Rightarrow> em_return ()
      | Some raw \<Rightarrow>
          (let cmd = strip_command raw in
           em_ignore (if is_allow_action (cmd_action cmd) then execute_allow exec be cmd
                      else execute_command exec be cmd)))"

section \<open>The periodic loops\<close>

text \<open>A tick reads the entries under the lock, releases it, and then goes through its copy.\<close>

definition repoison_snapshot :: "string list \<Rightarrow> 'k enforcement \<Rightarrow> quarantine_entry list" where
  "repoison_snapshot order s = List.map_filter (qstate s) order"

fun repoison_entries :: "mac6 \<Rightarrow> ipv4 option \<Rightarrow> quarantine_entry list \<Rightarrow> ('k, unit) em" where
  "repoison_entries my_mac gw [] = em_return ()"
| "repoison_entries my_mac gw (e # es) =
     em_seq (em_ignore (sp_apply (qe_action e) my_mac (victim_ip e) (victim_mac e)
        (runwrap_or (gateway_ip e) gw)))
       (repoison_entries my_mac gw es)"

definition repoison :: "quarantine_entry list \<Rightarrow> ('k, unit) em" where
  "repoison entries s =
     (if entries = [] then em_return () s
      else case spoofer s of
          None \<Rightarrow> em_return () s
        | Some my_mac \<Rightarrow> repoison_entries my_mac (detect_default_gateway (proc_route s)) entries s)"

definition reinforce_snapshot ::
  "string list \<Rightarrow> 'k enforcement \<Rightarrow> (string \<times> ipv4 \<times> nac_action) list" where
  "reinforce_snapshot order s =
     List.map_filter (\<lambda>mac. map_option (\<lambda>e. (mac, victim_ip e, qe_action e)) (qstate s mac)) order"

fun reinforce :: "'k exec \<Rightarrow> backend \<Rightarrow> (string \<times> ipv4 \<times> nac_action) list \<Rightarrow> ('k, unit) em" where
  "reinforce exec be [] = em_return ()"
| "reinforce exec be ((mac, vip, action) # es) =
     em_seq (em_ignore (em_fw (fw_apply exec be action mac (Some (ipv4_to_string vip)))))
       (reinforce exec be es)"

end
