(* ===== verification/EnforcementLaws.thy ===== *)
theory EnforcementLaws
  imports Enforcement
begin

text \<open>
  What a command does to the network: the frames the spoofer sends say what they should, a command
  leaves the firewall in the state it asks for whatever happens to the frames, the reinforcement loop
  never lets a device through, and the three ways in which the table of devices and the firewall part.
\<close>

section \<open>Operations that leave the firewall alone\<close>

text \<open>A table that differs from another at one device at most, where it has an entry.\<close>

definition entered :: "string \<Rightarrow> (string \<Rightarrow> quarantine_entry option) \<Rightarrow> (string \<Rightarrow> quarantine_entry option) \<Rightarrow> bool" where
  "entered key q q' \<longleftrightarrow> (\<forall>k. q' k = q k \<or> (k = key \<and> q' k \<noteq> None))"

lemma entered_refl [simp]: "entered key q q"
  by (simp add: entered_def)

lemma entered_trans: "entered key q q1 \<Longrightarrow> entered key q1 q2 \<Longrightarrow> entered key q q2"
  unfolding entered_def by metis

lemma entered_other: "entered key q q' \<Longrightarrow> k \<noteq> key \<Longrightarrow> q' k = q k"
  by (auto simp: entered_def)

lemma entered_stays: "entered key q q' \<Longrightarrow> q k \<noteq> None \<Longrightarrow> q' k \<noteq> None"
  unfolding entered_def by metis

definition calm :: "string \<Rightarrow> ('k, 'a) em \<Rightarrow> bool" where
  "calm key m \<longleftrightarrow> (\<forall>s. \<exists>r s'. m s = Some (r, s') \<and> kernel s' = kernel s \<and> entered key (qstate s) (qstate s'))"

lemma calm_return [simp]: "calm key (em_return x)"
  by (simp add: calm_def em_return_def)

lemma calmE:
  assumes "calm key m"
  obtains r s' where "m s = Some (r, s')" and "kernel s' = kernel s"
    and "entered key (qstate s) (qstate s')"
  using assms unfolding calm_def by blast

lemma calm_seq:
  assumes "calm key m" and "calm key n"
  shows "calm key (em_seq m n)"
  unfolding calm_def
proof
  fix s
  obtain r s1 where m: "m s = Some (r, s1)" "kernel s1 = kernel s" "entered key (qstate s) (qstate s1)"
    by (rule calmE [OF assms(1), of s]) blast
  obtain q s2 where "n s1 = Some (q, s2)" "kernel s2 = kernel s1" "entered key (qstate s1) (qstate s2)"
    by (rule calmE [OF assms(2), of s1]) blast
  with m show "\<exists>r s'. em_seq m n s = Some (r, s') \<and> kernel s' = kernel s
      \<and> entered key (qstate s) (qstate s')"
    by (cases r) (auto simp: em_seq_def em_bind_def intro: entered_trans)
qed

lemma calm_ignore: "calm key m \<Longrightarrow> calm key (em_ignore m)"
  unfolding calm_def em_ignore_def by (metis (no_types, lifting) case_prod_conv option.simps(5))

lemma calm_apply: "(\<And>t. calm key (f t)) \<Longrightarrow> calm key (\<lambda>s. f s s)"
  by (simp add: calm_def)

lemma calm_if: "calm key m \<Longrightarrow> calm key n \<Longrightarrow> calm key (\<lambda>s. if P s then m s else n s)"
  by (simp add: calm_def)

lemma calm_option:
  assumes "calm key m" and "\<And>x. calm key (n x)"
  shows "calm key (\<lambda>s. case f s of None \<Rightarrow> m s | Some x \<Rightarrow> n x s)"
  unfolding calm_def
proof
  fix s show "\<exists>r s'. (case f s of None \<Rightarrow> m s | Some x \<Rightarrow> n x s) = Some (r, s') \<and> kernel s' = kernel s
      \<and> entered key (qstate s) (qstate s')"
    using assms unfolding calm_def by (cases "f s") simp_all
qed

lemma calm_send [simp]: "calm key (send_crafted f)"
  by (cases f) (simp_all add: calm_def send_crafted_def send_frame_def Let_def)

lemma calm_update_state [simp]:
  "calm (to_lowercase (cmd_mac_address cmd)) (update_state cmd vip vmac gw a)"
  by (simp add: calm_def update_state_def entered_def)

lemma calm_sp_apply [simp]: "calm key (sp_apply a my_mac vip vmac gw)"
proof -
  have "calm key (\<lambda>s. send_crafted (f s) s)" for f :: "'a enforcement \<Rightarrow> _"
    by (rule calm_apply) simp
  then have "calm key (em_seq (send_crafted g) (\<lambda>s. send_crafted (f s) s))" for g and f :: "'a enforcement \<Rightarrow> _"
    by (intro calm_seq) simp_all
  then show ?thesis
    unfolding sp_apply_def sp_block_def [abs_def] sp_quarantine_def [abs_def] Let_def
    by (cases a) (simp_all add: calm_def)
qed

lemma send_crafted_quiet:
  "\<exists>r s'. send_crafted f s = Some (r, s') \<and> kernel s' = kernel s \<and> qstate s' = qstate s"
  by (cases f) (simp_all add: send_crafted_def send_frame_def Let_def)

lemma seq_quiet:
  assumes "\<And>s. \<exists>r s'. m s = Some (r, s') \<and> kernel s' = kernel s \<and> qstate s' = qstate s"
    and "\<And>s. \<exists>r s'. n s = Some (r, s') \<and> kernel s' = kernel s \<and> qstate s' = qstate s"
  shows "\<exists>r s'. em_seq m n s = Some (r, s') \<and> kernel s' = kernel s \<and> qstate s' = qstate s"
proof -
  obtain r s1 where m: "m s = Some (r, s1)" "kernel s1 = kernel s" "qstate s1 = qstate s"
    using assms(1) by blast
  obtain q s2 where "n s1 = Some (q, s2)" "kernel s2 = kernel s1" "qstate s2 = qstate s1"
    using assms(2) by blast
  with m show ?thesis by (cases r) (simp_all add: em_seq_def em_bind_def)
qed

lemma sp_allow_quiet:
  "\<exists>r s'. sp_allow vip vmac gw gm s = Some (r, s') \<and> kernel s' = kernel s \<and> qstate s' = qstate s"
  unfolding sp_allow_def by (intro seq_quiet send_crafted_quiet)

section \<open>The frames\<close>

definition says :: "bytes \<Rightarrow> mac6 \<Rightarrow> ipv4 \<Rightarrow> ipv4 \<Rightarrow> bool" where
  "says frame mac ip to_ip \<longleftrightarrow>
     parse_arp frame = Ok \<lparr>sender_mac = mac, sender_ip = ip, target_ip = to_ip, is_reply = True\<rparr>"

lemma send_crafted_ok:
  "send_fails s = [] \<Longrightarrow> send_crafted (Ok f) s = Some (Ok (), s\<lparr>sent := sent s @ [f]\<rparr>)"
  by (simp add: send_crafted_def send_frame_def Let_def)

text \<open>A device under enforcement and its gateway each hear that the other is at the agent.\<close>

lemma sp_apply_frames:
  assumes "send_fails s = []"
  shows "\<exists>f g. sp_apply a my_mac vip vmac gw s = Some (Ok (), s\<lparr>sent := sent s @ [f, g]\<rparr>) \<and>
    take 6 f = mac_bytes vmac \<and> says f my_mac gw vip \<and> says g my_mac vip gw"
proof -
  let ?gm = "runwrap_or broadcast_mac (arp_mac_lookup (proc_arp s) gw)"
  obtain f where f: "craft_arp_reply vmac my_mac gw vmac vip = Ok f" "take 6 f = mac_bytes vmac"
    by (cases vmac) (simp add: craft_arp_reply_def)
  obtain g where g: "craft_arp_reply ?gm my_mac vip ?gm gw = Ok g"
    by (simp add: craft_arp_reply_def)
  have "says f my_mac gw vip" "says g my_mac vip gw"
    using parse_craft_arp_reply [of vmac my_mac gw vmac vip] parse_craft_arp_reply [of ?gm my_mac vip ?gm gw] f g
    by (simp_all add: says_def)
  moreover have "sp_apply a my_mac vip vmac gw s = Some (Ok (), s\<lparr>sent := sent s @ [f, g]\<rparr>)"
    using assms f g
    by (cases a) (simp_all add: sp_apply_def sp_block_def sp_quarantine_def em_seq_def em_bind_def
      send_crafted_ok Let_def)
  ultimately show ?thesis using f(2) by blast
qed

lemma sp_allow_frames:
  assumes "send_fails s = []"
  shows "\<exists>f g h. sp_allow vip vmac gw gm s = Some (Ok (), s\<lparr>sent := sent s @ [f, g, h]\<rparr>) \<and>
    says f gm gw vip \<and> says g vmac vip gw \<and> says h vmac vip vip"
proof -
  obtain f g h where c: "craft_arp_reply vmac gm gw vmac vip = Ok f"
    "craft_arp_reply gm vmac vip gm gw = Ok g" "craft_gratuitous_arp vmac vip vip = Ok h"
    by (simp add: craft_arp_reply_def craft_gratuitous_arp_def)
  have "says f gm gw vip" "says g vmac vip gw" "says h vmac vip vip"
    using parse_craft_arp_reply [of vmac gm gw vmac vip] parse_craft_arp_reply [of gm vmac vip gm gw]
      parse_craft_gratuitous_arp [of vmac vip vip] c
    by (simp_all add: says_def)
  moreover have "sp_allow vip vmac gw gm s = Some (Ok (), s\<lparr>sent := sent s @ [f, g, h]\<rparr>)"
    using assms c by (simp add: sp_allow_def em_seq_def em_bind_def send_crafted_ok)
  ultimately show ?thesis by blast
qed

section \<open>A command and the firewall\<close>

fun fw_of :: "nac_action \<Rightarrow> fw_action" where
  "fw_of NBlock = Block"
| "fw_of NQuarantine = Isolate"

lemma fw_of_not_Permit [simp]: "fw_of a \<noteq> Permit"
  by (cases a) simp_all

lemma fw_apply_act: "fw_apply exec be a = fw_act exec be (fw_of a)"
  by (cases a) (simp_all add: fw_apply_def fw_act_def fun_eq_iff)

definition stale_ip :: "enforcement_command \<Rightarrow> (string \<Rightarrow> quarantine_entry option) \<Rightarrow> string option" where
  "stale_ip cmd q =
     (case (cmd_ip_opt cmd, q (to_lowercase (cmd_mac_address cmd)), parse_ipv4 (cmd_ip_address cmd)) of
        (Some _, Some e, Some new_ip) \<Rightarrow>
          if victim_ip e \<noteq> new_ip then Some (ipv4_to_string (victim_ip e)) else None
      | _ \<Rightarrow> None)"

definition drop_stale ::
  "enforcement_command \<Rightarrow> (string \<Rightarrow> quarantine_entry option) \<Rightarrow> (string \<Rightarrow> string set) \<Rightarrow> string \<Rightarrow> string set"
where
  "drop_stale cmd q S =
     (case stale_ip cmd q of None \<Rightarrow> S | Some ip \<Rightarrow> drop_both SET_BLOCK_IP SET_QUARANTINE_IP ip S)"

text \<open>A round of the reinforcement loop.\<close>

fun reinforced :: "(string \<times> ipv4 \<times> nac_action) list \<Rightarrow> (string \<Rightarrow> string set) \<Rightarrow> string \<Rightarrow> string set" where
  "reinforced [] S = S"
| "reinforced ((mac, vip, a) # es) S =
     reinforced es (nft_effect (fw_of a) mac (Some (ipv4_to_string vip)) S)"

context nft_kernel
begin

abbreviation fwsets :: "'k enforcement \<Rightarrow> string \<Rightarrow> string set" where
  "fwsets s \<equiv> sets (kernel s)"

lemma em_fw_act:
  obtains k' where "em_fw (fw_act exec Nft a mac ip) s = Some (Ok (), s\<lparr>kernel := k'\<rparr>)"
    and "sets k' = nft_effect a mac ip (fwsets s)"
  using act_effect [of a mac ip "kernel s"] that by (auto simp: em_fw_def)

lemma drop_stale_ip_effect:
  obtains k' where "drop_stale_ip exec Nft cmd s = Some (Ok (), s\<lparr>kernel := k'\<rparr>)"
    and "sets k' = drop_stale cmd (qstate s) (fwsets s)"
proof (cases "stale_ip cmd (qstate s)")
  case None
  then have "drop_stale_ip exec Nft cmd s = Some (Ok (), s\<lparr>kernel := kernel s\<rparr>)"
    by (auto simp: drop_stale_ip_def stale_ip_def cmd_ip_opt_def em_return_def split: option.splits if_splits)
  then show thesis by (rule that) (simp add: drop_stale_def None)
next
  case (Some ip)
  then have "drop_stale_ip exec Nft cmd s = em_fw (fw_remove_ip exec Nft ip) s"
    by (auto simp: drop_stale_ip_def stale_ip_def cmd_ip_opt_def split: option.splits if_splits)
  moreover obtain k' where "fw_remove_ip exec Nft ip (kernel s) = Some (Ok (), k')"
    "sets k' = drop_both SET_BLOCK_IP SET_QUARANTINE_IP ip (fwsets s)"
    using doesE [OF nft_remove_ip_does [OF works]] by metis
  ultimately show thesis using that Some by (simp add: em_fw_def drop_stale_def)
qed

lemma consume_command:
  assumes "\<not> is_allow_action (cmd_action raw)"
  defines "cmd \<equiv> strip_command raw"
  shows "\<exists>s'. consume exec Nft (Some raw) s = Some (Ok (), s') \<and>
    fwsets s' = nft_effect (fw_of (map_action (cmd_action cmd))) (cmd_mac_address cmd) (cmd_ip_opt cmd)
      (drop_stale cmd (qstate s) (fwsets s)) \<and>
    entered (to_lowercase (cmd_mac_address cmd)) (qstate s) (qstate s')"
proof -
  obtain k1 where k1: "drop_stale_ip exec Nft cmd s = Some (Ok (), s\<lparr>kernel := k1\<rparr>)"
    "sets k1 = drop_stale cmd (qstate s) (fwsets s)"
    by (rule drop_stale_ip_effect)
  obtain k2 where k2: "em_fw (fw_act exec Nft (fw_of (map_action (cmd_action cmd))) (cmd_mac_address cmd)
      (cmd_ip_opt cmd)) (s\<lparr>kernel := k1\<rparr>) = Some (Ok (), s\<lparr>kernel := k2\<rparr>)"
    "sets k2 = nft_effect (fw_of (map_action (cmd_action cmd))) (cmd_mac_address cmd) (cmd_ip_opt cmd) (sets k1)"
    by (rule em_fw_act [of _ _ _ "s\<lparr>kernel := k1\<rparr>"]) simp
  define rest where "rest = (\<lambda>s :: 'k enforcement.
         if cmd_ip_address cmd = [] \<or> cmd_ip_address cmd = ''0.0.0.0'' then em_return () s
         else case parse_ipv4 (cmd_ip_address cmd) of
           None \<Rightarrow> em_return () s
         | Some vip \<Rightarrow>
             (case parse_mac (cmd_mac_address cmd) of
                None \<Rightarrow> em_return () s
              | Some vmac \<Rightarrow>
                  (case cmd_gateway cmd (proc_route s) of
                     None \<Rightarrow> em_return () s
                   | Some gw \<Rightarrow>
                       (case spoofer s of
                          None \<Rightarrow> update_state cmd vip vmac gw (map_action (cmd_action cmd)) s
                        | Some my_mac \<Rightarrow>
                            em_seq (sp_apply (map_action (cmd_action cmd)) my_mac vip vmac gw)
                              (update_state cmd vip vmac gw (map_action (cmd_action cmd))) s))))"
  have "calm (to_lowercase (cmd_mac_address cmd)) rest"
    unfolding rest_def
    by (intro calm_if calm_option calm_return calm_update_state calm_seq calm_sp_apply)
  then obtain r s' where rest: "rest (s\<lparr>kernel := k2\<rparr>) = Some (r, s')" "kernel s' = k2"
    "entered (to_lowercase (cmd_mac_address cmd)) (qstate s) (qstate s')"
    by (rule calmE [of _ _ "s\<lparr>kernel := k2\<rparr>"]) simp
  have "execute_command exec Nft cmd s = Some (r, s')"
    unfolding execute_command_def Let_def rest_def [symmetric] fw_apply_act
    using k1 k2 rest by (simp add: em_seq_def em_bind_def)
  then have "consume exec Nft (Some raw) s = Some (Ok (), s')"
    using assms by (simp add: consume_def em_ignore_def Let_def strip_command_def)
  then show ?thesis using rest(2,3) k1(2) k2(2) by simp
qed

lemma em_fw_allow:
  obtains k' where "em_fw (fw_allow exec Nft mac ip) s = Some (Ok (), s\<lparr>kernel := k'\<rparr>)"
    and "sets k' = nft_effect Permit mac ip (fwsets s)"
  by (rule em_fw_act [of Permit mac ip s, unfolded fw_act_def fw_action.case]) (rule that)

lemma consume_allow:
  assumes "is_allow_action (cmd_action raw)"
  defines "cmd \<equiv> strip_command raw"
  shows "\<exists>s'. consume exec Nft (Some raw) s = Some (Ok (), s') \<and>
    fwsets s' = nft_effect Permit (cmd_mac_address cmd) (cmd_ip_opt cmd) (fwsets s) \<and>
    qstate s' = (qstate s)(to_lowercase (cmd_mac_address cmd) := None)"
proof -
  obtain k1 where k1: "em_fw (fw_allow exec Nft (cmd_mac_address cmd) (cmd_ip_opt cmd)) s
      = Some (Ok (), s\<lparr>kernel := k1\<rparr>)"
    "sets k1 = nft_effect Permit (cmd_mac_address cmd) (cmd_ip_opt cmd) (fwsets s)"
    by (rule em_fw_allow)
  let ?key = "to_lowercase (cmd_mac_address cmd)"
  let ?s1 = "s\<lparr>kernel := k1\<rparr>"
  define entry where "entry = qstate ?s1 ?key"
  define t where "t = ?s1\<lparr>qstate := (qstate ?s1)(?key := None)\<rparr>"
  define rest where "rest = (\<lambda>s1 :: 'k enforcement.
    case (opt_or (map_option victim_mac entry) (parse_mac (cmd_mac_address cmd)),
          opt_or (map_option victim_ip entry) (parse_ipv4 (cmd_ip_address cmd))) of
      (Some vm, Some vi) \<Rightarrow>
        (let gw = runwrap_or (Ipv4 0 0 0 0)
               (opt_or (map_option gateway_ip entry) (detect_default_gateway (proc_route s1)));
             gm = runwrap_or broadcast_mac
               (opt_or (Option.bind (cmd_gateway_mac cmd) parse_mac) (get_arp_mac (proc_arp s1) gw))
         in case spoofer s1 of None \<Rightarrow> em_return () s1
            | Some my_mac \<Rightarrow> sp_allow vi vm gw gm s1)
    | _ \<Rightarrow> em_return () s1)"
  have "\<exists>r s'. rest t = Some (r, s') \<and> kernel s' = k1 \<and> qstate s' = qstate t"
    using sp_allow_quiet [of _ _ _ _ t] unfolding rest_def Let_def
    by (simp add: t_def em_return_def split: option.split)
  then obtain r s' where rest: "rest t = Some (r, s')" "kernel s' = k1" "qstate s' = qstate t" by blast
  have "execute_allow exec Nft cmd s = Some (r, s')"
    unfolding execute_allow_def em_seq_def em_bind_def k1(1)
    using rest(1) unfolding rest_def t_def entry_def Let_def by (simp only: option.case prod.case rust.case)
  then have "consume exec Nft (Some raw) s = Some (Ok (), s')"
    using assms by (simp add: consume_def em_ignore_def Let_def strip_command_def)
  with rest k1(2) show ?thesis by (simp add: t_def)
qed

lemma reinforce_effect:
  "\<exists>k'. reinforce exec Nft es s = Some (Ok (), s\<lparr>kernel := k'\<rparr>) \<and> sets k' = reinforced es (fwsets s)"
proof (induction es arbitrary: s)
  case Nil
  show ?case by (rule exI [of _ "kernel s"]) (simp add: em_return_def)
next
  case (Cons e es)
  obtain mac vip a where e: "e = (mac, vip, a)" by (cases e)
  obtain k1 where k1: "em_fw (fw_act exec Nft (fw_of a) mac (Some (ipv4_to_string vip))) s
      = Some (Ok (), s\<lparr>kernel := k1\<rparr>)"
    "sets k1 = nft_effect (fw_of a) mac (Some (ipv4_to_string vip)) (fwsets s)"
    by (rule em_fw_act)
  obtain k2 where "reinforce exec Nft es (s\<lparr>kernel := k1\<rparr>) = Some (Ok (), s\<lparr>kernel := k2\<rparr>)"
    "sets k2 = reinforced es (sets k1)"
    using Cons.IH [of "s\<lparr>kernel := k1\<rparr>"] by (auto simp:)
  with k1 e show ?case
    by (intro exI [of _ k2]) (simp add: fw_apply_act em_seq_def em_bind_def em_ignore_def)
qed

end

lemma nft_effect_mono:
  "a \<noteq> Permit \<Longrightarrow> nft_dropped S p \<Longrightarrow> nft_dropped (nft_effect a mac ip S) p"
  by (cases "nft_touches mac ip p") (simp_all add: nft_effect_hits nft_effect_others)

lemma reinforced_mono: "nft_dropped S p \<Longrightarrow> nft_dropped (reinforced es S) p"
  by (induction es S rule: reinforced.induct) (simp_all add: nft_effect_mono)

lemma reinforced_hits:
  "(mac, vip, a) \<in> set es \<Longrightarrow> nft_touches mac (Some (ipv4_to_string vip)) p \<Longrightarrow>
   nft_dropped (reinforced es S) p"
  by (induction es S rule: reinforced.induct) (auto simp: nft_effect_hits reinforced_mono)

lemma nft_mac_lower [simp]: "nft_mac (to_lowercase s) = nft_mac s"
proof (cases "length (hex_digits s) = 12")
  case True
  then show ?thesis by (simp add: nft_mac_canon hex_digits_lower o_def)
next
  case False
  then show ?thesis by (simp add: nft_mac_def Let_def hex_digits_lower o_def)
qed

text \<open>
  The table of devices and the firewall part in three ways: a reinforcement round that took its copy
  before an allow command puts the device back; an allow command with another address leaves the old
  address in the sets; and a second command under the same MAC text takes the first address out.
\<close>

definition entry_ip :: "quarantine_entry \<Rightarrow> string" where
  "entry_ip e = ipv4_to_string (victim_ip e)"

lemma real_ip_ipv4 [simp]:
  "ip \<noteq> Ipv4 0 0 0 0 \<Longrightarrow> real_ip (Some (ipv4_to_string ip)) = Some (ipv4_to_string ip)"
proof -
  assume "ip \<noteq> Ipv4 0 0 0 0"
  moreover have "ipv4_to_string (Ipv4 0 0 0 0) = ''0.0.0.0''" by (simp add: dec.simps digit_char_0_iff)
  ultimately have "ipv4_to_string ip \<noteq> ''0.0.0.0''" by (metis ipv4_to_string_inject)
  then show ?thesis by (simp add: real_ip_def)
qed

lemma stale_round_reblocks:
  assumes "nft_works exec sets" and "is_allow_action (cmd_action cmd)"
    and "qstate s (to_lowercase (cmd_mac_address cmd)) = Some e"
    and "pk_ether p = nft_mac (cmd_mac_address cmd)"
  shows "\<exists>s1 s2. consume exec Nft (Some cmd) s = Some (Ok (), s1) \<and>
    qstate s1 (to_lowercase (cmd_mac_address cmd)) = None \<and>
    reinforce exec Nft (reinforce_snapshot [to_lowercase (cmd_mac_address cmd)] s) s1 = Some (Ok (), s2) \<and>
    qstate s2 = qstate s1 \<and> nft_dropped (sets (kernel s2)) p"
proof -
  note k = nft_kernel.intro [OF assms(1)]
  let ?es = "reinforce_snapshot [to_lowercase (cmd_mac_address cmd)] s"
  obtain s1 where s1: "consume exec Nft (Some cmd) s = Some (Ok (), s1)"
    "qstate s1 (to_lowercase (cmd_mac_address cmd)) = None"
    using nft_kernel.consume_allow [OF k assms(2), of s] by (auto simp: strip_command_def)
  obtain k2 where k2: "reinforce exec Nft ?es s1 = Some (Ok (), s1\<lparr>kernel := k2\<rparr>)"
    "sets k2 = reinforced ?es (sets (kernel s1))"
    using nft_kernel.reinforce_effect [OF k] by blast
  have "?es = [(to_lowercase (cmd_mac_address cmd), victim_ip e, qe_action e)]"
    using assms(3) by (simp add: reinforce_snapshot_def List.map_filter_def)
  then have "nft_dropped (sets k2) p"
    using k2(2) assms(4) by (simp add: nft_effect_hits nft_touches_def del: list.map)
  with s1 k2 show ?thesis by auto
qed

text \<open>What a command of each kind leaves behind.\<close>

lemma command_drops:
  assumes "nft_works exec sets" and "\<not> is_allow_action (cmd_action cmd)"
    and "nft_touches (cmd_mac_address cmd) (cmd_ip_opt (strip_command cmd)) p"
  shows "\<exists>s'. consume exec Nft (Some cmd) s = Some (Ok (), s') \<and> nft_dropped (sets (kernel s')) p"
  using nft_kernel.consume_command [OF nft_kernel.intro [OF assms(1)] assms(2), of s] assms(3)
  by (auto simp: nft_effect_hits strip_command_def)

lemma allow_passes:
  assumes "nft_works exec sets" and "is_allow_action (cmd_action cmd)"
    and "nft_sends (cmd_mac_address cmd) (cmd_ip_opt (strip_command cmd)) p"
  shows "\<exists>s'. consume exec Nft (Some cmd) s = Some (Ok (), s') \<and> \<not> nft_dropped (sets (kernel s')) p"
  using nft_kernel.consume_allow [OF nft_kernel.intro [OF assms(1)] assms(2), of s] assms(3)
  by (auto simp: nft_effect_permits strip_command_def)

lemma nft_permit_keeps_ip:
  assumes "real_ip ip = None \<or> real_ip ip = Some a" and "a \<noteq> b" and "b \<in> S SET_BLOCK_IP"
  shows "b \<in> nft_effect Permit mac ip S SET_BLOCK_IP"
  using assms by (auto simp: nft_effect_def with_ip_def drop_both_def split: option.split)

lemma allow_keeps_other_ip:
  assumes "nft_works exec sets" and "is_allow_action (cmd_action cmd)"
    and "pk_ip p \<in> sets (kernel s) SET_BLOCK_IP" and "cmd_ip_opt (strip_command cmd) \<noteq> Some (pk_ip p)"
  shows "\<exists>s'. consume exec Nft (Some cmd) s = Some (Ok (), s') \<and>
    qstate s' (to_lowercase (cmd_mac_address cmd)) = None \<and> nft_dropped (sets (kernel s')) p"
proof -
  from nft_kernel.consume_allow [OF nft_kernel.intro [OF assms(1)] assms(2), of s]
  obtain s' where s': "consume exec Nft (Some cmd) s = Some (Ok (), s')"
    "sets (kernel s') = nft_effect Permit (cmd_mac_address (strip_command cmd))
       (cmd_ip_opt (strip_command cmd)) (sets (kernel s))"
    "qstate s' = (qstate s)(to_lowercase (cmd_mac_address (strip_command cmd)) := None)" by blast
  have "pk_ip p \<in> sets (kernel s') SET_BLOCK_IP"
    unfolding s'(2)
  proof (cases "real_ip (cmd_ip_opt (strip_command cmd))")
    case None
    then show "pk_ip p \<in> nft_effect Permit (cmd_mac_address (strip_command cmd))
      (cmd_ip_opt (strip_command cmd)) (sets (kernel s)) SET_BLOCK_IP"
      using assms(3) nft_permit_keeps_ip [of _ "pk_ip p @ ''x''" "pk_ip p"] by simp
  next
    case (Some a)
    with assms(4) have "a \<noteq> pk_ip p"
      by (auto simp: real_ip_def split: option.splits if_splits)
    with Some show "pk_ip p \<in> nft_effect Permit (cmd_mac_address (strip_command cmd))
      (cmd_ip_opt (strip_command cmd)) (sets (kernel s)) SET_BLOCK_IP"
      using assms(3) nft_permit_keeps_ip by simp
  qed
  then have "nft_dropped (sets (kernel s')) p" by (simp add: nft_dropped_def forward_verdict)
  with s' show ?thesis by (auto simp: strip_command_def)
qed

text \<open>A second command with the same MAC text and another address frees the first address.\<close>

lemma nft_effect_drop_ip:
  assumes "a \<noteq> Permit" and "b \<notin> S SET_BLOCK_IP" and "b \<notin> S SET_QUARANTINE_IP" and "real_ip ip \<noteq> Some b"
  shows "b \<notin> nft_effect a mac ip S SET_BLOCK_IP" "b \<notin> nft_effect a mac ip S SET_QUARANTINE_IP"
  using assms by (cases a; auto simp: nft_effect_def with_ip_def move_in_def split: option.split)+

lemma second_address_frees_first:
  assumes "nft_works exec sets" and "\<not> is_allow_action (cmd_action cmd)"
    and "qstate s (to_lowercase (cmd_mac_address cmd)) = Some e"
    and "parse_ipv4 (cmd_ip_address (strip_command cmd)) = Some ip"
    and "cmd_ip_address (strip_command cmd) \<noteq> ''0.0.0.0''"
    and "ip \<noteq> victim_ip e" and "cmd_ip_address (strip_command cmd) \<noteq> entry_ip e"
  shows "\<exists>s'. consume exec Nft (Some cmd) s = Some (Ok (), s') \<and>
    entry_ip e \<notin> sets (kernel s') SET_BLOCK_IP \<and> entry_ip e \<notin> sets (kernel s') SET_QUARANTINE_IP"
proof -
  let ?cmd = "strip_command cmd"
  have ne: "cmd_ip_address ?cmd \<noteq> []" using assms(4) by (auto simp: parse_ipv4_def parse_octet_def split: if_splits)
  have "stale_ip ?cmd (qstate s) = Some (entry_ip e)"
    using assms(3-6) ne by (simp add: stale_ip_def cmd_ip_opt_def entry_ip_def strip_command_def)
  then have "entry_ip e \<notin> drop_stale ?cmd (qstate s) (sets (kernel s)) SET_BLOCK_IP"
    "entry_ip e \<notin> drop_stale ?cmd (qstate s) (sets (kernel s)) SET_QUARANTINE_IP"
    by (simp_all add: drop_stale_def drop_both_def)
  moreover have "real_ip (cmd_ip_opt ?cmd) \<noteq> Some (entry_ip e)"
    using assms(7) by (auto simp: real_ip_def cmd_ip_opt_def split: if_splits)
  ultimately show ?thesis
    using nft_kernel.consume_command [OF nft_kernel.intro [OF assms(1)] assms(2), of s]
    by (metis fw_of_not_Permit nft_effect_drop_ip)
qed

end
