(* ===== verification/Platform.thy ===== *)
theory Platform
  imports CommandBus EnforcementLaws
begin

text \<open>
  The services together. A step of the platform is one handler of one service, run on the shared
  database and message bus under any schedule of faults, or the environment moving on: time passes and
  a new schedule applies. The reachable worlds are those that any interleaving of whole handlers leads
  to from a freshly migrated database. Two properties hold of all of them: the invariant of the
  database, and that every enforcement command on the bus carries an action the enforcement agent
  knows. The last section joins a handler with the agent that consumes its command.
\<close>

section \<open>Steps\<close>

record libraries =
  lib_pg :: pg
  lib_md5 :: "bytes \<Rightarrow> bytes"
  lib_env :: "string \<Rightarrow> string option"
  lib_sign :: "nac_claims \<Rightarrow> string option"
  lib_verify :: "string \<Rightarrow> nac_claims option"
  lib_hash :: "string \<Rightarrow> string option"

inductive platform_step :: "libraries \<Rightarrow> world \<Rightarrow> world \<Rightarrow> bool" for L where
  environment: "platform_step L w (w\<lparr>schedule := s, clock := t\<rparr>)"
| reported: "platform_step L w (snd (nats_publish (OtherEvent subject payload) w))"
| detected: "platform_step L w (snd (process_event (lib_pg L) event w))"
| authenticated: "platform_step L w (snd (process_auth_response (lib_pg L) resp w))"
| posture: "platform_step L w (snd (process_posture (lib_pg L) rep w))"
| evaluation: "dflt \<in> set default_actions \<Longrightarrow> platform_step L w (snd (evaluate_policies (lib_pg L) dflt w))"
| restart: "platform_step L w (snd (reconcile w))"
| arp_round: "platform_step L w (snd (arp_sync (lib_pg L) now arp route order pend w))"
| registration: "platform_step L w (snd (register (lib_pg L) (lib_sign L) now remote req w))"
| report: "platform_step L w (snd (report_status (lib_verify L) now header rpt w))"
| agent_policy: "platform_step L w (snd (get_agent_policy dev w))"
| access: "platform_step L w (snd (handle_auth_packet (lib_pg L) (lib_md5 L) (lib_env L) buf secret w))"
| api_list: "platform_step L w (snd (list_endpoints limit offset w))"
| api_get: "platform_step L w (snd (get_endpoint i w))"
| api_get_mac: "platform_step L w (snd (get_endpoint_by_mac (lib_pg L) mac w))"
| api_allow: "platform_step L w (snd (allow_endpoint i w))"
| api_block: "platform_step L w (snd (block_endpoint i w))"
| api_quarantine: "platform_step L w (snd (quarantine_endpoint i w))"
| api_assign: "platform_step L w (snd (assign_policy i pid w))"
| api_exempt: "platform_step L w (snd (set_exempt i b w))"
| api_policies: "platform_step L w (snd (list_policies w))"
| api_policy: "platform_step L w (snd (get_policy i w))"
| api_create: "platform_step L w (snd (api_create_policy body w))"
| api_update: "platform_step L w (snd (api_update_policy i upd w))"
| api_delete: "platform_step L w (snd (delete_policy i w))"
| api_users: "platform_step L w (snd (list_users w))"
| api_new_user: "platform_step L w (snd (create_user (lib_hash L) name password role w))"
| api_drop_user: "platform_step L w (snd (delete_user i w))"
| api_password: "platform_step L w (snd (change_password (lib_hash L) i password w))"
| api_user_enabled: "platform_step L w (snd (set_enabled i action w))"
| api_rules: "platform_step L w (snd (list_ip_rules w))"
| api_new_rule: "platform_step L w (snd (create_ip_rule cidr action note w))"
| api_drop_rule: "platform_step L w (snd (delete_ip_rule i w))"
| api_rule_enabled: "platform_step L w (snd (set_ip_rule_enabled i action w))"
| api_audit: "platform_step L w (snd (list_audit limit offset eid w))"
| api_stats: "platform_step L w (snd (get_stats day w))"
| api_hosts: "platform_step L w (snd (list_hosts checked arp neigh subnet w))"
| portal_probe: "platform_step L w (snd (probe (lib_pg L) portal_url answer ip w))"
| portal_landing: "platform_step L w (snd (landing_page (lib_pg L) pg ip url w))"
| portal_fallback: "platform_step L w (snd (catch_all (lib_pg L) portal_url ip pq host w))"
| portal_login: "platform_step L w (snd (handle_login (lib_pg L) st now ip form w))"

text \<open>A migrated database: only the seeded policies.\<close>

definition migrated :: "world \<Rightarrow> bool" where
  "migrated w \<longleftrightarrow> endpoints w = [] \<and> sessions w = [] \<and> nac_users w = [] \<and> ip_rules w = []
     \<and> published w = [] \<and> policies_ok w
     \<and> map (\<lambda>p. (po_name p, po_priority p, po_action p)) (policies w) =
         [(''default-allow'', 9999, ''allow''), (''quarantine-unknown'', 10, ''quarantine''),
          (''allow-corp-devices'', 50, ''allow''), (''deny-blacklist'', 1, ''deny'')]"

inductive reachable :: "libraries \<Rightarrow> world \<Rightarrow> bool" for L where
  start: "migrated w \<Longrightarrow> reachable L w"
| next_step: "reachable L w \<Longrightarrow> platform_step L w w' \<Longrightarrow> reachable L w'"

section \<open>Handlers keep the invariant\<close>

lemma find_status_keeps [store_keeps]: "keeps store_inv (assigned_status db rules pid)"
  unfolding assigned_status_def by (auto intro!: inv_rules store_keeps split: option.split)

lemma evaluate_loop_keeps: "keeps store_inv (evaluate_loop db rules dflt eps c s)"
proof (induction eps arbitrary: c s dflt)
  case (Cons ep eps)
  show ?case
    unfolding evaluate_loop.simps
    by (auto intro!: inv_rules store_keeps Cons.IH split: option.split)
qed (auto intro: inv_rules)

lemma evaluate_policies_keeps: "keeps store_inv (evaluate_policies db dflt)"
  unfolding evaluate_policies_def
  by (auto intro!: inv_rules store_keeps evaluate_loop_keeps split: prod.split)

lemma get_agent_policy_keeps: "keeps store_inv (get_agent_policy dev)"
  unfolding get_agent_policy_def Let_def
  by (auto intro!: inv_rules store_keeps split: option.split prod.split)

lemma insert_user_inv: "keeps store_inv (insert_user n h r)"
  unfolding insert_user_def
  by (rule inv.keeps_stmt) (auto simp: Let_def inv_users_fresh [simplified])

lemma update_user_inv: "keeps store_inv (update_user i f)"
  unfolding update_user_def rows_affected_def not_found_def respond_def
  by (auto intro!: inv_rules inv.keeps_stmt simp: inv_users)

lemma insert_ip_rule_inv: "keeps store_inv (insert_ip_rule c a n)"
  unfolding insert_ip_rule_def
  by (rule inv.keeps_stmt) (auto simp: Let_def inv_rules_fresh [simplified])

lemma publish_ip_enforcement_inv: "keeps store_inv (publish_ip_enforcement ip a)"
  unfolding publish_ip_enforcement_def by (auto intro!: inv_rules)

lemma user_handlers_inv:
  "keeps store_inv list_users" "keeps store_inv (create_user hp n p r)" "keeps store_inv (delete_user i)"
  "keeps store_inv (change_password hp i p)" "keeps store_inv (set_enabled i a)"
  unfolding list_users_def create_user_def delete_user_def change_password_def set_enabled_def
    respond_def not_found_def rows_affected_def
  by (auto intro!: inv_rules insert_user_inv update_user_inv inv.keeps_stmt
      simp: inv_users split: option.split sum.split)

lemma ip_rule_handlers_inv:
  "keeps store_inv list_ip_rules" "keeps store_inv (create_ip_rule c a n)"
  "keeps store_inv (delete_ip_rule i)" "keeps store_inv (set_ip_rule_enabled i e)"
  unfolding list_ip_rules_def create_ip_rule_def delete_ip_rule_def set_ip_rule_enabled_def
    respond_def not_found_def Let_def
  by (auto intro!: inv_rules insert_ip_rule_inv publish_ip_enforcement_inv inv.keeps_stmt
      simp: inv_rules_table split: option.split sum.split)

lemma read_handlers_inv:
  "keeps store_inv (list_audit l f e)" "keeps store_inv (get_stats d)"
  unfolding list_audit_def get_stats_def Let_def respond_def
  by (auto intro!: inv_rules store_keeps inv.keeps_read split: prod.split)

lemma list_hosts_inv: "store_inv w \<Longrightarrow> store_inv (snd (list_hosts checked arp neigh subnet w))"
  by (auto simp: list_hosts_def load_db_endpoints_def stmt_def io_bind_def not_found_def respond_def
      inv.I_tick Let_def split: rust.split option.split prod.split list.split delivery.split)

lemma keeps_snd: "keeps I m \<Longrightarrow> I w \<Longrightarrow> I (snd (m w))"
  by (cases "m w"; cases "fst (m w)") (auto simp: keeps_def valid_def)

lemma platform_step_inv: "platform_step L w w' \<Longrightarrow> store_inv w \<Longrightarrow> store_inv w'"
proof (induction rule: platform_step.induct)
  case (environment w s t)
  then show ?case
    by (simp add: store_inv_def endpoints_ok_def sessions_ok_def policies_ok_def has_endpoint_def)
qed (simp_all add: keeps_snd inv.keeps_publish process_event_keeps process_auth_response_keeps process_posture_keeps
    evaluate_policies_keeps reconcile_keeps arp_sync_inv register_keeps report_status_keeps
    get_agent_policy_keeps handle_auth_packet_keeps api_endpoint_keeps api_policy_keeps
    allow_endpoint_def block_endpoint_def quarantine_endpoint_def user_handlers_inv ip_rule_handlers_inv
    read_handlers_inv list_hosts_inv portal_pages_keep handle_login_keeps)

lemma migrated_inv: "migrated w \<Longrightarrow> store_inv w"
  by (simp add: migrated_def store_inv_def endpoints_ok_def sessions_ok_def agents_ok_def)

lemma reachable_inv: "reachable L w \<Longrightarrow> store_inv w"
  by (induction rule: reachable.induct) (auto intro: migrated_inv platform_step_inv)

section \<open>Every command is in order\<close>

lemma platform_step_orderly:
  "platform_step L w w' \<Longrightarrow> orderly db p w \<Longrightarrow> db = lib_pg L \<Longrightarrow> orderly db p w'"
proof (induction rule: platform_step.induct)
  case (environment w s t)
  then show ?case by (simp add: orderly_def macs_def only_speaks_def)
qed (simp_all add: keeps_snd orderly_publish orderly_handlers orderly_hosts)

lemma reachable_orderly: "reachable L w \<Longrightarrow> orderly (lib_pg L) [] w"
proof (induction rule: reachable.induct)
  case (start w)
  then show ?case by (simp add: migrated_def orderly_def macs_def only_speaks_def)
qed (rule platform_step_orderly [OF _ _ refl])

lemma reachable_command:
  assumes "reachable L w" and "Enforcement c \<in> set (published w)"
  shows "cmd_action c \<in> set known_actions \<and> printed (lib_pg L) (cmd_mac_address c)"
  using reachable_orderly [OF assms(1)] assms(2) by (auto simp: orderly_def only_speaks_def)

section \<open>From the database to the packets\<close>

text \<open>
  The command of a handler, consumed by the enforcement agent, decides the forwarding of the device's
  packets the way its stored status says.
\<close>

lemma told_enforced:
  assumes "nft_works exec sets" and "told p w'" and "published w' = p @ [Enforcement c]"
    and "nft_sends (cmd_mac_address c) (cmd_ip_opt (strip_command c)) pkt"
  shows "\<exists>i s e'. row_at i (cmd_mac_address c) s (endpoints w') \<and> consume exec Nft (Some c) e = Some (Ok (), e')
    \<and> nft_dropped (sets (kernel e')) pkt = (s \<noteq> ''allowed'')"
proof -
  obtain i s where row: "row_at i (cmd_mac_address c) s (endpoints w')" "status_action s = Some (cmd_action c)"
    using assms(2,3) by (auto simp: told_def)
  have touch: "nft_touches (cmd_mac_address c) (cmd_ip_opt (strip_command c)) pkt"
    using assms(4) by (simp add: nft_sends_def nft_touches_def)
  show ?thesis
  proof (cases "s = ''allowed''")
    case True
    then have "is_allow_action (cmd_action c)"
      using row(2) by (simp add: status_action_def is_allow_action_def)
    from allow_passes [OF assms(1) this assms(4), of e] row(1) True show ?thesis by blast
  next
    case False
    then have "\<not> is_allow_action (cmd_action c)"
      using row(2) by (auto simp: status_action_def is_allow_action_def split: if_splits)
    from command_drops [OF assms(1) this touch, of e] row(1) False show ?thesis by blast
  qed
qed

end
