(* ===== verification/OuiTable.thy ===== *)
theory OuiTable
  imports NacText
begin

text \<open>
  The vendor table of \<^verbatim>\<open>crates/nac-fingerprint/src/oui.rs\<close>, entry by entry in the order
  of the source, cut into five parts. The code collects the entries into a hash map, so a later entry
  replaces an earlier one with the same key.
\<close>

section \<open>The entries\<close>

definition oui_part_1 :: "(string \<times> string) list" where
  "oui_part_1 = [
    (''000393'', ''Apple''), (''000502'', ''Apple''), (''000A27'', ''Apple''),
    (''000A95'', ''Apple''), (''000D93'', ''Apple''), (''001124'', ''Apple''),
    (''001451'', ''Apple''), (''0016CB'', ''Apple''), (''0017F2'', ''Apple''),
    (''0019E3'', ''Apple''), (''001B63'', ''Apple''), (''001CB3'', ''Apple''),
    (''001D4F'', ''Apple''), (''001E52'', ''Apple''), (''001EC2'', ''Apple''),
    (''001F5B'', ''Apple''), (''001FF3'', ''Apple''), (''0021E9'', ''Apple''),
    (''002241'', ''Apple''), (''002312'', ''Apple''), (''002332'', ''Apple''),
    (''00236C'', ''Apple''), (''0023DF'', ''Apple''), (''002436'', ''Apple''),
    (''002500'', ''Apple''), (''00254B'', ''Apple''), (''0025BC'', ''Apple''),
    (''002608'', ''Apple''), (''0026B9'', ''Apple''), (''0026BB'', ''Apple''),
    (''003065'', ''Apple''), (''040CCE'', ''Apple''), (''041552'', ''Apple''),
    (''04E536'', ''Apple''), (''080007'', ''Apple''), (''10405F'', ''Apple''),
    (''109ADD'', ''Apple''), (''10DDB1'', ''Apple''), (''146090'', ''Apple''),
    (''18AF61'', ''Apple''), (''1C91DF'', ''Apple''), (''20A2E4'', ''Apple''),
    (''24A074'', ''Apple''), (''283737'', ''Apple''), (''2C1F23'', ''Apple''),
    (''34159E'', ''Apple''), (''34363B'', ''Apple''), (''34C059'', ''Apple''),
    (''380F4A'', ''Apple''), (''3C0754'', ''Apple''), (''3C2EFF'', ''Apple''),
    (''400010'', ''Apple''), (''40A6D9'', ''Apple''), (''40D32D'', ''Apple''),
    (''4488BB'', ''Apple''), (''485D60'', ''Apple''), (''4C3275'', ''Apple''),
    (''4C8D79'', ''Apple''), (''50BC96'', ''Apple''), (''5404A6'', ''Apple''),
    (''54AE27'', ''Apple''), (''587F57'', ''Apple''), (''5C59A8'', ''Apple''),
    (''5CF938'', ''Apple''), (''60D9A3'', ''Apple''), (''60FB42'', ''Apple''),
    (''64200C'', ''Apple''), (''6476BA'', ''Apple''), (''64A3CB'', ''Apple''),
    (''68096C'', ''Apple''), (''6C3E6D'', ''Apple''), (''6C709F'', ''Apple''),
    (''6CF049'', ''Apple''), (''70480F'', ''Apple''), (''704D7B'', ''Apple''),
    (''70CD60'', ''Apple''), (''74E2F5'', ''Apple''), (''783A84'', ''Apple''),
    (''7831C1'', ''Apple''), (''7C04D0'', ''Apple''), (''7CF05F'', ''Apple''),
    (''7CE9D3'', ''Apple''), (''80EA96'', ''Apple''), (''84788B'', ''Apple''),
    (''84FC8D'', ''Apple''), (''880066'', ''Apple''), (''8C7B9D'', ''Apple''),
    (''8C8590'', ''Apple''), (''8CFAB8'', ''Apple''), (''90840D'', ''Apple''),
    (''9027E4'', ''Apple''), (''982966'', ''Apple''), (''9C04EB'', ''Apple''),
    (''9C20F6'', ''Apple''), (''9C35EB'', ''Apple''), (''9CF387'', ''Apple''),
    (''A01789'', ''Apple''), (''A01C0E'', ''Apple''), (''A4C361'', ''Apple''),
    (''A8667F'', ''Apple''), (''A8BE27'', ''Apple''), (''A8FAD8'', ''Apple''),
    (''ACBC32'', ''Apple''), (''ACDE48'', ''Apple''), (''ACE4B5'', ''Apple''),
    (''ACF2C5'', ''Apple''), (''ACFDEC'', ''Apple''), (''B03495'', ''Apple''),
    (''B06582'', ''Apple''), (''B09FBA'', ''Apple''), (''B4F61C'', ''Apple''),
    (''B819EC'', ''Apple''), (''B85C93'', ''Apple''), (''B8C75A'', ''Apple''),
    (''BC3BAF'', ''Apple''), (''BC4CC4'', ''Apple''), (''BC926B'', ''Apple''),
    (''C08997'', ''Apple''), (''C42C03'', ''Apple''), (''C82A14'', ''Apple''),
    (''C86F1D'', ''Apple''), (''CC08E0'', ''Apple''), (''D09466'', ''Apple''),
    (''D0A637'', ''Apple''), (''D0C5F3'', ''Apple''), (''D4619D'', ''Apple''),
    (''D8004D'', ''Apple''), (''D8BB2C'', ''Apple''), (''DC2B2A'', ''Apple''),
    (''DCA904'', ''Apple''), (''E0B9BA'', ''Apple''), (''E4CE8F'', ''Apple''),
    (''E80688'', ''Apple''), (''EC3586'', ''Apple''), (''F07BCB'', ''Apple''),
    (''F0DBF8'', ''Apple''), (''F40F24'', ''Apple''), (''F4F15A'', ''Apple''),
    (''F81EDF'', ''Apple''), (''FC253F'', ''Apple''), (''FCFC48'', ''Apple'')]"

definition oui_part_2 :: "(string \<times> string) list" where
  "oui_part_2 = [
    (''0418D6'', ''Samsung''), (''08FC88'', ''Samsung''), (''0C1420'', ''Samsung''),
    (''183F47'', ''Samsung''), (''1C62B8'', ''Samsung''), (''200DB0'', ''Samsung''),
    (''240AC4'', ''Samsung''), (''2C4401'', ''Samsung''), (''34AA8B'', ''Samsung''),
    (''380AA8'', ''Samsung''), (''400E85'', ''Samsung''), (''48449C'', ''Samsung''),
    (''4844F7'', ''Samsung''), (''4C3C16'', ''Samsung''), (''4CACF7'', ''Samsung''),
    (''5051D8'', ''Samsung''), (''5C5187'', ''Samsung''), (''5CF821'', ''Samsung''),
    (''6017C8'', ''Samsung''), (''6C2F2C'', ''Samsung''), (''6C8336'', ''Samsung''),
    (''70F927'', ''Samsung''), (''74458A'', ''Samsung''), (''7825AD'', ''Samsung''),
    (''78D6F0'', ''Samsung''), (''80571A'', ''Samsung''), (''805181'', ''Samsung''),
    (''8471F8'', ''Samsung''), (''84A466'', ''Samsung''), (''8C71F8'', ''Samsung''),
    (''90F1AA'', ''Samsung''), (''9435A0'', ''Samsung''), (''9C0298'', ''Samsung''),
    (''A01081'', ''Samsung''), (''A07391'', ''Samsung''), (''A40CF3'', ''Samsung''),
    (''A81E84'', ''Samsung''), (''A8D3B7'', ''Samsung''), (''B047BF'', ''Samsung''),
    (''B47443'', ''Samsung''), (''B4EF39'', ''Samsung''), (''B814D5'', ''Samsung''),
    (''BC14EF'', ''Samsung''), (''C01173'', ''Samsung''), (''C0BDD1'', ''Samsung''),
    (''C47D46'', ''Samsung''), (''CC07AB'', ''Samsung''), (''D022BE'', ''Samsung''),
    (''D06396'', ''Samsung''), (''D87195'', ''Samsung''), (''DC7144'', ''Samsung''),
    (''E4B021'', ''Samsung''), (''E47CF9'', ''Samsung''), (''E8508B'', ''Samsung''),
    (''EC9BF3'', ''Samsung''), (''F047D0'', ''Samsung''), (''F47B5E'', ''Samsung''),
    (''F8042E'', ''Samsung''), (''FC0012'', ''Samsung''), (''00000C'', ''Cisco''),
    (''000142'', ''Cisco''), (''000143'', ''Cisco''), (''000163'', ''Cisco''),
    (''000164'', ''Cisco''), (''000196'', ''Cisco''), (''000197'', ''Cisco''),
    (''0001C7'', ''Cisco''), (''0001C9'', ''Cisco''), (''0002FC'', ''Cisco''),
    (''000374'', ''Cisco''), (''000B45'', ''Cisco''), (''000BBE'', ''Cisco''),
    (''000CCE'', ''Cisco''), (''000D28'', ''Cisco''), (''000D29'', ''Cisco''),
    (''000D65'', ''Cisco''), (''000D6F'', ''Cisco''), (''000E08'', ''Cisco''),
    (''000E38'', ''Cisco''), (''000E39'', ''Cisco''), (''000E83'', ''Cisco''),
    (''000E84'', ''Cisco''), (''000E8F'', ''Cisco''), (''001010'', ''Cisco''),
    (''0011BB'', ''Cisco''), (''001120'', ''Cisco''), (''001185'', ''Cisco''),
    (''001201'', ''Cisco''), (''001310'', ''Cisco''), (''001483'', ''Cisco''),
    (''001601'', ''Cisco''), (''00176B'', ''Cisco''), (''001801'', ''Cisco''),
    (''001906'', ''Cisco''), (''001AA2'', ''Cisco''), (''001B0D'', ''Cisco''),
    (''001C0F'', ''Cisco''), (''001D45'', ''Cisco''), (''001D70'', ''Cisco''),
    (''001E13'', ''Cisco''), (''001E14'', ''Cisco''), (''001E7A'', ''Cisco''),
    (''001F26'', ''Cisco''), (''001F27'', ''Cisco''), (''001F6C'', ''Cisco''),
    (''001F9E'', ''Cisco''), (''002001'', ''Cisco''), (''00219B'', ''Cisco''),
    (''0021D8'', ''Cisco''), (''002255'', ''Cisco''), (''00238E'', ''Cisco''),
    (''002390'', ''Cisco''), (''002391'', ''Cisco''), (''002497'', ''Cisco''),
    (''002498'', ''Cisco''), (''0025B4'', ''Cisco''), (''0026CA'', ''Cisco''),
    (''002702'', ''Cisco''), (''00065B'', ''Dell''), (''000874'', ''Dell''),
    (''000BDB'', ''Dell''), (''000F1F'', ''Dell''), (''001143'', ''Dell''), (''00123F'', ''Dell''),
    (''001372'', ''Dell''), (''001422'', ''Dell''), (''0015C5'', ''Dell''), (''0016F0'', ''Dell''),
    (''00188B'', ''Dell''), (''0019B9'', ''Dell''), (''001AA0'', ''Dell''), (''001C23'', ''Dell''),
    (''001D09'', ''Dell''), (''001E4F'', ''Dell''), (''001FD0'', ''Dell''), (''002170'', ''Dell''),
    (''002219'', ''Dell''), (''0023AE'', ''Dell''), (''0024E8'', ''Dell''), (''002564'', ''Dell''),
    (''14FEB5'', ''Dell'')]"

definition oui_part_3 :: "(string \<times> string) list" where
  "oui_part_3 = [
    (''18A99B'', ''Dell''), (''1C40AF'', ''Dell''), (''205548'', ''Dell''), (''24B6FD'', ''Dell''),
    (''34E6AD'', ''Dell''), (''3417EB'', ''Dell''), (''5C260A'', ''Dell''), (''74867A'', ''Dell''),
    (''782BCB'', ''Dell''), (''848589'', ''Dell''), (''8851FB'', ''Dell''), (''906048'', ''Dell''),
    (''9844CF'', ''Dell''), (''A4BADB'', ''Dell''), (''B083FE'', ''Dell''), (''B4966A'', ''Dell''),
    (''C81F66'', ''Dell''), (''D067E5'', ''Dell''), (''D4BE36'', ''Dell''), (''D4F557'', ''Dell''),
    (''E09D31'', ''Dell''), (''EC9A74'', ''Dell''), (''F04DA2'', ''Dell''), (''F8BC12'', ''Dell''),
    (''000B97'', ''HP''), (''000D9D'', ''HP''), (''000EB6'', ''HP''), (''00110A'', ''HP''),
    (''00166F'', ''HP''), (''001708'', ''HP''), (''001A4B'', ''HP''), (''001B78'', ''HP''),
    (''001CC4'', ''HP''), (''001E0B'', ''HP''), (''001F29'', ''HP''), (''002264'', ''HP''),
    (''002354'', ''HP''), (''002481'', ''HP''), (''0025B3'', ''HP''), (''0026F2'', ''HP''),
    (''28924A'', ''HP''), (''3091C1'', ''HP''), (''3CFDF0'', ''HP''), (''380202'', ''HP''),
    (''3C4A92'', ''HP''), (''3C98C9'', ''HP''), (''400FA3'', ''HP''), (''4436AC'', ''HP''),
    (''50657D'', ''HP''), (''5066AB'', ''HP''), (''58205F'', ''HP''), (''6805CA'', ''HP''),
    (''705A0F'', ''HP''), (''7452D3'', ''HP''), (''788CB5'', ''HP''), (''80C16E'', ''HP''),
    (''843600'', ''HP''), (''94571A'', ''HP''), (''9457A5'', ''HP''), (''A0D3C1'', ''HP''),
    (''B499BA'', ''HP''), (''C4346B'', ''HP''), (''C83A35'', ''HP''), (''D4C9EF'', ''HP''),
    (''D850E6'', ''HP''), (''E0071B'', ''HP''), (''E4115B'', ''HP''), (''E8393D'', ''HP''),
    (''F0921C'', ''HP''), (''002590'', ''Lenovo''), (''0022FA'', ''Lenovo''),
    (''0050FA'', ''Lenovo''), (''285012'', ''Lenovo''), (''54EE75'', ''Lenovo''),
    (''5CE0C5'', ''Lenovo''), (''689C70'', ''Lenovo''), (''70723C'', ''Lenovo''),
    (''7C7A91'', ''Lenovo''), (''84978D'', ''Lenovo''), (''88703D'', ''Lenovo''),
    (''98FA9B'', ''Lenovo''), (''A076F0'', ''Lenovo''), (''D4E8B2'', ''Lenovo''),
    (''E8B4C8'', ''Lenovo''), (''F0DEF1'', ''Lenovo''), (''000102'', ''Intel''),
    (''001101'', ''Intel''), (''001150'', ''Intel''), (''001302'', ''Intel''),
    (''001320'', ''Intel''), (''0013CE'', ''Intel''), (''0015FF'', ''Intel''),
    (''001760'', ''Intel''), (''0017C4'', ''Intel''), (''001E65'', ''Intel''),
    (''00224D'', ''Intel''), (''002360'', ''Intel''), (''00262F'', ''Intel''),
    (''7085C2'', ''Intel''), (''8086F2'', ''Intel''), (''886B6F'', ''Intel''),
    (''8C45CF'', ''Intel''), (''946E49'', ''Intel''), (''9C4E36'', ''Intel''),
    (''A0369F'', ''Intel''), (''A4C494'', ''Intel''), (''AC7F3E'', ''Intel''),
    (''B4B686'', ''Intel''), (''B44BFE'', ''Intel''), (''BCEE7B'', ''Intel''),
    (''C0CB38'', ''Intel''), (''E4B97A'', ''Intel''), (''E8D4E0'', ''Intel''),
    (''F4060D'', ''Intel''), (''00125A'', ''Microsoft''), (''0015F2'', ''Microsoft''),
    (''001DD8'', ''Microsoft''), (''005056'', ''Microsoft''), (''281878'', ''Microsoft''),
    (''485073'', ''Microsoft''), (''54271E'', ''Microsoft''), (''7C1E52'', ''Microsoft''),
    (''985FD3'', ''Microsoft''), (''BC8385'', ''Microsoft''), (''DCF505'', ''Microsoft''),
    (''3C5AB4'', ''Google''), (''54600A'', ''Google''), (''68D475'', ''Google''),
    (''A47733'', ''Google''), (''D43D7E'', ''Google''), (''F88FCA'', ''Google''),
    (''A4773A'', ''Google''), (''1CB72C'', ''Google''), (''48D705'', ''Google''),
    (''0C7A37'', ''Amazon''), (''147590'', ''Amazon''), (''18742E'', ''Amazon'')]"

definition oui_part_4 :: "(string \<times> string) list" where
  "oui_part_4 = [
    (''34D270'', ''Amazon''), (''40B4CD'', ''Amazon''), (''44650D'', ''Amazon''),
    (''680571'', ''Amazon''), (''6C5697'', ''Amazon''), (''78D94F'', ''Amazon''),
    (''84D6D0'', ''Amazon''), (''A002DC'', ''Amazon''), (''B47C9C'', ''Amazon''),
    (''F0272D'', ''Amazon''), (''FC65DE'', ''Amazon''), (''001E2A'', ''Netgear''),
    (''00224D'', ''Netgear''), (''20E52A'', ''Netgear''), (''28C68E'', ''Netgear''),
    (''2CB05D'', ''Netgear''), (''44940C'', ''Netgear''), (''4CE676'', ''Netgear''),
    (''5C3316'', ''Netgear''), (''6CB0CE'', ''Netgear''), (''80371A'', ''Netgear''),
    (''84189F'', ''Netgear''), (''A040A0'', ''Netgear''), (''C0FF28'', ''Netgear''),
    (''C4049B'', ''Netgear''), (''10FEED'', ''TP-Link''), (''14CC20'', ''TP-Link''),
    (''1C3BF3'', ''TP-Link''), (''20DC93'', ''TP-Link''), (''28D244'', ''TP-Link''),
    (''3C46D8'', ''TP-Link''), (''50BD5F'', ''TP-Link''), (''5C628B'', ''TP-Link''),
    (''60E327'', ''TP-Link''), (''6466B3'', ''TP-Link''), (''688FF7'', ''TP-Link''),
    (''74DA38'', ''TP-Link''), (''7CB5C5'', ''TP-Link''), (''84162B'', ''TP-Link''),
    (''8CAAB5'', ''TP-Link''), (''90F652'', ''TP-Link''), (''94D9B3'', ''TP-Link''),
    (''98DABC'', ''TP-Link''), (''9C5322'', ''TP-Link''), (''A84006'', ''TP-Link''),
    (''B00C86'', ''TP-Link''), (''C46E1F'', ''TP-Link''), (''E8DE27'', ''TP-Link''),
    (''F4EC38'', ''TP-Link''), (''F8D111'', ''TP-Link''), (''000EA6'', ''ASUS''),
    (''049226'', ''ASUS''), (''08606E'', ''ASUS''), (''107B44'', ''ASUS''), (''1C872C'', ''ASUS''),
    (''2C56DC'', ''ASUS''), (''30855B'', ''ASUS''), (''3497F6'', ''ASUS''), (''38D547'', ''ASUS''),
    (''40167E'', ''ASUS''), (''4CE67F'', ''ASUS''), (''60A44C'', ''ASUS''), (''702E22'', ''ASUS''),
    (''74D02B'', ''ASUS''), (''7C1EA0'', ''ASUS''), (''88D7F6'', ''ASUS''), (''AC220B'', ''ASUS''),
    (''BC946B'', ''ASUS''), (''C860EB'', ''ASUS''), (''E03F49'', ''ASUS''), (''F04261'', ''ASUS''),
    (''000C29'', ''VMware''), (''000569'', ''VMware''), (''001C14'', ''VMware''),
    (''000AF7'', ''Broadcom''), (''001018'', ''Broadcom''), (''001AA0'', ''Broadcom''),
    (''0050EF'', ''Broadcom''), (''00904C'', ''Broadcom''), (''001EC2'', ''Broadcom''),
    (''083E5D'', ''Broadcom''), (''20E52A'', ''Broadcom''), (''3C970E'', ''Broadcom''),
    (''4C1755'', ''Broadcom''), (''60EB69'', ''Broadcom''), (''94103E'', ''Broadcom''),
    (''A4ED43'', ''Broadcom''), (''ACF1DF'', ''Broadcom''), (''D86162'', ''Broadcom''),
    (''001882'', ''Huawei''), (''00464B'', ''Huawei''), (''00E0FC'', ''Huawei''),
    (''0422F7'', ''Huawei''), (''047975'', ''Huawei''), (''086070'', ''Huawei''),
    (''0C37DC'', ''Huawei''), (''103140'', ''Huawei''), (''1C8E5C'', ''Huawei''),
    (''200BC7'', ''Huawei''), (''247F3C'', ''Huawei''), (''285FDB'', ''Huawei''),
    (''2C3557'', ''Huawei''), (''2CAB25'', ''Huawei''), (''34A849'', ''Huawei''),
    (''3C8782'', ''Huawei''), (''407C7D'', ''Huawei''), (''407D0F'', ''Huawei''),
    (''44CC59'', ''Huawei''), (''48DB50'', ''Huawei''), (''4CBFEE'', ''Huawei''),
    (''50A72B'', ''Huawei''), (''50ADF7'', ''Huawei''), (''542AEB'', ''Huawei''),
    (''54511B'', ''Huawei''), (''54A51B'', ''Huawei''), (''5CF96A'', ''Huawei''),
    (''6416F0'', ''Huawei''), (''688A76'', ''Huawei''), (''68CC6E'', ''Huawei''),
    (''6CF04B'', ''Huawei''), (''704ABE'', ''Huawei''), (''7CB2BD'', ''Huawei''),
    (''84A8E4'', ''Huawei''), (''84BF00'', ''Huawei''), (''8C34FD'', ''Huawei''),
    (''8CE748'', ''Huawei''), (''900548'', ''Huawei''), (''A0086F'', ''Huawei''),
    (''A83FA3'', ''Huawei''), (''AC853D'', ''Huawei''), (''ACBECE'', ''Huawei''),
    (''B4430D'', ''Huawei''), (''B47724'', ''Huawei''), (''BC7670'', ''Huawei''),
    (''C47D4F'', ''Huawei''), (''C8D15E'', ''Huawei''), (''CC53B5'', ''Huawei'')]"

definition oui_part_5 :: "(string \<times> string) list" where
  "oui_part_5 = [
    (''D4E6B7'', ''Huawei''), (''DC004C'', ''Huawei''), (''E0247F'', ''Huawei''),
    (''E09496'', ''Huawei''), (''E43682'', ''Huawei''), (''E804A6'', ''Huawei''),
    (''EC38D0'', ''Huawei''), (''F03E90'', ''Huawei''), (''F4559C'', ''Huawei''),
    (''F48E92'', ''Huawei''), (''F8BFB8'', ''Huawei''), (''FC48EF'', ''Huawei''),
    (''001A80'', ''Sony''), (''0025E7'', ''Sony''), (''302918'', ''Sony''), (''40B8B8'', ''Sony''),
    (''48590E'', ''Sony''), (''54E72D'', ''Sony''), (''6045CB'', ''Sony''), (''70F1A1'', ''Sony''),
    (''84C7E9'', ''Sony''), (''8C647E'', ''Sony''), (''90CEE9'', ''Sony''), (''A8B86E'', ''Sony''),
    (''D479B4'', ''Sony''), (''EC26CA'', ''Sony''), (''001E75'', ''LG''), (''003ADE'', ''LG''),
    (''0088A4'', ''LG''), (''14C913'', ''LG''), (''1C232C'', ''LG''), (''20CF30'', ''LG''),
    (''28277E'', ''LG''), (''285192'', ''LG''), (''2C54CF'', ''LG''), (''3868DD'', ''LG''),
    (''40B0FA'', ''LG''), (''48599F'', ''LG''), (''4C4E35'', ''LG''), (''5C4959'', ''LG''),
    (''6417A7'', ''LG''), (''686A44'', ''LG''), (''6C400A'', ''LG''), (''843835'', ''LG''),
    (''88C9D0'', ''LG''), (''8C3AE3'', ''LG''), (''90E7C4'', ''LG''), (''B4E62D'', ''LG''),
    (''CC2D8C'', ''LG''), (''D812B6'', ''LG''), (''E8E5D6'', ''LG''), (''F04F7C'', ''LG''),
    (''002021'', ''Xiaomi''), (''0C1DAF'', ''Xiaomi''), (''10BA01'', ''Xiaomi''),
    (''1486E8'', ''Xiaomi''), (''18598B'', ''Xiaomi''), (''28E31F'', ''Xiaomi''),
    (''34CE00'', ''Xiaomi''), (''3C8749'', ''Xiaomi''), (''404260'', ''Xiaomi''),
    (''50EC50'', ''Xiaomi''), (''58440E'', ''Xiaomi''), (''5C1AC0'', ''Xiaomi''),
    (''642737'', ''Xiaomi''), (''6C4FAE'', ''Xiaomi''), (''74051B'', ''Xiaomi''),
    (''7811DC'', ''Xiaomi''), (''80F623'', ''Xiaomi''), (''8C97EA'', ''Xiaomi''),
    (''9C993A'', ''Xiaomi''), (''A086C6'', ''Xiaomi''), (''A4D179'', ''Xiaomi''),
    (''AC2251'', ''Xiaomi''), (''B0E235'', ''Xiaomi''), (''C436C3'', ''Xiaomi''),
    (''D43A78'', ''Xiaomi''), (''D8A959'', ''Xiaomi''), (''E41078'', ''Xiaomi''),
    (''F048EE'', ''Xiaomi''), (''F4831F'', ''Xiaomi''), (''FC64BA'', ''Xiaomi''),
    (''0024D4'', ''OnePlus''), (''18B169'', ''OnePlus''), (''1C9994'', ''OnePlus''),
    (''380B3B'', ''OnePlus''), (''3CA3C1'', ''OnePlus''), (''60B735'', ''OnePlus''),
    (''707EA0'', ''OnePlus''), (''7C1DA1'', ''OnePlus''), (''88D4B7'', ''OnePlus''),
    (''A8656C'', ''OnePlus''), (''C0C80B'', ''OnePlus''), (''E8D7F5'', ''OnePlus''),
    (''000D88'', ''D-Link''), (''000F3D'', ''D-Link''), (''001195'', ''D-Link''),
    (''001380'', ''D-Link''), (''001CF0'', ''D-Link''), (''0021E8'', ''D-Link''),
    (''00265A'', ''D-Link''), (''1062EB'', ''D-Link''), (''1C5F2B'', ''D-Link''),
    (''28107B'', ''D-Link''), (''2CA15E'', ''D-Link''), (''340804'', ''D-Link''),
    (''3C1E04'', ''D-Link''), (''5474A9'', ''D-Link''), (''6006C9'', ''D-Link''),
    (''6CB2AE'', ''D-Link''), (''74DADA'', ''D-Link''), (''788A20'', ''D-Link''),
    (''8091CA'', ''D-Link''), (''84C9B2'', ''D-Link''), (''906204'', ''D-Link''),
    (''A8638C'', ''D-Link''), (''BC0F9A'', ''D-Link''), (''C8BE19'', ''D-Link''),
    (''CCB255'', ''D-Link''), (''E46F13'', ''D-Link''), (''F07D68'', ''D-Link''),
    (''B827EB'', ''Raspberry Pi''), (''DCA632'', ''Raspberry Pi''), (''E45F01'', ''Raspberry Pi''),
    (''002722'', ''Ubiquiti''), (''049F81'', ''Ubiquiti''), (''24A43C'', ''Ubiquiti''),
    (''44D9E7'', ''Ubiquiti''), (''68725D'', ''Ubiquiti''), (''788A20'', ''Ubiquiti''),
    (''80E4DA'', ''Ubiquiti''), (''E063DA'', ''Ubiquiti''), (''F09FC2'', ''Ubiquiti''),
    (''FC4687'', ''Ubiquiti'')]"

section \<open>The map\<close>

definition oui_entries :: "(string \<times> string) list" where
  "oui_entries = oui_part_1 @ oui_part_2 @ oui_part_3 @ oui_part_4 @ oui_part_5"

fun collected :: "string \<Rightarrow> (string \<times> string) list \<Rightarrow> string option \<Rightarrow> string option" where
  "collected k [] found = found"
| "collected k ((key, v) # rest) found = collected k rest (if key = k then Some v else found)"

definition oui_lookup :: "string \<Rightarrow> string option" where
  "oui_lookup oui_hex = collected (to_uppercase oui_hex) oui_entries None"

lemma collected_append: "collected k (xs @ ys) found = collected k ys (collected k xs found)"
  by (induction k xs found rule: collected.induct) simp_all

lemma collected_found: "collected k xs found = (case collected k xs None of None \<Rightarrow> found | r \<Rightarrow> r)"
proof (induction xs arbitrary: found)
  case (Cons x xs)
  obtain key v where x: "x = (key, v)" by (cases x)
  show ?case
    using Cons.IH [of "Some v"] Cons.IH [of found] by (simp add: x split: option.split)
qed simp

lemma collected_None: "collected k xs None = None \<longleftrightarrow> k \<notin> fst ` set xs"
proof (induction xs)
  case (Cons x xs)
  obtain key v where x: "x = (key, v)" by (cases x)
  show ?case
    using Cons.IH collected_found [of k xs "Some v"] by (auto simp: x split: option.splits)
qed simp

lemma oui_lookup_case: "oui_lookup (to_lowercase s) = oui_lookup s"
  by (simp add: oui_lookup_def comp_def)

end
