(* ===== verification/Fingerprint.thy ===== *)
theory Fingerprint
  imports OuiTable NacPrelude
begin

text \<open>
  Device identification, \<^verbatim>\<open>crates/nac-fingerprint/src/lib.rs\<close> and \<^verbatim>\<open>ttl.rs\<close>: each
  signal updates a fingerprint in turn. The lemmas say which signal decides each field.
\<close>

section \<open>Signals\<close>

datatype confidence = Low | Medium | High

record fingerprint =
  fp_os_family :: "string option"
  fp_os_version :: "string option"
  fp_device_type :: "string option"
  fp_vendor :: "string option"
  fp_confidence :: confidence

record signals =
  sg_oui :: "string option"
  sg_dhcp_prl :: "bytes option"
  sg_user_agent :: "string option"
  sg_tcp_win_size :: "u16 option"
  sg_tcp_options :: "string option"
  sg_ttl :: "u8 option"

definition os_from_ttl :: "u8 \<Rightarrow> string option" where
  "os_from_ttl ttl =
     (let t = unat ttl in
      if 113 \<le> t \<and> t \<le> 128 then Some ''Windows''
      else if 49 \<le> t \<and> t \<le> 64 then Some ''Linux''
      else if 240 \<le> t \<and> t \<le> 255 then Some ''Network Equipment''
      else if t = 239 then Some ''Unix''
      else None)"

section \<open>The steps of the identification\<close>

definition infer_from_vendor :: "string \<Rightarrow> fingerprint \<Rightarrow> fingerprint" where
  "infer_from_vendor vendor fp =
     (if vendor = ''Apple'' then
        fp\<lparr>fp_os_family := opt_or (fp_os_family fp) (Some ''iOS/macOS'')\<rparr>
      else if vendor = ''Cisco'' then
        fp\<lparr>fp_device_type := opt_or (fp_device_type fp) (Some ''Network Equipment'')\<rparr>
      else if vendor = ''Netgear'' \<or> vendor = ''TP-Link'' \<or> vendor = ''D-Link'' \<or> vendor = ''ASUS'' \<or>
        vendor = ''Ubiquiti'' then
        fp\<lparr>fp_device_type := opt_or (fp_device_type fp) (Some ''Network Equipment'')\<rparr>
      else if vendor = ''VMware'' then
        fp\<lparr>fp_device_type := opt_or (fp_device_type fp) (Some ''Virtual Machine'')\<rparr>
      else if vendor = ''Raspberry Pi'' then
        fp\<lparr>fp_device_type := opt_or (fp_device_type fp) (Some ''IoT''),
           fp_os_family := opt_or (fp_os_family fp) (Some ''Linux'')\<rparr>
      else fp)"

definition apply_oui :: "string option \<Rightarrow> fingerprint \<Rightarrow> fingerprint" where
  "apply_oui oui fp =
     (case Option.bind oui oui_lookup of
        None \<Rightarrow> fp
      | Some vendor \<Rightarrow>
          infer_from_vendor vendor (fp\<lparr>fp_vendor := Some vendor, fp_confidence := Medium\<rparr>))"

definition windows_prl :: bytes where
  "windows_prl = [1, 3, 6, 15, 31, 33, 43, 44, 46, 47, 119, 121, 249, 252]"

definition linux_prl :: bytes where
  "linux_prl = [1, 28, 2, 3, 15, 6, 119, 12, 44, 47, 26, 121, 42]"

definition apply_prl :: "bytes option \<Rightarrow> fingerprint \<Rightarrow> fingerprint" where
  "apply_prl prl fp =
     (case prl of None \<Rightarrow> fp
      | Some p \<Rightarrow>
          let fp1 = (if p = windows_prl
                then fp\<lparr>fp_os_family := Some ''Windows'', fp_confidence := High\<rparr> else fp)
          in if p = linux_prl
             then fp1\<lparr>fp_os_family := Some ''Linux'', fp_confidence := High\<rparr> else fp1)"

definition apply_ttl :: "u8 option \<Rightarrow> fingerprint \<Rightarrow> fingerprint" where
  "apply_ttl ttl fp =
     (case Option.bind ttl os_from_ttl of
        None \<Rightarrow> fp
      | Some os \<Rightarrow> fp\<lparr>fp_os_family := opt_or (fp_os_family fp) (Some os)\<rparr>)"

definition apply_ua :: "string option \<Rightarrow> fingerprint \<Rightarrow> fingerprint" where
  "apply_ua ua fp =
     (case ua of None \<Rightarrow> fp
      | Some u \<Rightarrow>
          if contains ''Windows NT'' u then fp\<lparr>fp_os_family := Some ''Windows'', fp_confidence := High\<rparr>
          else if contains ''iPhone'' u \<or> contains ''iPad'' u then
            fp\<lparr>fp_os_family := Some ''iOS'', fp_device_type := Some ''Mobile'', fp_confidence := High\<rparr>
          else if contains ''Android'' u then
            fp\<lparr>fp_os_family := Some ''Android'', fp_device_type := Some ''Mobile'', fp_confidence := High\<rparr>
          else if contains ''Macintosh'' u then fp\<lparr>fp_os_family := Some ''macOS'', fp_confidence := High\<rparr>
          else if contains ''Linux'' u then fp\<lparr>fp_os_family := Some ''Linux'', fp_confidence := Medium\<rparr>
          else fp)"

definition empty_fingerprint :: fingerprint where
  "empty_fingerprint = \<lparr>fp_os_family = None, fp_os_version = None, fp_device_type = None,
     fp_vendor = None, fp_confidence = Low\<rparr>"

definition identify :: "signals \<Rightarrow> (string, fingerprint) rust" where
  "identify sg = Ok (apply_ua (sg_user_agent sg) (apply_ttl (sg_ttl sg)
     (apply_prl (sg_dhcp_prl sg) (apply_oui (sg_oui sg) empty_fingerprint))))"

section \<open>Which signal decides\<close>

definition ua_os :: "string option \<Rightarrow> string option" where
  "ua_os ua =
     (case ua of None \<Rightarrow> None
      | Some u \<Rightarrow>
          if contains ''Windows NT'' u then Some ''Windows''
          else if contains ''iPhone'' u \<or> contains ''iPad'' u then Some ''iOS''
          else if contains ''Android'' u then Some ''Android''
          else if contains ''Macintosh'' u then Some ''macOS''
          else if contains ''Linux'' u then Some ''Linux''
          else None)"

definition prl_os :: "bytes option \<Rightarrow> string option" where
  "prl_os prl =
     (if prl = Some windows_prl then Some ''Windows''
      else if prl = Some linux_prl then Some ''Linux'' else None)"

definition oui_os :: "string option \<Rightarrow> string option" where
  "oui_os oui =
     (if Option.bind oui oui_lookup = Some ''Apple'' then Some ''iOS/macOS''
      else if Option.bind oui oui_lookup = Some ''Raspberry Pi'' then Some ''Linux'' else None)"

lemma prl_differ: "windows_prl \<noteq> linux_prl"
  by (simp add: windows_prl_def linux_prl_def)

lemma apply_ua_os: "fp_os_family (apply_ua ua fp) = opt_or (ua_os ua) (fp_os_family fp)"
  by (auto simp: apply_ua_def ua_os_def split: option.split)

lemma apply_ttl_os: "fp_os_family (apply_ttl t fp) = opt_or (fp_os_family fp) (Option.bind t os_from_ttl)"
  by (auto simp: apply_ttl_def split: option.split)

lemma apply_prl_os: "fp_os_family (apply_prl p fp) = opt_or (prl_os p) (fp_os_family fp)"
  using prl_differ by (auto simp: apply_prl_def prl_os_def Let_def split: option.split)

lemma apply_oui_os: "fp_os_family (apply_oui oui empty_fingerprint) = oui_os oui"
  by (auto simp: apply_oui_def oui_os_def infer_from_vendor_def empty_fingerprint_def split: option.split)

text \<open>
  The operating system comes from the user agent, then the parameter request list, then the vendor,
  then the time to live.
\<close>

lemma identify_os:
  "\<exists>fp. identify sg = Ok fp \<and>
     fp_os_family fp = opt_or (ua_os (sg_user_agent sg)) (opt_or (prl_os (sg_dhcp_prl sg))
       (opt_or (oui_os (sg_oui sg)) (Option.bind (sg_ttl sg) os_from_ttl)))"
  by (simp add: identify_def apply_ua_os apply_ttl_os apply_prl_os apply_oui_os opt_or_assoc)

lemma vendor_steps:
  "fp_vendor (apply_ua ua fp) = fp_vendor fp" "fp_vendor (apply_ttl t fp) = fp_vendor fp"
  "fp_vendor (apply_prl p fp) = fp_vendor fp"
  by (auto simp: apply_ua_def apply_ttl_def apply_prl_def Let_def split: option.split)

lemma identify_vendor: "\<exists>fp. identify sg = Ok fp \<and> fp_vendor fp = Option.bind (sg_oui sg) oui_lookup"
  by (auto simp: identify_def vendor_steps apply_oui_def infer_from_vendor_def empty_fingerprint_def
      split: option.split)

text \<open>
  A user agent that mentions Linux lowers a confidence that the request list had made high, even
  when both name the same system.
\<close>

lemma linux_ua_lowers:
  assumes "contains ''Linux'' u" and "\<not> contains ''Windows NT'' u" and "\<not> contains ''iPhone'' u"
    and "\<not> contains ''iPad'' u" and "\<not> contains ''Android'' u" and "\<not> contains ''Macintosh'' u"
  shows "fp_confidence (apply_ua (Some u) fp) = Medium"
  using assms by (simp add: apply_ua_def)

section \<open>The table\<close>

text \<open>The entries of the last part replace those of the earlier parts.\<close>

lemma oui_later_wins:
  "collected k oui_part_5 None = Some v \<Longrightarrow> collected k oui_entries None = Some v"
  unfolding oui_entries_def collected_append append_assoc [symmetric]
  by (subst collected_found) simp

lemma oui_replaced_key: "collected ''788A20'' oui_part_5 None = Some ''Ubiquiti''"
  by (simp add: oui_part_5_def)

end
