(* ===== verification/GatewayAuth.thy ===== *)
theory GatewayAuth
  imports NacText
begin

unbundle bit_operations_syntax

text \<open>
  The tokens of the API gateway, \<^verbatim>\<open>services/api-gateway/src/auth.rs\<close>, and the login that
  issues them. The hash function that \<^verbatim>\<open>DefaultHasher\<close> stands for (its algorithm is not
  specified by the standard library) and the JSON text of the claims (\<^verbatim>\<open>serde_json\<close>) are
  arguments; the time is the number of seconds since the epoch.
\<close>

section \<open>Base 64 for URLs\<close>

definition b64_chars :: string where
  "b64_chars = ''ABCDEFGHIJKLMNOPQRSTUVWXYZabcdefghijklmnopqrstuvwxyz0123456789+/''"

definition b64_char :: "u32 \<Rightarrow> char" where
  "b64_char n = b64_chars ! unat (n AND 63)"

definition encode_chunk :: "bytes \<Rightarrow> string" where
  "encode_chunk chunk =
     (let b0 = ucast (chunk ! 0) :: u32;
          b1 = (if 1 < length chunk then ucast (chunk ! 1) else 0);
          b2 = (if 2 < length chunk then ucast (chunk ! 2) else 0);
          n = push_bit 16 b0 OR push_bit 8 b1 OR b2
      in [b64_char (drop_bit 18 n), b64_char (drop_bit 12 n),
          if 1 < length chunk then b64_char (drop_bit 6 n) else CHR ''='',
          if 2 < length chunk then b64_char n else CHR ''=''])"

definition base64url_encode :: "bytes \<Rightarrow> string" where
  "base64url_encode input =
     replace_char CHR ''='' [] (replace_char CHR ''/'' ''_'' (replace_char CHR ''+'' ''-''
       (concat (map encode_chunk (chunks 3 input)))))"

definition decode_char :: "char \<Rightarrow> u8" where
  "decode_char c =
     (if is_upper_ascii c then of_char c - of_char CHR ''A''
      else if is_lower_ascii c then of_char c - of_char CHR ''a'' + 26
      else if is_digit_ascii c then of_char c - of_char CHR ''0'' + 52
      else if c = CHR ''+'' then 62
      else if c = CHR ''/'' then 63
      else 0)"

definition decode_chunk :: "string \<Rightarrow> bytes" where
  "decode_chunk chunk =
     (let b0 = decode_char (chunk ! 0); b1 = decode_char (chunk ! 1);
          b2 = decode_char (chunk ! 2); b3 = decode_char (chunk ! 3)
      in [push_bit 2 b0 OR drop_bit 4 b1]
         @ (if chunk ! 2 \<noteq> CHR ''='' then [push_bit 4 b1 OR drop_bit 2 b2] else [])
         @ (if chunk ! 3 \<noteq> CHR ''='' then [push_bit 6 b2 OR b3] else []))"

fun decode_chunks :: "string list \<Rightarrow> bytes" where
  "decode_chunks [] = []"
| "decode_chunks (chunk # rest) =
     (if length chunk < 4 then [] else decode_chunk chunk @ decode_chunks rest)"

definition pad_base64 :: "string \<Rightarrow> string" where
  "pad_base64 input =
     (if length input mod 4 = 2 then input @ ''==''
      else if length input mod 4 = 3 then input @ ''=''
      else input)"

definition base64url_decode :: "string \<Rightarrow> bytes" where
  "base64url_decode input =
     decode_chunks (chunks 4 (replace_char CHR ''_'' ''/'' (replace_char CHR ''-'' ''+'' (pad_base64 input))))"

section \<open>Tokens\<close>

record gw_claims =
  gc_sub :: string
  gc_exp :: nat

text \<open>The parts of the standard library and of \<^verbatim>\<open>serde_json\<close> that the tokens rest on.\<close>

record token_lib =
  tl_hash :: "bytes \<Rightarrow> bytes \<Rightarrow> 64 word"
  tl_to_json :: "gw_claims \<Rightarrow> bytes"
  tl_from_json :: "bytes \<Rightarrow> gw_claims option"

definition u64_to_le :: "64 word \<Rightarrow> bytes" where
  "u64_to_le h = map (\<lambda>i. ucast (drop_bit (8 * i) h)) [0..<8]"

definition hmac_sha256 :: "token_lib \<Rightarrow> bytes \<Rightarrow> bytes \<Rightarrow> bytes" where
  "hmac_sha256 lib key d = concat (replicate 4 (u64_to_le (tl_hash lib key d)))"

definition token_header :: string where
  "token_header = base64url_encode (as_bytes ''{\"alg\":\"HS256\",\"typ\":\"JWT\"}'')"

definition create_token :: "token_lib \<Rightarrow> nat \<Rightarrow> bytes \<Rightarrow> string \<Rightarrow> (string, string) rust" where
  "create_token lib now secret username =
     (if 2 ^ 64 \<le> now + 86400 then Panic
      else
        let claims_json = tl_to_json lib \<lparr>gc_sub = username, gc_exp = now + 86400\<rparr>;
            message = token_header @ ''.'' @ base64url_encode claims_json;
            sig = hmac_sha256 lib secret (as_bytes message)
        in Ok (message @ ''.'' @ base64url_encode sig))"

definition gw_verify_token :: "token_lib \<Rightarrow> nat \<Rightarrow> bytes \<Rightarrow> string \<Rightarrow> (string, string) rust" where
  "gw_verify_token lib now secret token =
     (case splitn 3 CHR ''.'' token of
        [h, p, s] \<Rightarrow>
          (let message = h @ ''.'' @ p;
               expected_sig = hmac_sha256 lib secret (as_bytes message);
               provided_sig = base64url_decode s
           in if expected_sig \<noteq> provided_sig then Err ''invalid token signature''
              else (case tl_from_json lib (base64url_decode p) of
                      None \<Rightarrow> Err ''invalid claims''
                    | Some claims \<Rightarrow>
                        if gc_exp claims < now then Err ''token expired'' else Ok (gc_sub claims)))
      | _ \<Rightarrow> Err ''invalid token format'')"

text \<open>
  The middleware lets a request through (\<open>Ok\<close>) or answers it with a status. The header is the value of
  \<^verbatim>\<open>Authorization\<close> that is valid text.
\<close>

definition require_auth :: "token_lib \<Rightarrow> nat \<Rightarrow> bytes \<Rightarrow> string option \<Rightarrow> (nat, unit) rust" where
  "require_auth lib now secret header =
     (case Option.bind header (strip_prefix ''Bearer '') of
        None \<Rightarrow> Err 401
      | Some token \<Rightarrow>
          (case gw_verify_token lib now secret token of
             Ok u \<Rightarrow> Ok () | Err e \<Rightarrow> Err 401 | Panic \<Rightarrow> Panic))"

definition gw_login ::
  "token_lib \<Rightarrow> (string \<Rightarrow> string option) \<Rightarrow> nat \<Rightarrow> bytes \<Rightarrow> string \<Rightarrow> string \<Rightarrow> (nat, string) rust"
where
  "gw_login lib env now secret username password =
     (if username \<noteq> runwrap_or ''admin'' (env ''ADMIN_USER'')
       \<or> password \<noteq> runwrap_or ''changeme'' (env ''ADMIN_PASS'') then Err 401
      else (case create_token lib now secret username of
              Ok t \<Rightarrow> Ok t | Err e \<Rightarrow> Err 500 | Panic \<Rightarrow> Panic))"

section \<open>Decoding what was encoded\<close>

lemma sextet_less: "unat (n AND (63 :: u32)) < 64"
proof -
  have "n AND 63 \<le> (63 :: u32)" by (rule word_and_le1)
  then show ?thesis by (simp add: word_le_nat_alt)
qed

lemma b64_table:
  "list_all (\<lambda>i. decode_char (b64_chars ! i) = of_nat i \<and> b64_chars ! i \<noteq> CHR ''='' \<and> b64_chars ! i \<noteq> CHR ''-''
     \<and> b64_chars ! i \<noteq> CHR ''_'') [0..<64]"
  by (simp add: b64_chars_def upt_rec decode_char_def char_class_defs)

lemma b64_char_facts:
  "decode_char (b64_char n) = ucast (n AND 63)" "b64_char n \<noteq> CHR ''=''" "b64_char n \<noteq> CHR ''-''" "b64_char n \<noteq> CHR ''_''"
proof -
  have "unat (n AND 63) \<in> set [0..<64]" using sextet_less [of n] by simp
  with b64_table show "b64_char n \<noteq> CHR ''=''" "b64_char n \<noteq> CHR ''-''" "b64_char n \<noteq> CHR ''_''"
      "decode_char (b64_char n) = ucast (n AND 63)"
    unfolding list_all_iff b64_char_def by (auto simp: unsigned_ucast_eq)
qed

lemma mask_63: "(63 :: u32) = mask 6"
  by (simp add: mask_eq_exp_minus_1)

lemma less_8D: "i < LENGTH(8) \<Longrightarrow> i = 0 \<or> i = 1 \<or> i = 2 \<or> i = 3 \<or> i = 4 \<or> i = 5 \<or> i = 6 \<or> i = 7"
  by auto

lemma high_bit: "8 \<le> i \<Longrightarrow> \<not> bit (a :: u8) i"
  using bit_imp_le_length [of a i] by auto

lemma regroup:
  fixes a b c :: u8
  defines "n \<equiv> push_bit 16 (ucast a) OR push_bit 8 (ucast b) OR (ucast c) :: u32"
  shows "push_bit 2 (ucast (drop_bit 18 n AND 63)) OR drop_bit 4 (ucast (drop_bit 12 n AND 63)) = a"
    and "push_bit 4 (ucast (drop_bit 12 n AND 63)) OR drop_bit 2 (ucast (drop_bit 6 n AND 63)) = b"
    and "push_bit 6 (ucast (drop_bit 6 n AND 63)) OR (ucast (n AND 63)) = c"
  unfolding atomize_conj n_def mask_63
  by (intro conjI; rule bit_word_eqI; drule less_8D; elim disjE; hypsubst; simp add: bit_simps high_bit)

lemma decode_encode_chunk:
  assumes "xs \<noteq> []" and "length xs \<le> 3"
  shows "decode_chunk (encode_chunk xs) = xs"
proof -
  consider (one) a where "xs = [a]" | (two) a b where "xs = [a, b]" | (three) a b c where "xs = [a, b, c]"
    using assms by (cases xs rule: remdups_adj.cases; cases "tl (tl xs)") auto
  then show ?thesis
  proof cases
    case one
    then show ?thesis using regroup(1) [of a 0 0]
      by (simp add: decode_chunk_def encode_chunk_def Let_def b64_char_facts)
  next
    case two
    then show ?thesis using regroup(1,2) [of a b 0]
      by (simp add: decode_chunk_def encode_chunk_def Let_def b64_char_facts)
  next
    case three
    then show ?thesis using regroup [of a b c]
      by (simp add: decode_chunk_def encode_chunk_def Let_def b64_char_facts)
  qed
qed

lemma length_encode_chunk [simp]: "length (encode_chunk xs) = 4"
  by (simp add: encode_chunk_def Let_def)

definition to_url :: "char \<Rightarrow> char" where
  "to_url c = (if c = CHR ''+'' then CHR ''-'' else if c = CHR ''/'' then CHR ''_'' else c)"

lemma url_text: "replace_char CHR ''='' [] (replace_char CHR ''/'' ''_'' (replace_char CHR ''+'' ''-'' s)) =
    map to_url (filter (\<lambda>c. c \<noteq> CHR ''='') s)"
  by (induction s) (simp_all add: replace_char_def to_url_def)

lemma standard_text: "list_all (\<lambda>c. c \<noteq> CHR ''-'' \<and> c \<noteq> CHR ''_'') s \<Longrightarrow>
    replace_char CHR ''_'' ''/'' (replace_char CHR ''-'' ''+'' (map to_url s)) = s"
  by (induction s) (simp_all add: replace_char_def to_url_def)

lemma encode_chunk_chars: "list_all (\<lambda>c. c \<noteq> CHR ''-'' \<and> c \<noteq> CHR ''_'') (encode_chunk xs)"
  by (simp add: encode_chunk_def Let_def b64_char_facts)

lemma pad_base64_append: "length xs = 4 \<Longrightarrow> pad_base64 (xs @ ys) = xs @ pad_base64 ys"
  by (simp add: pad_base64_def)

lemma encode_chunk_full:
  "length xs = 3 \<Longrightarrow> filter (\<lambda>c. c \<noteq> CHR ''='') (encode_chunk xs) = encode_chunk xs"
  by (simp add: encode_chunk_def Let_def b64_char_facts)

lemma encode_chunk_padded:
  assumes "xs \<noteq> []" and "length xs \<le> 3"
  shows "pad_base64 (map to_url (filter (\<lambda>c. c \<noteq> CHR ''='') (encode_chunk xs))) = map to_url (encode_chunk xs)"
proof -
  have "length xs = 1 \<or> length xs = 2 \<or> length xs = 3" using assms by (cases "length xs") auto
  then show ?thesis
    by (auto simp: encode_chunk_def Let_def b64_char_facts pad_base64_def to_url_def)
qed

lemma padding_restored:
  "pad_base64 (map to_url (filter (\<lambda>c. c \<noteq> CHR ''='') (concat (map encode_chunk (chunks 3 bs))))) =
     map to_url (concat (map encode_chunk (chunks 3 bs)))"
proof (induction bs rule: length_induct)
  case (1 bs)
  consider "bs = []" | "bs \<noteq> []" "length bs \<le> 3" | "3 < length bs" by fastforce
  then show ?case
  proof cases
    case 1
    then show ?thesis by (simp add: chunks.simps pad_base64_def)
  next
    case 2
    then show ?thesis using encode_chunk_padded by (simp add: chunks.simps [of 3])
  next
    case 3
    then have "chunks 3 bs = take 3 bs # chunks 3 (drop 3 bs)" by (subst chunks.simps) auto
    moreover have "length (take 3 bs) = 3" using 3 by simp
    moreover have "length (drop 3 bs) < length bs" using 3 by simp
    ultimately show ?thesis using "1.IH" by (simp add: encode_chunk_full pad_base64_append del: length_take)
  qed
qed

lemma chunks_short: "0 < n \<Longrightarrow> x \<in> set (chunks n xs) \<Longrightarrow> x \<noteq> [] \<and> length x \<le> n"
  by (induction n xs rule: chunks.induct) (subst (asm) chunks.simps, auto split: if_splits)

lemma concat_chunks: "0 < n \<Longrightarrow> concat (chunks n xs) = xs"
  by (induction n xs rule: chunks.induct) (subst chunks.simps, auto)

lemma decode_chunks_encoded:
  "\<forall>x \<in> set cs. x \<noteq> [] \<and> length x \<le> 3 \<Longrightarrow> decode_chunks (map encode_chunk cs) = concat cs"
  by (induction cs) (simp_all add: decode_encode_chunk)

lemma base64url_decode_encode [simp]: "base64url_decode (base64url_encode bs) = bs"
proof -
  let ?cs = "chunks 3 bs"
  have "list_all (\<lambda>c. c \<noteq> CHR ''-'' \<and> c \<noteq> CHR ''_'') (concat (map encode_chunk ?cs))"
    using encode_chunk_chars by (fastforce simp: list_all_iff)
  then have "base64url_decode (base64url_encode bs) =
      decode_chunks (chunks 4 (concat (map encode_chunk ?cs)))"
    by (simp add: base64url_decode_def base64url_encode_def url_text padding_restored standard_text)
  also have "chunks 4 (concat (map encode_chunk ?cs)) = map encode_chunk ?cs"
    by (rule chunks_concat) auto
  also have "decode_chunks (map encode_chunk ?cs) = concat ?cs"
    using chunks_short [of 3 _ bs] by (intro decode_chunks_encoded) auto
  finally show ?thesis by (simp add: concat_chunks)
qed

section \<open>Tokens that verify\<close>

lemma b64_table_dot: "list_all (\<lambda>i. b64_chars ! i \<noteq> CHR ''.'') [0..<64]"
  by (simp add: b64_chars_def upt_rec)

lemma b64_char_dot: "b64_char n \<noteq> CHR ''.''"
proof -
  have "unat (n AND 63) \<in> set [0..<64]" using sextet_less [of n] by simp
  with b64_table_dot show ?thesis unfolding list_all_iff b64_char_def by blast
qed

lemma dot_notin_encode [simp]: "CHR ''.'' \<notin> set (base64url_encode bs)"
proof -
  have "CHR ''.'' \<notin> set (encode_chunk xs)" for xs
    by (simp add: encode_chunk_def Let_def b64_char_dot b64_char_dot [symmetric])
  moreover have "to_url c = CHR ''.'' \<Longrightarrow> c = CHR ''.''" for c by (simp add: to_url_def split: if_splits)
  ultimately show ?thesis by (fastforce simp: base64url_encode_def url_text)
qed

lemma splitn_3:
  assumes "c \<notin> set a" and "c \<notin> set b"
  shows "splitn 3 c (a @ c # b @ c # s) = [a, b, s]"
  using assms by (simp add: numeral_3_eq_3 split_once_fresh)

lemma u64_to_le_inject [simp]: "u64_to_le x = u64_to_le y \<longleftrightarrow> x = y"
proof
  assume eq: "u64_to_le x = u64_to_le y"
  show "x = y"
  proof (rule bit_word_eqI)
    fix n assume n: "n < LENGTH(64)"
    then have "n div 8 < 8" by simp
    then have "u64_to_le x ! (n div 8) = ucast (drop_bit (8 * (n div 8)) x)"
      "u64_to_le y ! (n div 8) = ucast (drop_bit (8 * (n div 8)) y)"
      by (simp_all add: u64_to_le_def)
    with eq have "(ucast (drop_bit (8 * (n div 8)) x) :: u8) = ucast (drop_bit (8 * (n div 8)) y)" by simp
    then have "bit (ucast (drop_bit (8 * (n div 8)) x) :: u8) (n mod 8) = bit (ucast (drop_bit (8 * (n div 8)) y) :: u8) (n mod 8)"
      by simp
    then show "bit x n = bit y n" by (simp add: bit_simps)
  qed
qed simp

lemma length_u64_to_le [simp]: "length (u64_to_le h) = 8"
  by (simp add: u64_to_le_def)

lemma hmac_inject [simp]: "hmac_sha256 lib k d = hmac_sha256 lib k' d' \<longleftrightarrow> tl_hash lib k d = tl_hash lib k' d'"
  by (simp add: hmac_sha256_def numeral_eq_Suc)

definition token_message :: "token_lib \<Rightarrow> nat \<Rightarrow> string \<Rightarrow> bytes" where
  "token_message lib now username =
     as_bytes (token_header @ ''.'' @ base64url_encode (tl_to_json lib \<lparr>gc_sub = username, gc_exp = now + 86400\<rparr>))"

lemma created_token_verifies:
  assumes json: "\<And>c. tl_from_json lib (tl_to_json lib c) = Some c" and "create_token lib now secret u = Ok t"
  shows "gw_verify_token lib later key t =
    (if tl_hash lib key (token_message lib now u) \<noteq> tl_hash lib secret (token_message lib now u)
     then Err ''invalid token signature''
     else if now + 86400 < later then Err ''token expired'' else Ok u)"
proof -
  let ?p = "base64url_encode (tl_to_json lib \<lparr>gc_sub = u, gc_exp = now + 86400\<rparr>)"
  have t: "t = token_header @ CHR ''.'' # ?p @ CHR ''.'' # base64url_encode (hmac_sha256 lib secret (token_message lib now u))"
    using assms(2) by (simp add: create_token_def token_message_def Let_def split: if_splits)
  have "splitn 3 CHR ''.'' t = [token_header, ?p, base64url_encode (hmac_sha256 lib secret (token_message lib now u))]"
    unfolding t by (rule splitn_3) (simp_all add: token_header_def)
  then show ?thesis
    by (simp add: gw_verify_token_def Let_def json token_message_def)
qed

lemma create_token_Ok: "now + 86400 < 2 ^ 64 \<Longrightarrow> \<exists>t. create_token lib now secret u = Ok t"
  by (simp add: create_token_def Let_def)

lemma login_session:
  assumes "\<And>c. tl_from_json lib (tl_to_json lib c) = Some c" and "now + 86400 < 2 ^ 64"
  shows "case gw_login lib env now secret u p of
      Ok t \<Rightarrow> u = runwrap_or ''admin'' (env ''ADMIN_USER'') \<and> p = runwrap_or ''changeme'' (env ''ADMIN_PASS'')
        \<and> require_auth lib later secret (Some (''Bearer '' @ t)) = (if later \<le> now + 86400 then Ok () else Err 401)
    | Err e \<Rightarrow> e = 401 \<and> (u \<noteq> runwrap_or ''admin'' (env ''ADMIN_USER'') \<or> p \<noteq> runwrap_or ''changeme'' (env ''ADMIN_PASS''))
    | Panic \<Rightarrow> False"
proof -
  obtain t where t: "create_token lib now secret u = Ok t" using create_token_Ok [OF assms(2)] by blast
  have "require_auth lib later secret (Some (''Bearer '' @ t)) = (if later \<le> now + 86400 then Ok () else Err 401)"
    using created_token_verifies [OF assms(1) t, of later secret] by (simp add: require_auth_def)
  with t show ?thesis
    by (cases "u = runwrap_or ''admin'' (env ''ADMIN_USER'') \<and> p = runwrap_or ''changeme'' (env ''ADMIN_PASS'')")
      (auto simp: gw_login_def)
qed

text \<open>
  What the signature does not protect: 32 bytes of signature carry the 8 bytes of the hash four times.
\<close>

lemma signature_repeats: "drop 8 (hmac_sha256 lib k d) = take 24 (hmac_sha256 lib k d)"
  by (simp add: hmac_sha256_def numeral_eq_Suc del: take_Suc_Cons drop_Suc_Cons)

end
