(* ===== verification/GatewayRoutes.thy ===== *)
theory GatewayRoutes
  imports GatewayAuth
begin

text \<open>
  The routes of the API gateway, \<^verbatim>\<open>services/api-gateway/src/main.rs\<close>, and of the policy
  manager behind it, \<^verbatim>\<open>services/policy-manager/src/api/mod.rs\<close>: which operation a path and a
  method stand for, the request the gateway sends on, and what it answers. A request is taken with the
  segments of its path already decoded, as \<^verbatim>\<open>axum\<close> hands them over; sending a request on is
  an argument.
\<close>

section \<open>Operations and patterns\<close>

datatype api_call =
    ListEndpoints | EndpointByMac string | GetEndpoint string
  | AllowEndpoint string | BlockEndpoint string | QuarantineEndpoint string
  | AssignPolicy string | SetExempt string
  | ListPolicies | CreatePolicy | EvaluatePolicies
  | GetPolicy string | UpdatePolicy string | DeletePolicy string
  | ListAudit | GetStats
  | ListUsers | CreateUser | DeleteUser string | ChangePassword string | SetUserEnabled string string
  | ListHosts | ListIpRules | CreateIpRule | DeleteIpRule string | SetIpRuleEnabled string string

datatype http_method = Get | Post | Put | Delete

datatype segment = Lit string | Param

text \<open>
  A pattern matches segment by segment and collects the parameters, which are not empty. In both
  tables a pattern with a fixed segment stands before the patterns with a parameter in its place, so
  that the first match is the one that \<^verbatim>\<open>axum\<close> prefers.
\<close>

fun seg_match :: "segment list \<Rightarrow> string list \<Rightarrow> string list option" where
  "seg_match [] [] = Some []"
| "seg_match (Lit l # ss) (p # ps) = (if l = p then seg_match ss ps else None)"
| "seg_match (Param # ss) (p # ps) = (if p = [] then None else map_option ((#) p) (seg_match ss ps))"
| "seg_match _ _ = None"

type_synonym route = "segment list \<times> (http_method \<times> (string list \<Rightarrow> api_call)) list"

fun find_route :: "route list \<Rightarrow> string list \<Rightarrow> ((http_method \<times> (string list \<Rightarrow> api_call)) list \<times> string list) option" where
  "find_route [] ps = None"
| "find_route ((pat, methods) # rs) ps =
     (case seg_match pat ps of Some xs \<Rightarrow> Some (methods, xs) | None \<Rightarrow> find_route rs ps)"

definition gw_routes :: "route list" where
  "gw_routes =
    [([Lit ''endpoints''], [(Get, \<lambda>_. ListEndpoints)]),
     ([Lit ''endpoints'', Lit ''mac'', Param], [(Get, \<lambda>xs. EndpointByMac (xs ! 0))]),
     ([Lit ''endpoints'', Param], [(Get, \<lambda>xs. GetEndpoint (xs ! 0))]),
     ([Lit ''endpoints'', Param, Lit ''allow''], [(Post, \<lambda>xs. AllowEndpoint (xs ! 0))]),
     ([Lit ''endpoints'', Param, Lit ''block''], [(Post, \<lambda>xs. BlockEndpoint (xs ! 0))]),
     ([Lit ''endpoints'', Param, Lit ''quarantine''], [(Post, \<lambda>xs. QuarantineEndpoint (xs ! 0))]),
     ([Lit ''endpoints'', Param, Lit ''policy''], [(Post, \<lambda>xs. AssignPolicy (xs ! 0))]),
     ([Lit ''endpoints'', Param, Lit ''exempt''], [(Post, \<lambda>xs. SetExempt (xs ! 0))]),
     ([Lit ''policies''], [(Get, \<lambda>_. ListPolicies), (Post, \<lambda>_. CreatePolicy)]),
     ([Lit ''policies'', Lit ''evaluate''], [(Post, \<lambda>_. EvaluatePolicies)]),
     ([Lit ''policies'', Param],
        [(Get, \<lambda>xs. GetPolicy (xs ! 0)), (Put, \<lambda>xs. UpdatePolicy (xs ! 0)), (Delete, \<lambda>xs. DeletePolicy (xs ! 0))]),
     ([Lit ''audit''], [(Get, \<lambda>_. ListAudit)]),
     ([Lit ''stats''], [(Get, \<lambda>_. GetStats)]),
     ([Lit ''users''], [(Get, \<lambda>_. ListUsers), (Post, \<lambda>_. CreateUser)]),
     ([Lit ''users'', Param], [(Delete, \<lambda>xs. DeleteUser (xs ! 0))]),
     ([Lit ''users'', Param, Lit ''password''], [(Put, \<lambda>xs. ChangePassword (xs ! 0))]),
     ([Lit ''users'', Param, Param], [(Post, \<lambda>xs. SetUserEnabled (xs ! 0) (xs ! 1))]),
     ([Lit ''network'', Lit ''hosts''], [(Get, \<lambda>_. ListHosts)]),
     ([Lit ''network'', Lit ''ip-rules''], [(Get, \<lambda>_. ListIpRules), (Post, \<lambda>_. CreateIpRule)]),
     ([Lit ''network'', Lit ''ip-rules'', Param], [(Delete, \<lambda>xs. DeleteIpRule (xs ! 0))]),
     ([Lit ''network'', Lit ''ip-rules'', Param, Param], [(Post, \<lambda>xs. SetIpRuleEnabled (xs ! 0) (xs ! 1))])]"

definition pm_routes :: "route list" where
  "pm_routes =
    [([Lit ''endpoints''], [(Get, \<lambda>_. ListEndpoints)]),
     ([Lit ''endpoints'', Lit ''mac'', Param], [(Get, \<lambda>xs. EndpointByMac (xs ! 0))]),
     ([Lit ''endpoints'', Param], [(Get, \<lambda>xs. GetEndpoint (xs ! 0))]),
     ([Lit ''endpoints'', Param, Lit ''allow''], [(Post, \<lambda>xs. AllowEndpoint (xs ! 0))]),
     ([Lit ''endpoints'', Param, Lit ''block''], [(Post, \<lambda>xs. BlockEndpoint (xs ! 0))]),
     ([Lit ''endpoints'', Param, Lit ''quarantine''], [(Post, \<lambda>xs. QuarantineEndpoint (xs ! 0))]),
     ([Lit ''endpoints'', Param, Lit ''policy''], [(Post, \<lambda>xs. AssignPolicy (xs ! 0))]),
     ([Lit ''endpoints'', Param, Lit ''exempt''], [(Post, \<lambda>xs. SetExempt (xs ! 0))]),
     ([Lit ''policies''], [(Get, \<lambda>_. ListPolicies), (Post, \<lambda>_. CreatePolicy)]),
     ([Lit ''policies'', Lit ''evaluate''], [(Post, \<lambda>_. EvaluatePolicies)]),
     ([Lit ''policies'', Param],
        [(Get, \<lambda>xs. GetPolicy (xs ! 0)), (Put, \<lambda>xs. UpdatePolicy (xs ! 0)), (Delete, \<lambda>xs. DeletePolicy (xs ! 0))]),
     ([Lit ''network'', Lit ''hosts''], [(Get, \<lambda>_. ListHosts)]),
     ([Lit ''network'', Lit ''ip-rules''], [(Get, \<lambda>_. ListIpRules), (Post, \<lambda>_. CreateIpRule)]),
     ([Lit ''network'', Lit ''ip-rules'', Param], [(Delete, \<lambda>xs. DeleteIpRule (xs ! 0))]),
     ([Lit ''network'', Lit ''ip-rules'', Param, Param], [(Post, \<lambda>xs. SetIpRuleEnabled (xs ! 0) (xs ! 1))]),
     ([Lit ''audit''], [(Get, \<lambda>_. ListAudit)]),
     ([Lit ''stats''], [(Get, \<lambda>_. GetStats)]),
     ([Lit ''users''], [(Get, \<lambda>_. ListUsers), (Post, \<lambda>_. CreateUser)]),
     ([Lit ''users'', Param], [(Delete, \<lambda>xs. DeleteUser (xs ! 0))]),
     ([Lit ''users'', Param, Lit ''password''], [(Put, \<lambda>xs. ChangePassword (xs ! 0))]),
     ([Lit ''users'', Param, Param], [(Post, \<lambda>xs. SetUserEnabled (xs ! 0) (xs ! 1))])]"

text \<open>The status 404 for a path without a route, 405 for a route without the method.\<close>

definition route_call :: "route list \<Rightarrow> http_method \<Rightarrow> string list \<Rightarrow> (nat, api_call) rust" where
  "route_call table m ps =
     (case find_route table ps of
        None \<Rightarrow> Err 404
      | Some (methods, xs) \<Rightarrow> (case map_of methods m of None \<Rightarrow> Err 405 | Some call \<Rightarrow> Ok (call xs)))"

section \<open>The request that is sent on\<close>

definition build_query_string :: "(string \<times> string) list \<Rightarrow> string" where
  "build_query_string params =
     (if params = [] then []
      else ''?'' @ join ''&'' (map (\<lambda>(k, v). k @ ''='' @ v) params))"

text \<open>The method, the path and, for the calls that pass a body on, the body.\<close>

type_synonym upstream = "http_method \<times> string \<times> bytes option"

definition gw_list_endpoints :: upstream where
  "gw_list_endpoints = (Get, ''/api/v1/endpoints'', None)"

definition gw_allow_endpoint :: "string \<Rightarrow> upstream" where
  "gw_allow_endpoint i = (Post, ''/api/v1/endpoints/'' @ i @ ''/allow'', None)"

definition gw_block_endpoint :: "string \<Rightarrow> upstream" where
  "gw_block_endpoint i = (Post, ''/api/v1/endpoints/'' @ i @ ''/block'', None)"

definition gw_quarantine_endpoint :: "string \<Rightarrow> upstream" where
  "gw_quarantine_endpoint i = (Post, ''/api/v1/endpoints/'' @ i @ ''/quarantine'', None)"

definition gw_assign_policy :: "string \<Rightarrow> bytes \<Rightarrow> upstream" where
  "gw_assign_policy i body = (Post, ''/api/v1/endpoints/'' @ i @ ''/policy'', Some body)"

definition gw_set_exempt :: "string \<Rightarrow> bytes \<Rightarrow> upstream" where
  "gw_set_exempt i body = (Post, ''/api/v1/endpoints/'' @ i @ ''/exempt'', Some body)"

definition gw_list_policies :: upstream where
  "gw_list_policies = (Get, ''/api/v1/policies'', None)"

definition gw_evaluate_policies :: "bytes \<Rightarrow> upstream" where
  "gw_evaluate_policies body = (Post, ''/api/v1/policies/evaluate'', Some body)"

definition gw_create_policy :: "bytes \<Rightarrow> upstream" where
  "gw_create_policy body = (Post, ''/api/v1/policies'', Some body)"

definition gw_update_policy :: "string \<Rightarrow> bytes \<Rightarrow> upstream" where
  "gw_update_policy i body = (Put, ''/api/v1/policies/'' @ i, Some body)"

definition gw_delete_policy :: "string \<Rightarrow> upstream" where
  "gw_delete_policy i = (Delete, ''/api/v1/policies/'' @ i, None)"

definition gw_list_audit :: "(string \<times> string) list \<Rightarrow> upstream" where
  "gw_list_audit q = (Get, ''/api/v1/audit'' @ build_query_string q, None)"

definition gw_get_stats :: upstream where
  "gw_get_stats = (Get, ''/api/v1/stats'', None)"

definition gw_get_endpoint :: "string \<Rightarrow> upstream" where
  "gw_get_endpoint i = (Get, ''/api/v1/endpoints/'' @ i, None)"

definition gw_get_endpoint_by_mac :: "string \<Rightarrow> upstream" where
  "gw_get_endpoint_by_mac m = (Get, ''/api/v1/endpoints/mac/'' @ m, None)"

definition gw_get_policy :: "string \<Rightarrow> upstream" where
  "gw_get_policy i = (Get, ''/api/v1/policies/'' @ i, None)"

definition gw_list_users :: upstream where
  "gw_list_users = (Get, ''/api/v1/users'', None)"

definition gw_create_user :: "bytes \<Rightarrow> upstream" where
  "gw_create_user body = (Post, ''/api/v1/users'', Some body)"

definition gw_delete_user :: "string \<Rightarrow> upstream" where
  "gw_delete_user i = (Delete, ''/api/v1/users/'' @ i, None)"

definition gw_change_password :: "string \<Rightarrow> bytes \<Rightarrow> upstream" where
  "gw_change_password i body = (Put, ''/api/v1/users/'' @ i @ ''/password'', Some body)"

definition gw_set_user_enabled :: "string \<Rightarrow> string \<Rightarrow> upstream" where
  "gw_set_user_enabled i a = (Post, ''/api/v1/users/'' @ i @ ''/'' @ a, None)"

definition gw_list_network_hosts :: "(string \<times> string) list \<Rightarrow> upstream" where
  "gw_list_network_hosts q = (Get, ''/api/v1/network/hosts'' @ build_query_string q, None)"

definition gw_list_ip_rules :: upstream where
  "gw_list_ip_rules = (Get, ''/api/v1/network/ip-rules'', None)"

definition gw_create_ip_rule :: "bytes \<Rightarrow> upstream" where
  "gw_create_ip_rule body = (Post, ''/api/v1/network/ip-rules'', Some body)"

definition gw_delete_ip_rule :: "string \<Rightarrow> upstream" where
  "gw_delete_ip_rule i = (Delete, ''/api/v1/network/ip-rules/'' @ i, None)"

definition gw_set_ip_rule_enabled :: "string \<Rightarrow> string \<Rightarrow> upstream" where
  "gw_set_ip_rule_enabled i a = (Post, ''/api/v1/network/ip-rules/'' @ i @ ''/'' @ a, None)"

fun forward :: "api_call \<Rightarrow> (string \<times> string) list \<Rightarrow> bytes \<Rightarrow> upstream" where
  "forward ListEndpoints q body = gw_list_endpoints"
| "forward (AllowEndpoint i) q body = gw_allow_endpoint i"
| "forward (BlockEndpoint i) q body = gw_block_endpoint i"
| "forward (QuarantineEndpoint i) q body = gw_quarantine_endpoint i"
| "forward (AssignPolicy i) q body = gw_assign_policy i body"
| "forward (SetExempt i) q body = gw_set_exempt i body"
| "forward ListPolicies q body = gw_list_policies"
| "forward EvaluatePolicies q body = gw_evaluate_policies body"
| "forward CreatePolicy q body = gw_create_policy body"
| "forward (UpdatePolicy i) q body = gw_update_policy i body"
| "forward (DeletePolicy i) q body = gw_delete_policy i"
| "forward ListAudit q body = gw_list_audit q"
| "forward GetStats q body = gw_get_stats"
| "forward (GetEndpoint i) q body = gw_get_endpoint i"
| "forward (EndpointByMac m) q body = gw_get_endpoint_by_mac m"
| "forward (GetPolicy i) q body = gw_get_policy i"
| "forward ListUsers q body = gw_list_users"
| "forward CreateUser q body = gw_create_user body"
| "forward (DeleteUser i) q body = gw_delete_user i"
| "forward (ChangePassword i) q body = gw_change_password i body"
| "forward (SetUserEnabled i a) q body = gw_set_user_enabled i a"
| "forward ListHosts q body = gw_list_network_hosts q"
| "forward ListIpRules q body = gw_list_ip_rules"
| "forward CreateIpRule q body = gw_create_ip_rule body"
| "forward (DeleteIpRule i) q body = gw_delete_ip_rule i"
| "forward (SetIpRuleEnabled i a) q body = gw_set_ip_rule_enabled i a"

lemmas gw_handlers = gw_list_endpoints_def gw_allow_endpoint_def gw_block_endpoint_def gw_quarantine_endpoint_def
  gw_assign_policy_def gw_set_exempt_def gw_list_policies_def gw_evaluate_policies_def
  gw_create_policy_def gw_update_policy_def gw_delete_policy_def gw_list_audit_def
  gw_get_stats_def gw_get_endpoint_def gw_get_endpoint_by_mac_def gw_get_policy_def
  gw_list_users_def gw_create_user_def gw_delete_user_def gw_change_password_def
  gw_set_user_enabled_def gw_list_network_hosts_def gw_list_ip_rules_def gw_create_ip_rule_def
  gw_delete_ip_rule_def gw_set_ip_rule_enabled_def

text \<open>
  Sending gives nothing when the request fails, and otherwise a status and the body unless reading it
  fails.
\<close>

type_synonym send_on = "http_method \<Rightarrow> string \<Rightarrow> bytes option \<Rightarrow> (nat \<times> bytes option) option"

definition proxy :: "string \<Rightarrow> send_on \<Rightarrow> upstream \<Rightarrow> (nat, nat \<times> bytes) rust" where
  "proxy base send u =
     (case u of (m, path, body) \<Rightarrow>
       (case send m (base @ path) body of
          None \<Rightarrow> Err 502
        | Some (status, None) \<Rightarrow> Err 502
        | Some (status, Some b) \<Rightarrow> Ok (status, b)))"

record gw_request =
  gq_method :: http_method
  gq_path :: "string list"
  gq_query :: "(string \<times> string) list"
  gq_body :: bytes
  gq_authorization :: "string option"

text \<open>A request below \<^verbatim>\<open>/api\<close>: the middleware stands between the route and its method.\<close>

definition gw_serve ::
  "token_lib \<Rightarrow> nat \<Rightarrow> bytes \<Rightarrow> string \<Rightarrow> send_on \<Rightarrow> gw_request \<Rightarrow> (nat, nat \<times> bytes) rust" where
  "gw_serve lib now secret base send req =
     (if find_route gw_routes (gq_path req) = None then Err 404
      else rbind (require_auth lib now secret (gq_authorization req)) (\<lambda>_.
           rbind (route_call gw_routes (gq_method req) (gq_path req)) (\<lambda>call.
             proxy base send (forward call (gq_query req) (gq_body req)))))"

section \<open>Both routers agree\<close>

text \<open>A segment that a URL carries as it is.\<close>

definition plain_segment :: "string \<Rightarrow> bool" where
  "plain_segment s \<longleftrightarrow> s \<noteq> [] \<and> list_all (\<lambda>c. is_upper_ascii c \<or> is_lower_ascii c \<or> is_digit_ascii c \<or>
     c \<in> {CHR ''-'', CHR ''_'', CHR '':''}) s"

text \<open>What the policy manager makes of the path of a request that was sent on.\<close>

definition pm_segments :: "string \<Rightarrow> string list option" where
  "pm_segments path = map_option (split_on CHR ''/'') (strip_prefix ''/api/v1/'' (before_char CHR ''?'' path))"

definition pm_route_call :: "http_method \<Rightarrow> string \<Rightarrow> (nat, api_call) rust" where
  "pm_route_call m path =
     (case pm_segments path of None \<Rightarrow> Err 404 | Some ps \<Rightarrow> route_call pm_routes m ps)"

lemma plain_segment_chars:
  assumes "plain_segment s"
  shows "CHR ''/'' \<notin> set s" and "CHR ''?'' \<notin> set s" and "s \<noteq> []"
  using assms by (auto simp: plain_segment_def list_all_iff char_class_defs)

text \<open>The tables differ in the order of two groups of rows only, which start with different segments.\<close>

fun starts_in :: "string list \<Rightarrow> segment list \<Rightarrow> bool" where
  "starts_in ls (Lit l # ss) = (l \<in> set ls)"
| "starts_in ls ss = False"

lemma find_route_append:
  "find_route (A @ B) ps = (case find_route A ps of None \<Rightarrow> find_route B ps | Some r \<Rightarrow> Some r)"
  by (induction A ps rule: find_route.induct) (auto split: option.split)

lemma find_route_starts:
  "find_route A ps = Some r \<Longrightarrow> list_all (\<lambda>row. starts_in ls (fst row)) A \<Longrightarrow> ps \<noteq> [] \<and> hd ps \<in> set ls"
proof (induction A ps rule: find_route.induct)
  case (2 pat methods rs ps)
  then show ?case
    by (cases pat; cases ps; cases "hd pat") (auto split: option.splits if_splits)
qed simp

lemma find_route_swap:
  assumes "list_all (\<lambda>row. starts_in ls (fst row)) A" and "list_all (\<lambda>row. starts_in ms (fst row)) B"
    and "set ls \<inter> set ms = {}"
  shows "find_route (A @ B) ps = find_route (B @ A) ps"
  using find_route_starts [OF _ assms(1), of ps] find_route_starts [OF _ assms(2), of ps] assms(3)
  by (fastforce simp: find_route_append split: option.split)

lemma routes_agree: "find_route gw_routes ps = find_route pm_routes ps"
proof -
  let ?C = "take 11 gw_routes" and ?X = "take 6 (drop 11 gw_routes)" and ?N = "drop 17 gw_routes"
  have "gw_routes = ?C @ ?X @ ?N" "pm_routes = ?C @ ?N @ ?X" by (simp_all add: gw_routes_def pm_routes_def)
  moreover have "find_route (?X @ ?N) ps = find_route (?N @ ?X) ps"
    by (rule find_route_swap [of "[''audit'', ''stats'', ''users'']" _ "[''network'']"]) (simp_all add: gw_routes_def)
  ultimately show ?thesis by (metis find_route_append)
qed

lemma seg_match_Some [simp]:
  "seg_match [] ps = Some xs \<longleftrightarrow> ps = [] \<and> xs = []"
  "seg_match (Lit l # ss) ps = Some xs \<longleftrightarrow> (\<exists>qs. ps = l # qs \<and> seg_match ss qs = Some xs)"
  "seg_match (Param # ss) ps = Some xs \<longleftrightarrow> (\<exists>p qs ys. ps = p # qs \<and> p \<noteq> [] \<and> seg_match ss qs = Some ys \<and> xs = p # ys)"
  by (cases ps; auto)+

lemma find_route_row:
  "find_route table ps = Some (methods, xs) \<Longrightarrow> \<exists>pat. (pat, methods) \<in> set table \<and> seg_match pat ps = Some xs"
  by (induction table ps rule: find_route.induct) (auto split: option.splits)

lemma route_call_row:
  "route_call table m ps = Ok c \<Longrightarrow>
    \<exists>pat methods xs call. (pat, methods) \<in> set table \<and> seg_match pat ps = Some xs \<and> map_of methods m = Some call \<and> c = call xs"
  by (auto simp: route_call_def dest!: find_route_row split: option.splits) blast

lemma query_text: "build_query_string q = [] \<or> (\<exists>t. build_query_string q = CHR ''?'' # t)"
  by (simp add: build_query_string_def)

lemma before_query: "CHR ''?'' \<notin> set a \<Longrightarrow> before_char CHR ''?'' (a @ build_query_string q) = a"
proof -
  assume a: "CHR ''?'' \<notin> set a"
  then have "\<forall>x \<in> set a. x \<noteq> CHR ''?''" by auto
  then have "takeWhile (\<lambda>x. x \<noteq> CHR ''?'') (a @ CHR ''?'' # t) = a" for t
    by (subst takeWhile_append2) simp_all
  with a query_text [of q] show ?thesis
    by (metis append_Nil2 before_char_no_sep before_char_takeWhile)
qed

definition path_of :: "string list \<Rightarrow> string" where
  "path_of ps = ''/api/v1/'' @ join ''/'' ps"

lemma pm_segments_path:
  assumes "ps \<noteq> []" and "list_all plain_segment ps"
  shows "pm_segments (path_of ps @ build_query_string q) = Some ps"
proof -
  have ok: "CHR ''/'' \<notin> set p \<and> CHR ''?'' \<notin> set p" if "p \<in> set ps" for p
    using assms(2) that plain_segment_chars by (auto simp: list_all_iff)
  have "CHR ''?'' \<notin> set (join ''/'' ps)"
    using ok by (induction ps rule: induct_list012) (auto simp: join.simps)
  then have "before_char CHR ''?'' (path_of ps @ build_query_string q) = path_of ps"
    by (intro before_query) (simp add: path_of_def)
  then show ?thesis
    using split_on_join [of ps "CHR ''/''"] ok assms(1) by (simp add: pm_segments_def path_of_def)
qed

lemma forward_row:
  assumes "(pat, methods) \<in> set gw_routes" and "seg_match pat ps = Some xs" and "(m, call) \<in> set methods"
  shows "fst (forward (call xs) q b) = m \<and> fst (snd (forward (call xs) q b)) \<in> {path_of ps, path_of ps @ build_query_string q}"
  using assms unfolding gw_routes_def list.set
  by (elim insertE emptyE; clarsimp simp: path_of_def gw_handlers; elim disjE; clarsimp simp: path_of_def gw_handlers)

lemma forward_path:
  assumes "route_call gw_routes m ps = Ok c"
  shows "fst (forward c q b) = m \<and> fst (snd (forward c q b)) \<in> {path_of ps, path_of ps @ build_query_string q}"
proof -
  obtain pat methods xs call where row: "(pat, methods) \<in> set gw_routes" "seg_match pat ps = Some xs"
    "map_of methods m = Some call" "c = call xs"
    using route_call_row [OF assms] by blast
  then have "(m, call) \<in> set methods" by (blast dest: map_of_SomeD)
  with row forward_row show ?thesis by metis
qed

lemma route_call_nonempty: "route_call gw_routes m ps = Ok c \<Longrightarrow> ps \<noteq> []"
  by (auto simp: route_call_def gw_routes_def)

lemma routers_agree:
  assumes "route_call gw_routes m ps = Ok c" and "list_all plain_segment ps"
  shows "\<exists>path body'. forward c q b = (m, path, body') \<and> pm_route_call m path = Ok c"
proof -
  have pm: "route_call pm_routes m ps = Ok c" using assms(1) by (simp add: route_call_def routes_agree)
  have ps: "ps \<noteq> []" using assms(1) by (rule route_call_nonempty)
  have "pm_segments (fst (snd (forward c q b))) = Some ps"
    using forward_path [OF assms(1), of q b] pm_segments_path [OF ps assms(2), of q]
      pm_segments_path [OF ps assms(2), of "[]"]
    by (auto simp: build_query_string_def)
  then have "pm_route_call m (fst (snd (forward c q b))) = Ok c" by (simp add: pm_route_call_def pm)
  with forward_path [OF assms(1), of q b] show ?thesis by (metis prod.collapse)
qed

text \<open>
  What the gateway lets happen: nothing is sent on without a token, and what is sent on is the routed
  call.
\<close>

lemma serve_needs_token:
  "gw_serve lib now secret base send req =
     (case find_route gw_routes (gq_path req) of None \<Rightarrow> Err 404
      | Some _ \<Rightarrow>
        (case require_auth lib now secret (gq_authorization req) of
           Ok _ \<Rightarrow> (case route_call gw_routes (gq_method req) (gq_path req) of
                      Ok call \<Rightarrow> proxy base send (forward call (gq_query req) (gq_body req))
                    | Err e \<Rightarrow> Err e | Panic \<Rightarrow> Panic)
         | Err e \<Rightarrow> Err e | Panic \<Rightarrow> Panic))"
  by (auto simp: gw_serve_def split: option.split rust.split)

text \<open>The filters of a listing of devices are not passed on, and the parameters of the other listings are not encoded.\<close>

lemma listing_filters_lost: "forward ListEndpoints q b = forward ListEndpoints [] b'"
  by simp

lemma parameter_injected:
  "build_query_string [(''offset'', ''0&endpoint_id=x'')] = build_query_string [(''offset'', ''0''), (''endpoint_id'', ''x'')]"
  by (simp add: build_query_string_def)

end
