(* ===== verification/Sensor.thy ===== *)
theory Sensor
  imports NetArp NetDhcp MacText Fingerprint PmConsumer
begin

text \<open>
  The sensor, \<^verbatim>\<open>services/sensor/src\<close>: which captured frames it reports, and as what. The
  capture (\<^verbatim>\<open>pnet\<close>) is an argument: what it received, one result after the other, and how
  it takes the layers of a frame apart. The events are the ones the consumer of the policy manager
  reads.
\<close>

section \<open>The capture library\<close>

record interface =
  if_name :: string
  if_loopback :: bool
  if_up :: bool
  if_has_ips :: bool

text \<open>
  Each layer gives its discriminating number (Ethernet type, protocol, destination port) and its
  payload, or nothing when the buffer is too short for the header.
\<close>

record pnet =
  pn_ethernet :: "bytes \<Rightarrow> (u16 \<times> bytes) option"
  pn_arp :: "bytes \<Rightarrow> (mac6 \<times> ipv4 \<times> ipv4) option"
  pn_ipv4 :: "bytes \<Rightarrow> (u8 \<times> bytes) option"
  pn_udp :: "bytes \<Rightarrow> (u16 \<times> bytes) option"

definition list_physical_interfaces :: "interface list \<Rightarrow> interface list" where
  "list_physical_interfaces ifs =
     filter (\<lambda>i. \<not> if_loopback i \<and> if_up i \<and> \<not> starts_with ''docker'' (if_name i)
       \<and> \<not> starts_with ''br-'' (if_name i) \<and> \<not> starts_with ''veth'' (if_name i) \<and> if_has_ips i) ifs"

section \<open>ARP\<close>

record arp_event =
  av_mac_address :: string
  av_ip_address :: ipv4
  av_interface :: string
  av_is_gratuitous :: bool

text \<open>One received frame: an event, or nothing where the loop goes on to the next frame.\<close>

definition arp_frame_event :: "pnet \<Rightarrow> string \<Rightarrow> bytes \<Rightarrow> arp_event option" where
  "arp_frame_event pn iface frame =
     (case pn_ethernet pn frame of
        None \<Rightarrow> None
      | Some (ethertype, payload) \<Rightarrow>
          if ethertype \<noteq> 0x0806 then None
          else (case pn_arp pn payload of
                  None \<Rightarrow> None
                | Some (sender_hw, sender_proto, target_proto) \<Rightarrow>
                    if sender_proto = ipv4_unspecified then None
                    else Some \<lparr>av_mac_address = format_mac sender_hw, av_ip_address = sender_proto,
                               av_interface = iface, av_is_gratuitous = (sender_proto = target_proto)\<rparr>))"

text \<open>
  The loop over the results of the capture, \<open>None\<close> for an error. Sending on the channel succeeds unless
  the receiver is gone, which ends the loop; \<open>sends\<close> are the outcomes, and sending succeeds after them.
\<close>

fun snoop_loop :: "(bytes \<Rightarrow> 'e option) \<Rightarrow> bytes option list \<Rightarrow> bool list \<Rightarrow> 'e list" where
  "snoop_loop ev [] sends = []"
| "snoop_loop ev (None # rs) sends = snoop_loop ev rs sends"
| "snoop_loop ev (Some frame # rs) sends =
     (case ev frame of
        None \<Rightarrow> snoop_loop ev rs sends
      | Some e \<Rightarrow>
          (case sends of
             False # _ \<Rightarrow> []
           | _ \<Rightarrow> e # snoop_loop ev rs (tl sends)))"

text \<open>The interface is looked up by name; \<open>opened\<close> tells whether an Ethernet channel was opened.\<close>

definition snoop ::
  "(bytes \<Rightarrow> 'e option) \<Rightarrow> interface list \<Rightarrow> string \<Rightarrow> bool \<Rightarrow> bytes option list \<Rightarrow> bool list \<Rightarrow> (string, 'e list) rust"
where
  "snoop ev ifs iface_name opened results sends =
     (case List.find (\<lambda>i. if_name i = iface_name) ifs of
        None \<Rightarrow> Err (''interface not found'')
      | Some _ \<Rightarrow> if \<not> opened then Err ''channel'' else Ok (snoop_loop ev results sends))"

definition arp_snoop ::
  "pnet \<Rightarrow> interface list \<Rightarrow> string \<Rightarrow> bool \<Rightarrow> bytes option list \<Rightarrow> bool list \<Rightarrow> (string, arp_event list) rust"
where
  "arp_snoop pn ifs iface = snoop (arp_frame_event pn iface) ifs iface"

definition arp_nats_event :: "int \<Rightarrow> arp_event \<Rightarrow> endpoint_detected" where
  "arp_nats_event now e =
     \<lparr>de_mac_address = av_mac_address e, de_ip_address = ipv4_to_string (av_ip_address e),
      de_interface = av_interface e, de_source = ''arp'', de_timestamp = now, de_hostname = None,
      de_os_family = None, de_os_version = None, de_device_type = None, de_vendor = None\<rparr>"

section \<open>DHCP\<close>

record dhcp_event =
  dv_mac_address :: string
  dv_hostname :: "string option"
  dv_os_family :: "string option"
  dv_os_version :: "string option"
  dv_device_type :: "string option"
  dv_vendor :: "string option"

fun sensor_oui :: "mac6 \<Rightarrow> string" where
  "sensor_oui (Mac a b c d e f) = fmt_02X a @ fmt_02X b @ fmt_02X c"

definition dhcp_signals :: "dhcp_client_packet \<Rightarrow> signals" where
  "dhcp_signals pkt =
     \<lparr>sg_oui = Some (sensor_oui (client_mac pkt)), sg_dhcp_prl = parameter_request_list pkt,
      sg_user_agent = None, sg_tcp_win_size = None, sg_tcp_options = None, sg_ttl = None\<rparr>"

definition dhcp_payload_event :: "bytes \<Rightarrow> dhcp_event option" where
  "dhcp_payload_event payload =
     (case parse_dhcp_client payload of
        Ok pkt \<Rightarrow>
          if msg_type pkt \<noteq> 1 \<and> msg_type pkt \<noteq> 3 then None
          else (case identify (dhcp_signals pkt) of
                  Ok fp \<Rightarrow> Some \<lparr>dv_mac_address = format_mac (client_mac pkt),
                      dv_hostname = hostname pkt, dv_os_family = fp_os_family fp,
                      dv_os_version = fp_os_version fp, dv_device_type = fp_device_type fp,
                      dv_vendor = fp_vendor fp\<rparr>
                | _ \<Rightarrow> None)
      | _ \<Rightarrow> None)"

definition dhcp_frame_event :: "pnet \<Rightarrow> bytes \<Rightarrow> dhcp_event option" where
  "dhcp_frame_event pn frame =
     (case pn_ethernet pn frame of
        None \<Rightarrow> None
      | Some (ethertype, p1) \<Rightarrow>
          if ethertype \<noteq> 0x0800 then None
          else (case pn_ipv4 pn p1 of
                  None \<Rightarrow> None
                | Some (protocol, p2) \<Rightarrow>
                    if protocol \<noteq> 17 then None
                    else (case pn_udp pn p2 of
                            None \<Rightarrow> None
                          | Some (dest, p3) \<Rightarrow>
                              if dest \<noteq> 67 then None else dhcp_payload_event p3)))"

definition dhcp_snoop ::
  "pnet \<Rightarrow> interface list \<Rightarrow> string \<Rightarrow> bool \<Rightarrow> bytes option list \<Rightarrow> bool list \<Rightarrow> (string, dhcp_event list) rust"
where
  "dhcp_snoop pn ifs iface = snoop (dhcp_frame_event pn) ifs iface"

definition dhcp_nats_event :: "int \<Rightarrow> dhcp_event \<Rightarrow> endpoint_detected" where
  "dhcp_nats_event now e =
     \<lparr>de_mac_address = dv_mac_address e, de_ip_address = [], de_interface = [], de_source = ''dhcp'',
      de_timestamp = now, de_hostname = dv_hostname e, de_os_family = dv_os_family e,
      de_os_version = dv_os_version e, de_device_type = dv_device_type e, de_vendor = dv_vendor e\<rparr>"

section \<open>What is reported\<close>

text \<open>The layout of Ethernet and ARP headers that \<^verbatim>\<open>pnet\<close> reads.\<close>

definition reads_arp :: "pnet \<Rightarrow> bool" where
  "reads_arp pn \<longleftrightarrow>
     (\<forall>dst src rest. length dst = 6 \<longrightarrow> length src = 6 \<longrightarrow>
        pn_ethernet pn (dst @ src @ [0x08, 0x06] @ rest) = Some (0x0806, rest))
     \<and> (\<forall>head m sip tmac tip rest. length head = 8 \<longrightarrow> length tmac = 6 \<longrightarrow>
        pn_arp pn (head @ mac_bytes m @ octets sip @ tmac @ octets tip @ rest) = Some (m, sip, tip))"

lemma crafted_frame_reported:
  assumes "reads_arp pn" and "craft_arp_reply dmac smac sip tmac tip = Ok frame"
  shows "arp_frame_event pn iface frame =
    (if sip = ipv4_unspecified then None
     else Some \<lparr>av_mac_address = format_mac smac, av_ip_address = sip, av_interface = iface,
                av_is_gratuitous = (sip = tip)\<rparr>)"
proof -
  let ?head = "[0x00, 0x01] @ [0x08, 0x00] @ [6] @ [4] @ [0x00, 0x02] :: bytes"
  have frame: "frame = mac_bytes dmac @ mac_bytes smac @ [0x08, 0x06]
      @ ?head @ mac_bytes smac @ octets sip @ mac_bytes tmac @ octets tip @ []"
    using assms(2) by (simp add: craft_arp_reply_def)
  have "pn_ethernet pn frame = Some (0x0806, ?head @ mac_bytes smac @ octets sip @ mac_bytes tmac @ octets tip @ [])"
    using assms(1) unfolding frame reads_arp_def by (simp only: length_mac_bytes simp_thms)
  moreover have "length ?head = 8" by simp
  then have "pn_arp pn (?head @ mac_bytes smac @ octets sip @ mac_bytes tmac @ octets tip @ []) = Some (smac, sip, tip)"
    using assms(1) unfolding reads_arp_def by (metis length_mac_bytes)
  ultimately show ?thesis by (simp add: arp_frame_event_def)
qed

text \<open>Every frame that is reported is an ARP frame or a request of a DHCP client; the reports keep the order.\<close>

lemma snoop_loop_all:
  "snoop_loop ev rs [] = map (\<lambda>f. the (ev f)) (filter (\<lambda>f. ev f \<noteq> None) (map the (filter (\<lambda>r. r \<noteq> None) rs)))"
  by (induction rs) (auto simp: split: option.split)

lemma snoop_loop_prefix: "\<exists>ys. snoop_loop ev rs [] = snoop_loop ev rs sends @ ys"
proof (induction rs arbitrary: sends)
  case (Cons r rs)
  show ?case
  proof (cases r)
    case None
    with Cons show ?thesis by simp
  next
    case (Some frame)
    show ?thesis
    proof (cases "ev frame")
      case None
      with Cons show ?thesis by (simp add: Some)
    next
      case event: (Some e)
      then have "snoop_loop ev (r # rs) sends = [] \<or> snoop_loop ev (r # rs) sends = e # snoop_loop ev rs (tl sends)"
        by (simp add: Some split: list.split bool.split)
      with Cons [of "tl sends"] show ?thesis by (elim disjE) (simp_all add: Some event)
    qed
  qed
qed simp

end
