(* ===== verification/AgentHost.thy ===== *)
theory AgentHost
  imports AgentGateway "HOL-Library.Char_ord" "HOL-Library.List_Lexorder"
begin

text \<open>
  The endpoint agent, \<^verbatim>\<open>services/endpoint-agent/src\<close>: what it collects about its host on each
  platform, its checks, its identity, and the two calls it makes to the agent gateway. The host is an
  argument: its files, directories and environment, the programs it runs, and the readers of JSON text.
\<close>

section \<open>The host\<close>

datatype platform = Linux | Windows | MacOs | OtherOs string

text \<open>
  A file or directory that cannot be read, and a program that cannot be started, is \<open>None\<close>; a program
  that ran gives whether it succeeded and its output as text.
\<close>

record host =
  h_file :: "string \<Rightarrow> string option"
  h_dir :: "string \<Rightarrow> string list option"
  h_run :: "string \<Rightarrow> string list \<Rightarrow> (bool \<times> string) option"
  h_env :: "string \<Rightarrow> string option"
  h_win_list :: "string \<Rightarrow> (string option \<times> string option) list option"
  h_win_one :: "string \<Rightarrow> (string option \<times> string option) option"
  h_mac_apps :: "string \<Rightarrow> (string option \<times> string option) list option"

section \<open>Installed software on Linux\<close>

record dpkg_state =
  dk_result :: "software_item list"
  dk_name :: string
  dk_version :: string
  dk_installed :: bool

definition dpkg_line :: "dpkg_state \<Rightarrow> string \<Rightarrow> dpkg_state" where
  "dpkg_line st line =
     (case strip_prefix ''Package: '' line of
        Some v \<Rightarrow> st\<lparr>dk_name := trim v, dk_version := [], dk_installed := False\<rparr>
      | None \<Rightarrow>
     (case strip_prefix ''Version: '' line of
        Some v \<Rightarrow> st\<lparr>dk_version := trim v\<rparr>
      | None \<Rightarrow>
     (case strip_prefix ''Status: '' line of
        Some v \<Rightarrow> st\<lparr>dk_installed := contains ''install ok installed'' v\<rparr>
      | None \<Rightarrow>
          if line = [] \<and> dk_installed st \<and> dk_name st \<noteq> [] then
            st\<lparr>dk_result := dk_result st @ [\<lparr>sw_name = dk_name st, sw_version = dk_version st\<rparr>]\<rparr>
          else st)))"

definition dpkg_start :: dpkg_state where
  "dpkg_start = \<lparr>dk_result = [], dk_name = [], dk_version = [], dk_installed = False\<rparr>"

definition parse_dpkg_status :: "string \<Rightarrow> software_item list" where
  "parse_dpkg_status content = dk_result (foldl dpkg_line dpkg_start (lines content))"

definition tab :: char where
  "tab = char_of (9 :: nat)"

definition rpm_line :: "string \<Rightarrow> software_item" where
  "rpm_line l =
     (case splitn 2 tab l of
        name # version # _ \<Rightarrow> \<lparr>sw_name = trim name, sw_version = trim version\<rparr>
      | [name] \<Rightarrow> \<lparr>sw_name = trim name, sw_version = []\<rparr>
      | [] \<Rightarrow> \<lparr>sw_name = [], sw_version = []\<rparr>)"

definition linux_collect :: "host \<Rightarrow> software_item list" where
  "linux_collect h =
     (case h_file h ''/var/lib/dpkg/status'' of
        Some status \<Rightarrow> parse_dpkg_status status
      | None \<Rightarrow>
          (case h_run h ''rpm'' [''-qa'', ''--queryformat'', ''%{NAME}'' @ [tab] @ ''%{VERSION}'' @ [newline]] of
             Some (True, out) \<Rightarrow> map rpm_line (filter (\<lambda>l. l \<noteq> []) (lines out))
           | _ \<Rightarrow> []))"

definition has_visible_entry :: "host \<Rightarrow> string \<Rightarrow> bool" where
  "has_visible_entry h dir =
     (case h_dir h dir of None \<Rightarrow> False | Some es \<Rightarrow> list_ex (\<lambda>e. \<not> starts_with ''.'' e) es)"

definition linux_usb :: "host \<Rightarrow> bool" where
  "linux_usb h = has_visible_entry h ''/sys/bus/usb/drivers/usb-storage/''"

definition linux_bt :: "host \<Rightarrow> bool" where
  "linux_bt h = has_visible_entry h ''/sys/class/bluetooth/''"

definition linux_sharing :: "host \<Rightarrow> bool" where
  "linux_sharing h =
     (case h_dir h ''/proc'' of
        None \<Rightarrow> False
      | Some es \<Rightarrow> list_ex (\<lambda>e.
          (case h_file h (''/proc/'' @ e @ ''/comm'') of
             None \<Rightarrow> False
           | Some s \<Rightarrow> trim s \<in> {''smbd'', ''nfsd'', ''nfs-server''})) es)"

section \<open>Windows and macOS\<close>

text \<open>A package without a name is left out; one without a version has the empty one.\<close>

definition named_items :: "(string option \<times> string option) list \<Rightarrow> software_item list" where
  "named_items pkgs =
     List.map_filter (\<lambda>(n, v). map_option (\<lambda>name. \<lparr>sw_name = name, sw_version = runwrap_or [] v\<rparr>) n) pkgs"

definition trim_start :: "string \<Rightarrow> string" where
  "trim_start s = dropWhile is_space s"

text \<open>A path of the registry, and the command that lists the installed packages.\<close>

definition registry_path :: "string list \<Rightarrow> string" where
  "registry_path parts = ''HKLM:'' @ concat (map (\<lambda>x. char_of (92 :: nat) # x) parts)"

definition ps_cmd :: string where
  "ps_cmd = join [newline]
     [[],
      ''        Get-ItemProperty '' @ registry_path
         [''Software'', ''Microsoft'', ''Windows'', ''CurrentVersion'', ''Uninstall'', ''*''] @ '','',
      ''            '' @ registry_path
         [''Software'', ''WOW6432Node'', ''Microsoft'', ''Windows'', ''CurrentVersion'', ''Uninstall'', ''*''] @ '' |'',
      ''            Where-Object DisplayName |'',
      ''            Select-Object DisplayName,DisplayVersion |'',
      ''            ConvertTo-Json -Compress'',
      ''    '']"

definition windows_collect :: "host \<Rightarrow> software_item list" where
  "windows_collect h =
     (case h_run h ''powershell'' [''-NoProfile'', ''-Command'', ps_cmd] of
        Some (True, json) \<Rightarrow>
          named_items
            (if starts_with ''['' (trim_start json) then runwrap_or [] (h_win_list h json)
             else (case h_win_one h json of Some p \<Rightarrow> [p] | None \<Rightarrow> []))
      | _ \<Rightarrow> [])"

definition says_true :: "(bool \<times> string) option \<Rightarrow> bool" where
  "says_true out = (case out of None \<Rightarrow> False | Some (_, s) \<Rightarrow> trim s = ''True'')"

definition powershell :: "host \<Rightarrow> string \<Rightarrow> (bool \<times> string) option" where
  "powershell h cmd = h_run h ''powershell'' [''-NoProfile'', ''-Command'', cmd]"

text \<open>An apostrophe, which the queries quote with.\<close>

definition quoted :: "string \<Rightarrow> string" where
  "quoted s = [char_of (39 :: nat)] @ s @ [char_of (39 :: nat)]"

definition windows_usb :: "host \<Rightarrow> bool" where
  "windows_usb h = says_true (powershell h
     (''(Get-PnpDevice -Class USB | Where-Object Status -eq OK | Where-Object FriendlyName -like ''
      @ quoted ''*Mass Storage*'' @ '').Count -gt 0''))"

definition windows_bt :: "host \<Rightarrow> bool" where
  "windows_bt h = says_true (powershell h
     ''(Get-PnpDevice -Class Bluetooth | Where-Object Status -eq OK).Count -gt 0'')"

definition windows_sharing :: "host \<Rightarrow> bool" where
  "windows_sharing h = says_true (powershell h
     (''(Get-SmbShare | Where-Object Name -ne '' @ quoted ''IPC$'' @ '').Count -gt 0''))"

definition macos_collect :: "host \<Rightarrow> software_item list" where
  "macos_collect h =
     (case h_run h ''system_profiler'' [''SPApplicationsDataType'', ''-json''] of
        None \<Rightarrow> []
      | Some (_, out) \<Rightarrow> (case h_mac_apps h out of None \<Rightarrow> [] | Some apps \<Rightarrow> named_items apps))"

definition macos_usb :: "host \<Rightarrow> bool" where
  "macos_usb h =
     (case h_run h ''system_profiler'' [''SPUSBDataType''] of
        None \<Rightarrow> False | Some (_, s) \<Rightarrow> contains ''mass storage'' (to_lowercase s))"

definition macos_bt :: "host \<Rightarrow> bool" where
  "macos_bt h =
     (case h_run h ''system_profiler'' [''SPBluetoothDataType''] of
        None \<Rightarrow> False
      | Some (_, o1) \<Rightarrow> (let s = to_lowercase o1 in contains ''state: on'' s \<or> contains ''bluetooth power: on'' s))"

definition macos_sharing :: "host \<Rightarrow> bool" where
  "macos_sharing h =
     (case h_run h ''defaults''
        [''read'', ''/var/db/launchd.db/com.apple.launchd/overrides.plist'', ''com.apple.smbd''] of
        None \<Rightarrow> False | Some (_, s) \<Rightarrow> \<not> contains ''disabled = 1'' (to_lowercase s))"

section \<open>Posture by platform\<close>

fun collect_installed_software :: "platform \<Rightarrow> host \<Rightarrow> software_item list" where
  "collect_installed_software Linux h = linux_collect h"
| "collect_installed_software Windows h = windows_collect h"
| "collect_installed_software MacOs h = macos_collect h"
| "collect_installed_software (OtherOs n) h = []"

fun usb_storage_enabled :: "platform \<Rightarrow> host \<Rightarrow> bool" where
  "usb_storage_enabled Linux h = linux_usb h"
| "usb_storage_enabled Windows h = windows_usb h"
| "usb_storage_enabled MacOs h = macos_usb h"
| "usb_storage_enabled (OtherOs n) h = False"

fun host_bluetooth :: "platform \<Rightarrow> host \<Rightarrow> bool" where
  "host_bluetooth Linux h = linux_bt h"
| "host_bluetooth Windows h = windows_bt h"
| "host_bluetooth MacOs h = macos_bt h"
| "host_bluetooth (OtherOs n) h = False"

fun host_sharing :: "platform \<Rightarrow> host \<Rightarrow> bool" where
  "host_sharing Linux h = linux_sharing h"
| "host_sharing Windows h = windows_sharing h"
| "host_sharing MacOs h = macos_sharing h"
| "host_sharing (OtherOs n) h = False"

section \<open>The hardware address of the host\<close>

definition zero_mac :: string where
  "zero_mac = ''00:00:00:00:00:00''"

definition usable_mac :: "string \<Rightarrow> bool" where
  "usable_mac m \<longleftrightarrow> length m = 17 \<and> m \<noteq> zero_mac"

definition read_linux_mac :: "host \<Rightarrow> string \<Rightarrow> string option" where
  "read_linux_mac h iface =
     (case h_file h (''/sys/class/net/'' @ iface @ ''/address'') of
        None \<Rightarrow> None
      | Some raw \<Rightarrow> (let mac = trim raw in if usable_mac mac then Some mac else None))"

fun first_some :: "('a \<Rightarrow> 'b option) \<Rightarrow> 'a list \<Rightarrow> 'b option" where
  "first_some f [] = None"
| "first_some f (x # xs) = (case f x of Some y \<Rightarrow> Some y | None \<Rightarrow> first_some f xs)"

definition linux_primary_mac :: "host \<Rightarrow> string" where
  "linux_primary_mac h =
     (case first_some (read_linux_mac h) [''eth0'', ''eth1'', ''enp0s3'', ''enp0s8''] of
        Some mac \<Rightarrow> mac
      | None \<Rightarrow>
          (case h_dir h ''/sys/class/net'' of
             None \<Rightarrow> []
           | Some entries \<Rightarrow>
               runwrap_or [] (first_some (read_linux_mac h) (sort (filter (\<lambda>n. n \<noteq> ''lo'') entries)))))"

definition trim_quotes :: "string \<Rightarrow> string" where
  "trim_quotes s = rev (dropWhile (\<lambda>c. c = CHR ''\"'') (rev (dropWhile (\<lambda>c. c = CHR ''\"'') s)))"

definition getmac_line :: "string \<Rightarrow> string option" where
  "getmac_line line =
     (case splitn 3 CHR '','' line of
        [] \<Rightarrow> None
      | mac_raw # _ \<Rightarrow>
          (let normalized = to_lowercase (replace_char CHR ''-'' '':'' (trim_quotes (trim mac_raw)))
           in if usable_mac normalized then Some normalized else None))"

definition windows_primary_mac :: "host \<Rightarrow> string" where
  "windows_primary_mac h =
     (case h_run h ''getmac'' [''/fo'', ''csv'', ''/nh''] of
        None \<Rightarrow> [] | Some (_, s) \<Rightarrow> runwrap_or [] (first_some getmac_line (lines s)))"

definition hardware_port_line :: "string \<Rightarrow> string option" where
  "hardware_port_line line =
     (if contains ''Ethernet Address:'' line then
        (let mac = to_lowercase (trim (join '':'' (drop 1 (split_on CHR '':'' line))))
         in if usable_mac mac then Some mac else None)
      else None)"

definition macos_primary_mac :: "host \<Rightarrow> string" where
  "macos_primary_mac h =
     (case h_run h ''networksetup'' [''-listallhardwareports''] of
        None \<Rightarrow> [] | Some (_, s) \<Rightarrow> runwrap_or [] (first_some hardware_port_line (lines s)))"

fun collect_primary_mac :: "platform \<Rightarrow> host \<Rightarrow> string" where
  "collect_primary_mac Linux h = linux_primary_mac h"
| "collect_primary_mac Windows h = windows_primary_mac h"
| "collect_primary_mac MacOs h = macos_primary_mac h"
| "collect_primary_mac (OtherOs n) h = []"

section \<open>System information\<close>

record sys_info =
  si_hostname :: "string option"
  si_cpu_num :: "nat option"
  si_mem_total :: "nat option"
  si_os_type :: "string option"
  si_os_release :: "string option"

record system_info =
  sy_hostname :: string
  sy_os_name :: string
  sy_os_version :: string
  sy_cpu_cores :: nat
  sy_mem_total_mb :: nat
  sy_agent_version :: string
  sy_primary_mac :: string

definition os_query :: string where
  "os_query = ''$o = Get-CimInstance Win32_OperatingSystem; \"$($o.Caption)|$($o.Version)\"''"

definition windows_os_info :: "host \<Rightarrow> string \<times> string" where
  "windows_os_info h =
     (case powershell h os_query of
        None \<Rightarrow> (''Windows'', [])
      | Some (_, out) \<Rightarrow>
          (case split_once CHR ''|'' (trim out) of
             None \<Rightarrow> (''Windows'', [])
           | Some (caption, version) \<Rightarrow> (trim_start_matches ''Microsoft '' (trim caption), trim version)))"

definition os_name_const :: "platform \<Rightarrow> string" where
  "os_name_const p = (case p of Linux \<Rightarrow> ''linux'' | Windows \<Rightarrow> ''windows'' | MacOs \<Rightarrow> ''macos'' | OtherOs n \<Rightarrow> n)"

text \<open>\<open>pkg_version\<close> is the version the agent was built as.\<close>

definition collect_system :: "platform \<Rightarrow> string \<Rightarrow> sys_info \<Rightarrow> host \<Rightarrow> system_info" where
  "collect_system p pkg_version si h =
     (let (os_name, os_version) =
        (if p = Windows then windows_os_info h
         else (runwrap_or (os_name_const p) (si_os_type si), runwrap_or ''unknown'' (si_os_release si)))
      in \<lparr>sy_hostname = runwrap_or ''unknown'' (si_hostname si), sy_os_name = os_name,
          sy_os_version = os_version, sy_cpu_cores = runwrap_or 1 (si_cpu_num si),
          sy_mem_total_mb = runwrap_or 0 (map_option (\<lambda>m. m div 1024) (si_mem_total si)),
          sy_agent_version = pkg_version, sy_primary_mac = collect_primary_mac p h\<rparr>)"

section \<open>Checks of the host\<close>

record compliance_check =
  ck_name :: string
  ck_passed :: bool
  ck_detail :: string

record compliance_report =
  cr_is_compliant :: bool
  cr_checks :: "compliance_check list"

definition run_checks :: "platform \<Rightarrow> host \<Rightarrow> compliance_report" where
  "run_checks p h =
     (let os = os_name_const p;
          is_root = (h_env h ''USER'' = Some ''root'' \<or> h_env h ''LOGNAME'' = Some ''root'');
          disk = (case h_env h ''NAC_DISK_ENCRYPT_OK'' of
                    None \<Rightarrow> False | Some v \<Rightarrow> v = ''1'' \<or> to_lowercase v = ''true'');
          checks =
            [\<lparr>ck_name = ''os_supported'', ck_passed = (os \<in> {''linux'', ''windows'', ''macos''}),
              ck_detail = ''OS: '' @ os\<rparr>,
             \<lparr>ck_name = ''not_running_as_root'', ck_passed = (\<not> is_root),
              ck_detail = (if is_root then ''running as root'' else ''non-root'')\<rparr>,
             \<lparr>ck_name = ''disk_encryption'', ck_passed = disk,
              ck_detail = (if disk then ''enabled'' else ''not confirmed'')\<rparr>]
      in \<lparr>cr_is_compliant = list_all ck_passed checks, cr_checks = checks\<rparr>)"

section \<open>Identity\<close>

text \<open>
  The files are those of the host; writing the new identifier changes them when \<open>writable\<close> says so, and
  its failure is ignored.
\<close>

definition device_id_path :: "host \<Rightarrow> string" where
  "device_id_path h = runwrap_or ''/var/lib/nac-agent/device-id'' (h_env h ''DEVICE_ID_FILE'')"

definition load_or_create_device_id :: "string \<Rightarrow> bool \<Rightarrow> host \<Rightarrow> string \<times> host" where
  "load_or_create_device_id new_uuid writable h =
     (let path = device_id_path h;
          known = (case h_file h path of
                     None \<Rightarrow> None
                   | Some s \<Rightarrow> if trim s = [] then None else Some (trim s))
      in case known of
           Some i \<Rightarrow> (i, h)
         | None \<Rightarrow> (new_uuid, if writable then h\<lparr>h_file := (h_file h)(path \<mapsto> new_uuid)\<rparr> else h))"

text \<open>The interval between reports in seconds; a timer of no length panics.\<close>

definition checkin_interval :: "host \<Rightarrow> (string, nat) rust" where
  "checkin_interval h =
     (let secs = runwrap_or 60 (Option.bind (h_env h ''CHECKIN_INTERVAL_SECS'') (from_str_radix 10 (2 ^ 64)))
      in if secs = 0 then Panic else Ok secs)"

section \<open>Calls to the gateway\<close>

record transport =
  tp_device_id :: string
  tp_token :: "string option"

definition agent_register_request :: "transport \<Rightarrow> system_info \<Rightarrow> register_request" where
  "agent_register_request tp sys =
     \<lparr>rr_device_id = tp_device_id tp, rr_primary_mac = sy_primary_mac sys,
      rr_hostname = sy_hostname sys, rr_os = sy_os_name sys @ '' '' @ sy_os_version sys,
      rr_version = sy_agent_version sys\<rparr>"

text \<open>What the agent makes of the answer: a token is kept, an empty one is an error.\<close>

definition agent_register :: "transport \<Rightarrow> (grpc_status + string) option \<Rightarrow> (string + string) \<times> transport" where
  "agent_register tp answer =
     (case answer of
        Some (Inr token) \<Rightarrow>
          if token = [] then (Inl ''server returned empty token'', tp)
          else (Inr token, tp\<lparr>tp_token := Some token\<rparr>)
      | _ \<Rightarrow> (Inl ''call failed'', tp))"

fun register_loop :: "transport \<Rightarrow> (grpc_status + string) option list \<Rightarrow> transport option" where
  "register_loop tp [] = None"
| "register_loop tp (a # as) =
     (case agent_register tp a of (Inr _, tp') \<Rightarrow> Some tp' | (Inl _, tp') \<Rightarrow> register_loop tp' as)"

text \<open>The value of the header; text that is no valid header value is left out.\<close>

definition agent_authorization :: "(string \<Rightarrow> bool) \<Rightarrow> transport \<Rightarrow> string option" where
  "agent_authorization header_ok tp =
     (case tp_token tp of
        None \<Rightarrow> None
      | Some token \<Rightarrow> if header_ok (''Bearer '' @ token) then Some (''Bearer '' @ token) else None)"

definition agent_status_report ::
  "transport \<Rightarrow> software_item list \<Rightarrow> bool \<Rightarrow> bool \<Rightarrow> bool \<Rightarrow> string \<Rightarrow> string \<Rightarrow> status_report" where
  "agent_status_report tp software usb bt sharing os os_version =
     \<lparr>sr_device_id = tp_device_id tp, sr_os = os, sr_os_version = os_version,
      sr_installed_software = map (\<lambda>s. \<lparr>sw_name = sw_name s, sw_version = sw_version s\<rparr>) software,
      sr_missing_patches = [], sr_usb_enabled = usb, sr_bluetooth_enabled = bt,
      sr_folder_sharing_enabled = sharing\<rparr>"

text \<open>One turn of the loop: what is collected is sent; the checks are only logged.\<close>

definition agent_turn :: "platform \<Rightarrow> host \<Rightarrow> system_info \<Rightarrow> transport \<Rightarrow> status_report" where
  "agent_turn p h sys tp =
     agent_status_report tp (collect_installed_software p h) (usb_storage_enabled p h)
       (host_bluetooth p h) (host_sharing p h) (sy_os_name sys) (sy_os_version sys)"

section \<open>Packages read back\<close>

definition print_package :: "string \<Rightarrow> string \<Rightarrow> string \<Rightarrow> string" where
  "print_package name status version =
     ''Package: '' @ name @ [newline] @ ''Status: '' @ status @ [newline]
     @ ''Version: '' @ version @ [newline] @ [newline]"

definition plain_value :: "string \<Rightarrow> bool" where
  "plain_value v \<longleftrightarrow> v \<noteq> [] \<and> newline \<notin> set v \<and> \<not> is_space (hd v) \<and> \<not> is_space (last v)"

lemma lines_Cons: "newline \<notin> set x \<Longrightarrow> lines (x @ newline # rest) = strip_cr x # lines rest"
proof -
  assume "newline \<notin> set x"
  then have "split_on newline (x @ newline # rest) = x # split_on newline rest" by (rule split_on_append_sep)
  moreover obtain y ys where "split_on newline rest = y # ys" using split_on_not_Nil by (metis neq_Nil_conv)
  ultimately show ?thesis by (simp add: lines_def)
qed

lemma plain_value_trim: "plain_value v \<Longrightarrow> trim v = v"
proof -
  assume v: "plain_value v"
  then have "dropWhile is_space v = v" by (cases v) (simp_all add: plain_value_def)
  moreover have "dropWhile is_space (rev v) = rev v"
    using v by (cases v rule: rev_cases) (simp_all add: plain_value_def)
  ultimately show ?thesis by (simp add: trim_def)
qed

lemma plain_value_cr: "plain_value v \<Longrightarrow> strip_cr (a @ v) = a @ v"
proof -
  assume v: "plain_value v"
  then have "ccode (last v) \<noteq> 13" by (auto simp: plain_value_def is_space_def)
  with v show ?thesis by (simp add: strip_cr_def plain_value_def)
qed

lemma newline_in: "newline \<in> set ''Package: '' \<longleftrightarrow> False" "newline \<in> set ''Status: '' \<longleftrightarrow> False"
  "newline \<in> set ''Version: '' \<longleftrightarrow> False"
  by (simp_all add: newline_def char_of_def)

lemma lines_package:
  assumes "plain_value n" and "plain_value s" and "plain_value v"
  shows "lines (print_package n s v @ rest) =
    (''Package: '' @ n) # (''Status: '' @ s) # (''Version: '' @ v) # [] # lines rest"
proof -
  have nl: "newline \<notin> set (''Package: '' @ n)" "newline \<notin> set (''Status: '' @ s)" "newline \<notin> set (''Version: '' @ v)"
    using assms newline_in by (simp_all only: plain_value_def set_append Un_iff simp_thms)
  have printed: "print_package n s v @ rest = (''Package: '' @ n) @ newline # (''Status: '' @ s) @ newline #
      (''Version: '' @ v) @ newline # [] @ newline # rest"
    by (simp add: print_package_def)
  show ?thesis
    unfolding printed lines_Cons [OF nl(1)] lines_Cons [OF nl(2)] lines_Cons [OF nl(3)]
    using lines_Cons [of "[]" rest] assms by (simp only: plain_value_cr) (simp add: strip_cr_def)
qed

lemma dpkg_package:
  assumes "plain_value n" and "plain_value v"
  shows "foldl dpkg_line st [''Package: '' @ n, ''Status: '' @ s, ''Version: '' @ v, []] =
    \<lparr>dk_result = dk_result st @ (if contains ''install ok installed'' s then [\<lparr>sw_name = n, sw_version = v\<rparr>] else []),
     dk_name = n, dk_version = v, dk_installed = contains ''install ok installed'' s\<rparr>"
  using assms by (simp add: dpkg_line_def plain_value_trim del: contains.simps) (simp add: plain_value_def)

fun plain_package :: "string \<times> string \<times> string \<Rightarrow> bool" where
  "plain_package (n, s, v) = (plain_value n \<and> plain_value s \<and> plain_value v)"

definition print_packages :: "(string \<times> string \<times> string) list \<Rightarrow> string" where
  "print_packages ps = concat (map (\<lambda>(n, s, v). print_package n s v) ps)"

definition installed_items :: "(string \<times> string \<times> string) list \<Rightarrow> software_item list" where
  "installed_items ps = map (\<lambda>(n, s, v). \<lparr>sw_name = n, sw_version = v\<rparr>)
     (filter (\<lambda>(n, s, v). contains ''install ok installed'' s) ps)"

lemma dpkg_packages:
  "list_all plain_package ps \<Longrightarrow>
   dk_result (foldl dpkg_line st (lines (print_packages ps))) = dk_result st @ installed_items ps"
proof (induction ps arbitrary: st)
  case Nil
  show ?case by (simp add: print_packages_def installed_items_def lines_def)
next
  case (Cons p ps)
  obtain n s v where p: "p = (n, s, v)" by (cases p)
  have "lines (print_packages (p # ps)) =
      [''Package: '' @ n, ''Status: '' @ s, ''Version: '' @ v, []] @ lines (print_packages ps)"
    using Cons.prems by (simp add: print_packages_def p lines_package)
  then have "foldl dpkg_line st (lines (print_packages (p # ps))) =
      foldl dpkg_line (foldl dpkg_line st [''Package: '' @ n, ''Status: '' @ s, ''Version: '' @ v, []]) (lines (print_packages ps))"
    by (simp only: foldl_append)
  then show ?case
    using Cons by (simp only: dpkg_package p plain_package.simps list.pred_inject) (simp add: installed_items_def del: contains.simps)
qed

lemma dpkg_round_trip: "list_all plain_package ps \<Longrightarrow> parse_dpkg_status (print_packages ps) = installed_items ps"
  by (simp add: parse_dpkg_status_def dpkg_packages dpkg_start_def)

section \<open>The agent and the gateway\<close>

lemma first_some_usable:
  "(\<And>x y. f x = Some y \<Longrightarrow> usable_mac y) \<Longrightarrow> first_some f xs = Some m \<Longrightarrow> usable_mac m"
  by (induction xs) (auto split: option.splits)

text \<open>The address of the host is absent or a text of 17 characters that is not the zero address.\<close>

lemma primary_mac_usable: "collect_primary_mac p h = [] \<or> usable_mac (collect_primary_mac p h)"
proof -
  have linux: "read_linux_mac h i = Some m \<Longrightarrow> usable_mac m" for i m
    by (auto simp: read_linux_mac_def Let_def split: option.splits if_splits)
  have windows: "getmac_line l = Some m \<Longrightarrow> usable_mac m" for l m
    by (auto simp: getmac_line_def Let_def split: list.splits if_splits)
  have macos: "hardware_port_line l = Some m \<Longrightarrow> usable_mac m" for l m
    by (auto simp: hardware_port_line_def Let_def split: if_splits)
  have or_empty: "runwrap_or [] x = [] \<or> usable_mac (runwrap_or [] x)" if "\<And>m. x = Some m \<Longrightarrow> usable_mac m" for x
    using that by (cases x) auto
  show ?thesis
  proof (cases p)
    case Linux
    then show ?thesis
      using first_some_usable [of "read_linux_mac h", OF linux] or_empty
      by (auto simp: linux_primary_mac_def simp del: first_some.simps split: option.split)
  next
    case Windows
    then show ?thesis
      using first_some_usable [of getmac_line, OF windows] or_empty
      by (auto simp: windows_primary_mac_def split: option.split)
  next
    case MacOs
    then show ?thesis
      using first_some_usable [of hardware_port_line, OF macos] or_empty
      by (auto simp: macos_primary_mac_def split: option.split)
  qed simp
qed

text \<open>Once written, the identity stays, whatever identifier would be made next.\<close>

lemma identity_stays:
  assumes "load_or_create_device_id u True h = (i, h')" and "trim u = u" and "u \<noteq> []"
  shows "fst (load_or_create_device_id v writable h') = i"
  using assms by (auto simp: load_or_create_device_id_def device_id_path_def Let_def split: option.splits if_splits)

lemma register_loop_token:
  "register_loop tp as = Some tp' \<Longrightarrow>
    \<exists>token. Some (Inr token) \<in> set as \<and> token \<noteq> [] \<and> tp' = tp\<lparr>tp_token := Some token\<rparr>"
proof (induction as)
  case (Cons a as)
  show ?case
  proof (cases "\<exists>token. a = Some (Inr token) \<and> token \<noteq> []")
    case True
    with Cons.prems show ?thesis by (auto simp: agent_register_def)
  next
    case False
    then have "agent_register tp a = (Inl ''server returned empty token'', tp) \<or> agent_register tp a = (Inl ''call failed'', tp)"
      by (auto simp: agent_register_def split: option.split sum.split)
    with Cons show ?thesis by auto
  qed
qed simp

text \<open>
  An agent that holds a token the gateway accepts has its report published, under the identifier it
  registered with and without a single missing patch.
\<close>

lemma agent_report_published:
  assumes "register_loop tp answers = Some tp'" and "tp_token tp' = Some token"
    and "header_ok (''Bearer '' @ token)" and "verify token \<noteq> None" and "schedule w = []"
  shows "\<exists>a w'. report_status verify now (agent_authorization header_ok tp') (agent_turn p h sys tp') w = (Ok (Inr a), w')
    \<and> (\<exists>rep. published w' = published w @ [PostureEvent rep] \<and> device_id rep = tp_device_id tp
        \<and> missing_patches rep = [] \<and> installed_software rep = collect_installed_software p h)"
proof -
  obtain t where "tp' = tp\<lparr>tp_token := Some t\<rparr>" using register_loop_token [OF assms(1)] by blast
  with assms(2) have tp': "tp' = tp\<lparr>tp_token := Some token\<rparr>" by simp
  have "bearer (agent_authorization header_ok tp') = Some token"
    using assms(2,3) by (simp add: agent_authorization_def bearer_def)
  from report_for_any_device [where verify = verify and now = now and req = "agent_turn p h sys tp'", OF this assms(4,5)]
  obtain a w' where run: "report_status verify now (agent_authorization header_ok tp') (agent_turn p h sys tp') w = (Ok (Inr a), w')"
    and pub: "published w' = published w @ [PostureEvent (posture_of now (agent_turn p h sys tp'))]" by blast
  have copied: "map (\<lambda>x. \<lparr>sw_name = sw_name x, sw_version = sw_version x\<rparr>) xs = xs" for xs :: "software_item list"
    by (induction xs) simp_all
  have fields: "device_id (posture_of now (agent_turn p h sys tp')) = tp_device_id tp"
    "missing_patches (posture_of now (agent_turn p h sys tp')) = []"
    "installed_software (posture_of now (agent_turn p h sys tp')) = collect_installed_software p h"
    by (simp_all add: posture_of_def agent_turn_def agent_status_report_def tp' comp_def copied)
  show ?thesis
    by (intro exI conjI, rule run, rule pub, rule fields, rule fields, rule fields)
qed

text \<open>What the gateway stores as the version of the operating system is that of the agent program.\<close>

lemma agent_version_as_os:
  "up_os_version (register_endpoint ip (agent_register_request tp sys)) = Some (sy_agent_version sys)"
  by (simp add: register_endpoint_def agent_register_request_def)

end
