(* ===== verification/AgentSession.thy ===== *)
theory AgentSession
  imports AgentHost
begin

text \<open>
  The session of an endpoint agent: the tokens of \<^verbatim>\<open>crates/nac-auth/src/jwt.rs\<close>, which the
  agent gateway signs at registration and verifies with every report, and the report loop of
  \<^verbatim>\<open>services/endpoint-agent/src/main.rs\<close>, which keeps the token it was given first. Encoding
  and decoding (\<^verbatim>\<open>jsonwebtoken\<close>) are arguments with their documented behaviour: a token
  decodes under its key and algorithm to its claims, unless expiry is validated and lies more than the
  leeway in the past.
\<close>

section \<open>Tokens\<close>

datatype algorithm = HS256 | HS384 | HS512

record validation =
  vd_algorithm :: algorithm
  vd_validate_exp :: bool
  vd_leeway :: int

text \<open>\<^verbatim>\<open>Validation::new\<close> of the library: expiry is validated, with a leeway of a minute.\<close>

definition new_validation :: "algorithm \<Rightarrow> validation" where
  "new_validation alg = \<lparr>vd_algorithm = alg, vd_validate_exp = True, vd_leeway = 60\<rparr>"

record jwt_library =
  jl_encode :: "algorithm \<Rightarrow> nac_claims \<Rightarrow> string \<Rightarrow> string option"
  jl_decode :: "validation \<Rightarrow> int \<Rightarrow> string \<Rightarrow> string \<Rightarrow> nac_claims option"

definition sign_token :: "jwt_library \<Rightarrow> string \<Rightarrow> nac_claims \<Rightarrow> string option" where
  "sign_token lib secret claims = jl_encode lib HS256 claims secret"

definition verify_token :: "jwt_library \<Rightarrow> int \<Rightarrow> string \<Rightarrow> string \<Rightarrow> nac_claims option" where
  "verify_token lib now secret token =
     jl_decode lib ((new_validation HS256)\<lparr>vd_validate_exp := True\<rparr>) now token secret"

definition jwt_works :: "jwt_library \<Rightarrow> bool" where
  "jwt_works lib \<longleftrightarrow>
     (\<forall>v now claims secret token. jl_encode lib (vd_algorithm v) claims secret = Some token \<longrightarrow>
        jl_decode lib v now token secret =
          (if vd_validate_exp v \<and> cl_exp claims < now - vd_leeway v then None else Some claims))"

lemma verify_signed:
  assumes "jwt_works lib" and "sign_token lib secret claims = Some token"
  shows "verify_token lib now secret token = (if cl_exp claims + 60 < now then None else Some claims)"
proof -
  have "jl_encode lib (vd_algorithm (new_validation HS256)) claims secret = Some token"
    using assms(2) by (simp add: sign_token_def new_validation_def)
  with assms(1) have "jl_decode lib (new_validation HS256) now token secret =
      (if cl_exp claims < now - 60 then None else Some claims)"
    by (simp add: jwt_works_def new_validation_def)
  then show ?thesis by (simp add: verify_token_def new_validation_def)
qed

lemma register_token:
  assumes "register db sign now ip req w = (Ok (Inr token), w')"
  shows "sign \<lparr>cl_sub = rr_device_id req, cl_groups = [], cl_exp = now + 24 * 3600, cl_iat = now\<rparr> = Some token"
  using assms
  by (auto simp: register_def Let_def io_bind_def split: prod.splits rust.splits option.splits)

section \<open>The report loop\<close>

text \<open>
  What the agent sends: at each tick what is collected then, always with the token of its registration.
  The result of a report is only logged.
\<close>

definition report_loop ::
  "platform \<Rightarrow> (string \<Rightarrow> bool) \<Rightarrow> system_info \<Rightarrow> transport \<Rightarrow> (int \<times> host) list
    \<Rightarrow> (int \<times> string option \<times> status_report) list"
where
  "report_loop p header_ok sys tp ticks =
     map (\<lambda>(now, h). (now, agent_authorization header_ok tp, agent_turn p h sys tp)) ticks"

text \<open>The gateway answers the reports, each at the time it arrives.\<close>

fun serve_reports ::
  "(int \<Rightarrow> string \<Rightarrow> nac_claims option) \<Rightarrow> (int \<times> string option \<times> status_report) list \<Rightarrow> world \<Rightarrow> world"
where
  "serve_reports verify [] w = w"
| "serve_reports verify ((now, header, rpt) # rest) w =
     serve_reports verify rest (snd (report_status (verify now) now header rpt w))"

lemma report_accepted:
  assumes "bearer header = Some token" and "verify token \<noteq> None" and "schedule w = []"
  shows "published (snd (report_status verify now header req w)) = published w @ [PostureEvent (posture_of now req)]"
    and "schedule (snd (report_status verify now header req w)) = []"
  using assms
  by (auto simp: report_status_def io_bind_def io_ok_def io_return_def nats_publish_def stmt_delivered
      ep_find_by_agent_id_def flatten_def)

lemma report_rejected:
  assumes "bearer header = Some token" and "verify token = None"
  shows "snd (report_status verify now header req w) = w"
  using assms by (simp add: report_status_def)

text \<open>When nothing fails, the reports that become events are those made while the token is accepted.\<close>

lemma serve_session:
  assumes "\<And>now. verify now token = None \<longleftrightarrow> t < now" and "bearer header = Some token"
  shows "schedule w = [] \<Longrightarrow>
    published (serve_reports verify (map (\<lambda>(now, h). (now, header, f h)) ticks) w) =
      published w @ map (\<lambda>(now, h). PostureEvent (posture_of now (f h))) (filter (\<lambda>(now, h). now \<le> t) ticks)"
proof (induction ticks arbitrary: w)
  case (Cons x ticks)
  obtain now h where x: "x = (now, h)" by (cases x)
  show ?case
  proof (cases "now \<le> t")
    case True
    then have "verify now token \<noteq> None" using assms(1) [of now] by simp
    note ok = report_accepted [where verify = "verify now", OF assms(2) this Cons.prems, of now "f h"]
    show ?thesis using Cons.IH [OF ok(2)] True by (simp add: x ok(1))
  next
    case False
    then have "verify now token = None" using assms(1) [of now] by simp
    note no = report_rejected [where verify = "verify now" and w = w and now = now and req = "f h", OF assms(2) this]
    show ?thesis using Cons False by (simp add: x no)
  qed
qed simp

lemma register_loop_append:
  "register_loop tp as = None \<Longrightarrow> register_loop tp (as @ bs) = register_loop tp bs"
  by (induction as) (auto simp: agent_register_def split: option.splits sum.splits if_splits)

theorem session_reports:
  assumes "jwt_works lib"
    and "register db (sign_token lib secret) t0 ip (agent_register_request tp0 sys) w0 = (Ok (Inr token), w1)"
    and "register_loop tp0 failures = None" and "register_loop tp0 (failures @ [Some (Inr token)]) = Some tp"
    and "header_ok (''Bearer '' @ token)" and "schedule w = []"
  shows "published (serve_reports (\<lambda>now. verify_token lib now secret) (report_loop p header_ok sys tp ticks) w) =
      published w @ map (\<lambda>(now, h). PostureEvent (posture_of now (agent_turn p h sys tp)))
        (filter (\<lambda>(now, h). now \<le> t0 + 24 * 3600 + 60) ticks)"
proof -
  have tp: "tp_token tp = Some token"
    using assms(4) by (auto simp: register_loop_append [OF assms(3)] agent_register_def split: if_splits)
  from verify_signed [OF assms(1) register_token [OF assms(2)]]
  have v: "verify_token lib now secret token = None \<longleftrightarrow> t0 + 24 * 3600 + 60 < now" for now by simp
  have b: "bearer (agent_authorization header_ok tp) = Some token"
    using assms(5) tp by (simp add: agent_authorization_def bearer_def)
  show ?thesis
    unfolding report_loop_def
    by (rule serve_session [of "\<lambda>now. verify_token lib now secret", OF v b assms(6)])
qed

end
