(* ===== verification/Services.thy ===== *)
theory Services
  imports Sensor Enforcement DhcpServer Portal GatewayRoutes AgentHost
begin

text \<open>
  What the services do before their loops: the start of the enforcement agent
  (\<^verbatim>\<open>services/enforcement/src/main.rs\<close> and \<^verbatim>\<open>Spoofer::new\<close>), of the
  DHCP service (\<^verbatim>\<open>services/dhcp/src/main.rs\<close>) and of the endpoint agent
  (\<^verbatim>\<open>services/endpoint-agent/src/main.rs\<close>), and the routes of the captive portal
  (\<^verbatim>\<open>services/aaa/src/captive_portal.rs\<close>). The environment, the interfaces and the
  channels they open are arguments.
\<close>

section \<open>The enforcement agent\<close>

definition configured_management_ips :: "string option \<Rightarrow> string list" where
  "configured_management_ips cfg =
     filter (\<lambda>s. s \<noteq> []) (map trim (split_on CHR '','' (runwrap_or [] cfg)))"

record host_interface = interface +
  if_mac :: "mac6 option"

definition enforcement_interfaces :: "host_interface list \<Rightarrow> host_interface list" where
  "enforcement_interfaces ifs =
     filter (\<lambda>i. \<not> if_loopback i \<and> if_up i \<and> \<not> starts_with ''docker'' (if_name i)
       \<and> \<not> starts_with ''br-'' (if_name i) \<and> \<not> starts_with ''veth'' (if_name i) \<and> if_has_ips i
       \<and> if_mac i \<noteq> None) ifs"

text \<open>What opening a channel gives, as for \<open>on_interface\<close>: an error, another kind, or an Ethernet channel.\<close>

definition spoofer_new ::
  "host_interface list \<Rightarrow> (string \<Rightarrow> bool option) \<Rightarrow> string \<Rightarrow> (string, mac6) rust" where
  "spoofer_new ifs channel name =
     (case List.find (\<lambda>i. if_name i = name) ifs of
        None \<Rightarrow> Err ''interface not found''
      | Some i \<Rightarrow>
          (case if_mac i of
             None \<Rightarrow> Err ''no MAC address''
           | Some m \<Rightarrow>
               (case channel name of
                  Some True \<Rightarrow> Ok m
                | Some False \<Rightarrow> Err ''unsupported channel''
                | None \<Rightarrow> Err ''channel error'')))"

definition enforcement_spoofer :: "host_interface list \<Rightarrow> (string \<Rightarrow> bool option) \<Rightarrow> mac6 option" where
  "enforcement_spoofer ifs channel =
     (case enforcement_interfaces ifs of
        [] \<Rightarrow> None
      | iface # _ \<Rightarrow>
          (case spoofer_new ifs channel (if_name iface) of Ok m \<Rightarrow> Some m | _ \<Rightarrow> None))"

text \<open>
  The back end and the state in which the subscription and the two loops start. \<open>None\<close> only when a
  loop of the driver does not end; that the chains could not be set up is logged.
\<close>

definition enforcement_start ::
  "'k exec \<Rightarrow> string option \<Rightarrow> host_interface list \<Rightarrow> (string \<Rightarrow> bool option) \<Rightarrow> bool list
    \<Rightarrow> string option \<Rightarrow> string option \<Rightarrow> 'k \<Rightarrow> (backend \<times> 'k enforcement) option"
where
  "enforcement_start exec cfg ifs channel fails route arp k =
     (case enforcer_new exec k of (be, k1) \<Rightarrow>
       (case setup_chains exec be (configured_management_ips cfg) k1 of
          None \<Rightarrow> None
        | Some (_, k2) \<Rightarrow>
            Some (be, \<lparr>kernel = k2, qstate = Map.empty, sent = [], send_fails = fails,
              spoofer = enforcement_spoofer ifs channel, proc_route = route, proc_arp = arp\<rparr>)))"

section \<open>The DHCP service\<close>

definition env_ipv4 :: "(string \<Rightarrow> string option) \<Rightarrow> string \<Rightarrow> string \<Rightarrow> (string, ipv4) rust" where
  "env_ipv4 env name dflt =
     (case parse_ipv4 (runwrap_or dflt (env name)) of None \<Rightarrow> Err ''invalid address'' | Some a \<Rightarrow> Ok a)"

definition dhcp_configured :: "(string \<Rightarrow> string option) \<Rightarrow> (string, dhcp_server) rust" where
  "dhcp_configured env =
     rbind (env_ipv4 env ''DHCP_POOL_START'' ''192.168.1.100'') (\<lambda>pool_start.
     rbind (env_ipv4 env ''DHCP_POOL_END'' ''192.168.1.200'') (\<lambda>pool_end.
     rbind (env_ipv4 env ''DHCP_SUBNET_MASK'' ''255.255.255.0'') (\<lambda>netmask.
     rbind (env_ipv4 env ''DHCP_GATEWAY'' ''192.168.1.1'') (\<lambda>gw.
     rbind (env_ipv4 env ''DHCP_SERVER_IP'' ''192.168.1.1'') (\<lambda>srv_ip.
       Ok \<lparr>pool = pool_new pool_start pool_end netmask gw, server_ip = srv_ip\<rparr>)))))"

section \<open>The routes of the portal\<close>

datatype portal_page = Landing | Login | Success | DeniedPage | BlockedPage | Health
  | NcsiProbe | Generate204 | HotspotDetect

definition portal_routes :: "(string \<times> http_method \<times> portal_page) list" where
  "portal_routes =
    [(''/'', Get, Landing), (''/login'', Post, Login), (''/success'', Get, Success),
     (''/denied'', Get, DeniedPage), (''/blocked'', Get, BlockedPage), (''/health'', Get, Health),
     (''/ncsi.txt'', Get, NcsiProbe), (''/generate_204'', Get, Generate204),
     (''/hotspot-detect.html'', Get, HotspotDetect)]"

text \<open>
  A request: \<open>rq_query\<close> gives the value of a parameter, \<open>rq_form\<close> the form or the status with which its
  extractor rejects the body.
\<close>

record portal_request =
  rq_method :: http_method
  rq_path :: string
  rq_query :: "string \<Rightarrow> string option"
  rq_path_and_query :: "string option"
  rq_host :: "string option"
  rq_form :: "nat + login_form"

datatype portal_answer = Answer http_response | JsonAnswer json | Rejected nat

record portal_site =
  site_pages :: pages
  site_url :: string
  site_unknown :: string
  site_state :: portal_state

definition answer :: "http_response io \<Rightarrow> portal_answer io" where
  "answer m = io_bind m (\<lambda>r. io_return (Answer r))"

definition portal_health :: portal_answer where
  "portal_health = JsonAnswer (JObj [(''status'', JStr ''ok'')])"

definition success_page :: "pages \<Rightarrow> http_response" where
  "success_page pgs = HtmlPage (success_html pgs)"

definition blocked_page :: "pages \<Rightarrow> http_response" where
  "blocked_page pgs = HtmlPage (blocked_html pgs)"

fun portal_handle :: "pg \<Rightarrow> portal_site \<Rightarrow> int \<Rightarrow> string \<Rightarrow> portal_request \<Rightarrow> portal_page \<Rightarrow> portal_answer io" where
  "portal_handle db site now ip rq Landing = answer (landing_page db (site_pages site) ip (rq_query rq ''url''))"
| "portal_handle db site now ip rq Login =
     (case rq_form rq of Inl status \<Rightarrow> io_return (Rejected status)
      | Inr form \<Rightarrow> answer (handle_login db (site_state site) now ip form))"
| "portal_handle db site now ip rq Success = io_return (Answer (success_page (site_pages site)))"
| "portal_handle db site now ip rq DeniedPage =
     io_return (Answer (HtmlPage (denied_page (site_pages site) (site_unknown site) (rq_query rq ''reason''))))"
| "portal_handle db site now ip rq BlockedPage = io_return (Answer (blocked_page (site_pages site)))"
| "portal_handle db site now ip rq Health = io_return portal_health"
| "portal_handle db site now ip rq NcsiProbe = answer (ncsi_probe db (site_url site) ip)"
| "portal_handle db site now ip rq Generate204 = answer (generate_204 db (site_url site) ip)"
| "portal_handle db site now ip rq HotspotDetect = answer (hotspot_detect db (site_url site) ip)"

text \<open>A path without a route goes to the fallback; another method on a route is refused with 405.\<close>

definition portal_serve :: "pg \<Rightarrow> portal_site \<Rightarrow> int \<Rightarrow> string \<Rightarrow> portal_request \<Rightarrow> portal_answer io" where
  "portal_serve db site now ip rq =
     (case map_of portal_routes (rq_path rq) of
        None \<Rightarrow> answer (catch_all db (site_url site) ip (rq_path_and_query rq) (rq_host rq))
      | Some (m, handler) \<Rightarrow>
          if rq_method rq = m then portal_handle db site now ip rq handler else io_return (Rejected 405))"

section \<open>The endpoint agent\<close>

datatype agent_state = Offline compliance_report | Reporting transport nat | TimerPanic

text \<open>
  \<open>connected\<close> is whether the channel could be opened, \<open>answers\<close> are those to the calls of
  \<^verbatim>\<open>register\<close>; \<open>None\<close> when none of them registers the agent, which then goes on trying.
\<close>

definition agent_start ::
  "platform \<Rightarrow> string \<Rightarrow> sys_info \<Rightarrow> string \<Rightarrow> bool \<Rightarrow> bool \<Rightarrow> (grpc_status + string) option list \<Rightarrow> host
    \<Rightarrow> agent_state option \<times> host"
where
  "agent_start p pkg_version si new_uuid writable connected answers h =
     (case load_or_create_device_id new_uuid writable h of (dev_id, h1) \<Rightarrow>
       (if \<not> connected then Some (Offline (run_checks p h1))
        else (case register_loop \<lparr>tp_device_id = dev_id, tp_token = None\<rparr> answers of
                None \<Rightarrow> None
              | Some tp \<Rightarrow>
                  (case checkin_interval h of Ok secs \<Rightarrow> Some (Reporting tp secs) | _ \<Rightarrow> Some TimerPanic)),
        h1))"

section \<open>Where the spoofer works\<close>

lemma enforcement_interface_sensed:
  assumes "i \<in> set (enforcement_interfaces ifs)"
  shows "interface.truncate i \<in> set (list_physical_interfaces (map interface.truncate ifs))"
  using assms by (auto simp: enforcement_interfaces_def list_physical_interfaces_def interface.truncate_def)

lemma enforcement_spoofer_first:
  assumes "enforcement_spoofer ifs channel = Some m"
  shows "\<exists>i i'. i \<in> set (enforcement_interfaces ifs) \<and> i' \<in> set ifs \<and> if_name i' = if_name i
    \<and> if_mac i' = Some m \<and> channel (if_name i) = Some True"
proof -
  obtain i js where i: "enforcement_interfaces ifs = i # js" "spoofer_new ifs channel (if_name i) = Ok m"
    using assms by (auto simp: enforcement_spoofer_def split: list.splits rust.splits)
  then obtain i' where "List.find (\<lambda>j. if_name j = if_name i) ifs = Some i'" "if_mac i' = Some m"
    "channel (if_name i) = Some True"
    by (auto simp: spoofer_new_def split: option.splits bool.splits)
  moreover from this have "i' \<in> set ifs" "if_name i' = if_name i" by (auto simp: find_Some_iff)
  moreover have "i \<in> set (enforcement_interfaces ifs)" by (simp add: i)
  ultimately show ?thesis by blast
qed

text \<open>The address of the spoofer is that of an interface the sensor listens on.\<close>

lemma spoofer_is_sensed:
  assumes "enforcement_spoofer ifs channel = Some m" and "distinct (map if_name ifs)"
  shows "\<exists>i. i \<in> set ifs \<and> if_mac i = Some m
    \<and> interface.truncate i \<in> set (list_physical_interfaces (map interface.truncate ifs))"
proof -
  obtain i i' where i: "i \<in> set (enforcement_interfaces ifs)" "i' \<in> set ifs" "if_name i' = if_name i"
    "if_mac i' = Some m" using enforcement_spoofer_first [OF assms(1)] by blast
  have "i \<in> set ifs" using i(1) by (simp add: enforcement_interfaces_def)
  then have "i' = i" using assms(2) i(2,3) by (simp add: distinct_map inj_on_def)
  then show ?thesis using i enforcement_interface_sensed by blast
qed

section \<open>The management addresses\<close>

lemma management_ips_read_back:
  assumes "list_all (\<lambda>a. a \<noteq> [] \<and> CHR '','' \<notin> set a \<and> trim a = a) ips"
  shows "configured_management_ips (Some (join '','' ips)) = ips"
  using assms
proof (cases "ips = []")
  case False
  then have "split_on CHR '','' (join '','' ips) = ips"
    using assms by (intro split_on_join) (auto simp: list_all_iff)
  then show ?thesis using assms
    by (simp add: configured_management_ips_def) (simp add: list_all_iff map_idI filter_id_conv cong: map_cong)
qed (simp add: configured_management_ips_def)

lemma management_ips_unset: "configured_management_ips None = []"
  by (simp add: configured_management_ips_def)

text \<open>Without the setting the ports of management are open to every device, a blocked one too.\<close>

lemma management_open:
  assumes "pk_dport p \<in> set MGMT_PORTS" and "\<not> pk_udp p"
  shows "chain_verdict sets (input_rules (configured_management_ips None)) p = Accept"
  using assms by (simp add: management_ips_unset input_rules_verdict mgmt_hit_def)

section \<open>The start of the enforcement agent\<close>

text \<open>Whatever the programs answer, the agent starts with no device under enforcement; its loops are idle.\<close>

lemma enforcement_start_idle:
  assumes "enforcement_start exec cfg ifs channel fails route arp k = Some (be, s)"
  shows "qstate s = Map.empty \<and> sent s = []
    \<and> reinforce exec be (reinforce_snapshot order s) s = Some (Ok (), s)
    \<and> repoison (repoison_snapshot order s) s = Some (Ok (), s)"
  using assms
  by (auto simp: enforcement_start_def reinforce_snapshot_def repoison_snapshot_def repoison_def em_return_def
      map_filter_def split: prod.splits option.splits)

text \<open>
  The rules are handed to \<^verbatim>\<open>nft\<close> in one piece. When it refuses them, for one address
  that it cannot read, there are no chains, and the agent runs on.
\<close>

lemma failed_setup_starts:
  assumes "enforcer_new exec k = (Nft, k1)"
    and "exec ''nft'' [''-f'', ''-''] (nft_ruleset (configured_management_ips cfg))
      (snd (exec ''sysctl'' [''-w'', ''net.ipv4.ip_forward=1''] [] k1)) = (Exited False err, k2)"
  shows "\<exists>s. enforcement_start exec cfg ifs channel fails route arp k = Some (Nft, s) \<and> kernel s = k2"
  using assms by (simp add: enforcement_start_def setup_chains_def setup_nft_def)

section \<open>The configured pool\<close>

lemma dhcp_configured_pool:
  "dhcp_configured env = Ok srv \<Longrightarrow> \<exists>a b m g. pool srv = pool_new a b m g
    \<and> env_ipv4 env ''DHCP_POOL_START'' ''192.168.1.100'' = Ok a
    \<and> env_ipv4 env ''DHCP_POOL_END'' ''192.168.1.200'' = Ok b"
  by (auto simp: dhcp_configured_def rbind_Ok_iff) blast

lemma env_ipv4_set: "env name = Some (ipv4_to_string a) \<Longrightarrow> env_ipv4 env name dflt = Ok a"
  by (simp add: env_ipv4_def)

lemma env_ipv4_default: "env name = None \<Longrightarrow> env_ipv4 env name (ipv4_to_string a) = Ok a"
  by (simp add: env_ipv4_def)

text \<open>Without any setting the pool is 192.168.1.100 to 192.168.1.200.\<close>

lemma default_addresses:
  "parse_ipv4 ''192.168.1.100'' = Some (Ipv4 192 168 1 100)" "parse_ipv4 ''192.168.1.200'' = Some (Ipv4 192 168 1 200)"
  "parse_ipv4 ''255.255.255.0'' = Some (Ipv4 255 255 255 0)" "parse_ipv4 ''192.168.1.1'' = Some (Ipv4 192 168 1 1)"
  using parse_ipv4_to_string [of "Ipv4 192 168 1 100"] parse_ipv4_to_string [of "Ipv4 192 168 1 200"]
    parse_ipv4_to_string [of "Ipv4 255 255 255 0"] parse_ipv4_to_string [of "Ipv4 192 168 1 1"]
  by (simp_all add: dec.simps digit_char_def char_of_def bit_0)

lemma env_default:
  "env_ipv4 (\<lambda>_. None) name ''192.168.1.100'' = Ok (Ipv4 192 168 1 100)"
  "env_ipv4 (\<lambda>_. None) name ''192.168.1.200'' = Ok (Ipv4 192 168 1 200)"
  "env_ipv4 (\<lambda>_. None) name ''255.255.255.0'' = Ok (Ipv4 255 255 255 0)"
  "env_ipv4 (\<lambda>_. None) name ''192.168.1.1'' = Ok (Ipv4 192 168 1 1)"
  by (simp_all add: env_ipv4_def default_addresses)

lemma dhcp_default:
  "dhcp_configured (\<lambda>_. None) = Ok \<lparr>pool = pool_new (Ipv4 192 168 1 100) (Ipv4 192 168 1 200)
     (Ipv4 255 255 255 0) (Ipv4 192 168 1 1), server_ip = Ipv4 192 168 1 1\<rparr>"
  by (simp only: dhcp_configured_def env_default rbind.simps)

text \<open>
  Nothing compares the two ends of the range. With the end before the start the cursor is past the end
  from the beginning, and every client is given the first address.
\<close>

lemma reversed_range_shares:
  assumes "u32_from_ipv4 b < u32_from_ipv4 a"
  shows "list_all (\<lambda>ip. ip = a) (fst (allocate_list (pool_new a b m g) macs))"
proof -
  have "list_all (\<lambda>ip. ip = a) (fst (allocate_list p macs))"
    if "start_ip p = u32_from_ipv4 a" "end_ip p < next_ip p" "\<forall>k ip. leases p k = Some ip \<longrightarrow> ip = a" for p
    using that
  proof (induction macs arbitrary: p)
    case (Cons x xs)
    have "fst (get_or_allocate p x) = a" "next_ip (snd (get_or_allocate p x)) = next_ip p"
      "\<forall>k ip. leases (snd (get_or_allocate p x)) k = Some ip \<longrightarrow> ip = a"
      using Cons.prems by (auto simp: get_or_allocate_def Let_def split: option.splits)
    with Cons.prems Cons.IH [of "snd (get_or_allocate p x)"] show ?case
      by (simp add: case_prod_unfold Let_def)
  qed simp
  from this [of "pool_new a b m g"] assms show ?thesis by (simp add: pool_new_def)
qed

section \<open>What a client is shown\<close>

definition client_status :: "pg \<Rightarrow> string \<Rightarrow> world \<Rightarrow> string option" where
  "client_status db ip w =
     map_option ep_status (find_row (\<lambda>r. map_option (inet_host db) (ep_ip_address r) = Some ip) (endpoints w))"

lemma answer_fst:
  "fst (answer m w) = (case fst (m w) of Ok r \<Rightarrow> Ok (Answer r) | Err e \<Rightarrow> Err e | Panic \<Rightarrow> Panic)"
  by (simp add: answer_def io_bind_def io_return_def split: prod.splits rust.splits)

lemma portal_serve_fallback:
  assumes "schedule w = []" and "map_of portal_routes (rq_path rq) = None"
  shows "fst (portal_serve db site now ip rq w) = Ok (Answer
    (if client_status db ip w = Some ''denied'' then Portal.RedirectTo (site_url site @ ''/blocked'')
     else if client_status db ip w = Some ''quarantined'' then
       Portal.RedirectTo (case rq_host rq of None \<Rightarrow> site_url site
         | Some h \<Rightarrow> site_url site @ ''/?url='' @ percent_encode_url (original_url h (rq_path_and_query rq)))
     else NoContent))"
  using catch_all_run [OF assms(1), of db "site_url site" ip "rq_path_and_query rq" "rq_host rq"]
  by (simp only: portal_serve_def assms(2) answer_fst client_status_def Let_def option.case rust.case)

lemma endpoint_status_run:
  "schedule w = [] \<Longrightarrow> endpoint_status db ip w = (Ok (client_status db ip w), tick w)"
  by (simp only: endpoint_status_def portal_lookup_run client_status_def)

lemma probe_run:
  "schedule w = [] \<Longrightarrow> fst (probe db url ok ip w) = Ok
     (if client_status db ip w = Some ''denied'' then Portal.RedirectTo (url @ ''/blocked'')
      else if client_status db ip w = Some ''quarantined'' then Portal.RedirectTo url else ok)"
  by (simp add: probe_def io_bind_def endpoint_status_run io_return_def)

lemma blocked_served:
  "rq_method rq = Get \<Longrightarrow> rq_path rq = ''/blocked'' \<Longrightarrow>
    portal_serve db site now ip rq w = (Ok (Answer (HtmlPage (blocked_html (site_pages site)))), w)"
  by (simp add: portal_serve_def portal_routes_def blocked_page_def)

text \<open>A client with no row, or one that may pass, is taken for connected: the probe succeeds.\<close>

lemma unknown_client_connected:
  assumes "schedule w = []" and "client_status db ip w = None"
    and "rq_method rq = Get" and "rq_path rq = ''/generate_204''"
  shows "fst (portal_serve db site now ip rq w) = Ok (Answer NoContent)"
  using probe_run [OF assms(1), of db "site_url site" NoContent ip] assms(2-)
  by (simp add: portal_serve_def portal_routes_def generate_204_def answer_fst)

lemma portal_serve_keeps: "keeps store_inv (portal_serve db site now ip rq)"
proof -
  have "keeps store_inv (portal_handle db site now ip rq h)" for h
    by (cases h) (auto simp: answer_def ncsi_probe_def generate_204_def hotspot_detect_def
        intro!: inv_rules portal_pages_keep handle_login_keeps split: sum.split)
  then show ?thesis
    unfolding portal_serve_def answer_def
    by (auto intro!: inv_rules portal_pages_keep split: option.split)
qed

text \<open>
  Whatever is asked of the portal, it answers and does not fail; it publishes nothing but the event of a
  login, sent with a form to \<^verbatim>\<open>/login\<close>.
\<close>

definition login_told ::
  "portal_state \<Rightarrow> user_row list \<Rightarrow> portal_request \<Rightarrow> portal_answer \<Rightarrow> nats_message \<Rightarrow> bool" where
  "login_told st us rq a m \<longleftrightarrow> rq_method rq = Post \<and> rq_path rq = ''/login''
     \<and> (\<exists>form r. rq_form rq = Inr form \<and> a = Answer r \<and> login_message st us form r m)"

lemma portal_lookup_calm: "valid (portal_calm p us) (portal_lookup db col ip) (\<lambda>_. portal_calm p us) (\<lambda>_. False)"
  unfolding portal_lookup_def
  by (intro valid_bind [where R = "\<lambda>_. portal_calm p us"] valid_ok valid_stmt valid_return)
    (auto simp: portal_calm_def valid_def)

lemma pages_calm:
  "valid (portal_calm p us) (probe db url ok ip) (\<lambda>_. portal_calm p us) (\<lambda>_. False)"
  "valid (portal_calm p us) (landing_page db pgs ip u) (\<lambda>_. portal_calm p us) (\<lambda>_. False)"
  "valid (portal_calm p us) (catch_all db url ip pq host) (\<lambda>_. portal_calm p us) (\<lambda>_. False)"
  unfolding probe_def landing_page_def catch_all_def mac_from_db_def endpoint_status_def Let_def
  by (auto intro!: valid_bind [OF portal_lookup_calm] valid_return)

lemma answer_calm:
  assumes "valid (portal_calm p us) m (\<lambda>_. portal_calm p us) (\<lambda>_. False)"
  shows "valid (portal_calm p us) (answer m) (\<lambda>_ w. published w = p) (\<lambda>_. False)"
  unfolding answer_def by (rule valid_bind [OF assms]) (auto simp: portal_calm_def intro!: valid_return)

lemma portal_serve_vouched:
  "valid (portal_calm p us) (portal_serve db site now ip rq)
     (\<lambda>a w. published w = p \<or> (\<exists>m. published w = p @ [m] \<and> login_told (site_state site) us rq a m)) (\<lambda>_. False)"
  (is "valid _ _ ?post _")
proof -
  have quiet: "valid (portal_calm p us) k ?post (\<lambda>_. False)"
    if "valid (portal_calm p us) k (\<lambda>_ w. published w = p) (\<lambda>_. False)" for k
    by (rule valid_weaken [OF that]) simp_all
  have const: "valid (portal_calm p us) (io_return a) ?post (\<lambda>_. False)" for a
    by (rule valid_return) (simp add: portal_calm_def)
  note pages = quiet [OF answer_calm [OF pages_calm(1)]] quiet [OF answer_calm [OF pages_calm(2)]]
    quiet [OF answer_calm [OF pages_calm(3)]]
  have login: "valid (portal_calm p us) (answer (handle_login db (site_state site) now ip form)) ?post (\<lambda>_. False)"
    if "rq_form rq = Inr form" "rq_method rq = Post" "rq_path rq = ''/login''" for form
    unfolding answer_def
    by (rule valid_bind [OF handle_login_vouched]) (auto intro!: valid_return simp: login_told_def that)
  have handled: "valid (portal_calm p us) (portal_handle db site now ip rq h) ?post (\<lambda>_. False)"
    if "h = Login \<longrightarrow> rq_method rq = Post \<and> rq_path rq = ''/login''" for h
    using that pages const
    by (cases h) (auto simp: ncsi_probe_def generate_204_def hotspot_detect_def intro: login split: sum.split)
  have "map_of portal_routes path = Some (m, Login) \<Longrightarrow> m = Post \<and> path = ''/login''" for path m
    by (auto simp: portal_routes_def split: if_splits)
  then show ?thesis
    unfolding portal_serve_def using pages(3) const
    by (auto intro!: handled split: option.split prod.split)
qed

section \<open>A restart of the endpoint agent\<close>

lemma register_loop_device: "register_loop tp as = Some tp' \<Longrightarrow> tp_device_id tp' = tp_device_id tp"
  by (induction as arbitrary: tp) (auto simp: agent_register_def split: prod.splits option.splits sum.splits if_splits)

text \<open>The agent registers under the same identifier after a restart, whatever new one would be made.\<close>

lemma restart_same_device:
  assumes "agent_start p v si new_id True c as h = (Some (Reporting tp secs), h')"
    and "trim new_id = new_id" and "new_id \<noteq> []"
    and "fst (agent_start p v' si' other wr c' as' h') = Some (Reporting tp' secs')"
  shows "tp_device_id tp' = tp_device_id tp"
proof -
  obtain i where i: "load_or_create_device_id new_id True h = (i, h')" "tp_device_id tp = i"
    using assms(1) by (auto simp: agent_start_def dest: register_loop_device
        split: prod.splits if_splits option.splits rust.splits)
  have "fst (load_or_create_device_id other wr h') = i" by (rule identity_stays [OF i(1) assms(2,3)])
  then have "tp_device_id tp' = i"
    using assms(4) by (auto simp: agent_start_def dest: register_loop_device
        split: prod.splits if_splits option.splits rust.splits)
  with i(2) show ?thesis by simp
qed

text \<open>An interval of no seconds ends the agent right after it has registered.\<close>

lemma zero_interval_panics:
  assumes "h_env h ''CHECKIN_INTERVAL_SECS'' = Some ''0''"
    and "register_loop \<lparr>tp_device_id = fst (load_or_create_device_id u wr h), tp_token = None\<rparr> as = Some tp"
  shows "fst (agent_start p v si u wr True as h) = Some TimerPanic"
proof -
  have "dec 0 = ''0''" by code_simp
  then have "from_str_radix 10 (2 ^ 64) ''0'' = Some 0" using from_str_radix_dec [of 0 "2 ^ 64"] by simp
  then have "checkin_interval h = Panic" by (simp add: checkin_interval_def assms(1))
  with assms(2) show ?thesis by (simp add: agent_start_def case_prod_unfold)
qed

end
