(* ===== verification/StartConfig.thy ===== *)
theory StartConfig
  imports Services
begin

text \<open>
  What the services with servers are started with: \<^verbatim>\<open>AppConfig\<close> of
  \<^verbatim>\<open>crates/nac-config\<close>, which a library fills from the environment, and what
  \<^verbatim>\<open>main\<close> of the AAA service, the API gateway and the agent gateway makes of it and of
  further variables. A value that is not set is replaced by the constant in the source.
\<close>

section \<open>The configuration\<close>

record app_config = ldap_config +
  cf_database_url :: string
  cf_redis_url :: string
  cf_nats_url :: string
  cf_listen_addr :: string
  cf_jwt_secret :: "string option"
  cf_captive_portal_addr :: "string option"
  cf_radius_secret :: "string option"
  cf_radius_auth_addr :: "string option"
  cf_radius_acct_addr :: "string option"
  cf_management_ips :: "string option"

definition public_secret :: string where
  "public_secret = ''change-me-in-production-min-32-chars''"

definition config_secret :: "app_config \<Rightarrow> bytes" where
  "config_secret cfg = as_bytes (runwrap_or public_secret (cf_jwt_secret cfg))"

section \<open>The AAA service\<close>

record aaa_setup =
  aa_ldap :: "(ldap_server \<times> ldap_client) option"
  aa_jwt_secret :: bytes
  aa_radius_secret :: bytes
  aa_radius_auth_addr :: string
  aa_radius_acct_addr :: string
  aa_portal_url :: string
  aa_portal_addr :: string

definition aaa_start :: "(string \<Rightarrow> ldap_server) \<Rightarrow> app_config \<Rightarrow> (string \<Rightarrow> string option) \<Rightarrow> aaa_setup" where
  "aaa_start server cfg env =
     \<lparr>aa_ldap = configured_ldap server (ldap_config.truncate cfg), aa_jwt_secret = config_secret cfg,
      aa_radius_secret = as_bytes (runwrap_or ''radius-shared-secret'' (cf_radius_secret cfg)),
      aa_radius_auth_addr = runwrap_or ''0.0.0.0:1812'' (cf_radius_auth_addr cfg),
      aa_radius_acct_addr = runwrap_or ''0.0.0.0:1813'' (cf_radius_acct_addr cfg),
      aa_portal_url = runwrap_or ''http://192.168.0.39:8080'' (env ''NAC_PORTAL_URL''),
      aa_portal_addr = runwrap_or ''0.0.0.0:8080'' (cf_captive_portal_addr cfg)\<rparr>"

section \<open>The gateways\<close>

record gateway_setup =
  gs_jwt_secret :: bytes
  gs_policy_manager_url :: string

definition gateway_start :: "app_config \<Rightarrow> (string \<Rightarrow> string option) \<Rightarrow> gateway_setup" where
  "gateway_start cfg env =
     \<lparr>gs_jwt_secret = config_secret cfg,
      gs_policy_manager_url = runwrap_or ''http://localhost:8001'' (env ''POLICY_MANAGER_URL'')\<rparr>"

text \<open>The agent gateway reads the variable itself and has a constant of its own.\<close>

definition agent_gateway_secret :: "(string \<Rightarrow> string option) \<Rightarrow> bytes" where
  "agent_gateway_secret env = as_bytes (runwrap_or ''change-me-in-production'' (env ''JWT_SECRET''))"

section \<open>What follows from the defaults\<close>

text \<open>The directory is used when all five settings are there, and only then.\<close>

lemma aaa_ldap_complete:
  "aa_ldap (aaa_start server cfg env) \<noteq> None \<longleftrightarrow>
     list_all (\<lambda>f. f cfg \<noteq> None)
       [cf_ldap_url, cf_ldap_bind_dn, cf_ldap_bind_pw, cf_ldap_user_base, cf_ldap_user_filter]"
  by (simp add: aaa_start_def configured_ldap_def ldap_config.truncate_def split: option.split)

text \<open>
  Without a configured secret, a token that anyone makes with the constant of the source opens the API of
  the administrators, for any name.
\<close>

lemma unset_secret_forgeable:
  assumes "\<And>c. tl_from_json lib (tl_to_json lib c) = Some c" and "cf_jwt_secret cfg = None"
    and "create_token lib now (as_bytes public_secret) user = Ok token" and "later \<le> now + 86400"
  shows "require_auth lib later (gs_jwt_secret (gateway_start cfg env)) (Some (''Bearer '' @ token)) = Ok ()"
proof -
  have "gw_verify_token lib later (as_bytes public_secret) token = Ok user"
    using created_token_verifies [OF assms(1,3), of later "as_bytes public_secret"] assms(4) by simp
  then show ?thesis
    by (simp add: require_auth_def gateway_start_def config_secret_def assms(2))
qed

end
