(* ===== verification/Wire.thy ===== *)
theory Wire
  imports PmBackground PmPosture Portal Sensor "HOL-Library.Monad_Syntax"
begin

text \<open>
  JSON as the services exchange and store it: the payloads on the bus
  (\<^verbatim>\<open>sensor/src/publisher.rs\<close>, the structures that the consumers of
  \<^verbatim>\<open>services/policy-manager\<close> and \<^verbatim>\<open>services/enforcement\<close> derive
  \<^verbatim>\<open>Deserialize\<close> for, \<^verbatim>\<open>nac-store/src/posture.rs\<close>) and the conditions of a policy
  (\<^verbatim>\<open>nac-policy-engine/src/rule.rs\<close>). A derived reader takes an object, in which unknown
  fields are ignored, a known field occurs once at most and a missing field is an error unless its type
  is \<^verbatim>\<open>Option\<close> or it has a default; or an array with one value for every field. Numbers are
  integers. The locale \<open>wire_format\<close> is the contract of a writer and its reader.
\<close>

section \<open>Reading values\<close>

fun read_bool :: "json \<Rightarrow> bool option" where
  "read_bool (JBool b) = Some b"
| "read_bool _ = None"

fun read_str :: "json \<Rightarrow> string option" where
  "read_str (JStr s) = Some s"
| "read_str _ = None"

fun read_int :: "int \<Rightarrow> int \<Rightarrow> json \<Rightarrow> int option" where
  "read_int lo hi (JNum n) = (if lo \<le> n \<and> n < hi then Some n else None)"
| "read_int lo hi _ = None"

definition read_i64 :: "json \<Rightarrow> int option" where
  "read_i64 = read_int (- (2 ^ 63)) (2 ^ 63)"

definition read_u16 :: "json \<Rightarrow> u16 option" where
  "read_u16 j = map_option word_of_int (read_int 0 (2 ^ 16) j)"

fun read_vec :: "(json \<Rightarrow> 'a option) \<Rightarrow> json \<Rightarrow> 'a list option" where
  "read_vec get (JArr js) = those (map get js)"
| "read_vec get _ = None"

definition read_option :: "(json \<Rightarrow> 'a option) \<Rightarrow> json \<Rightarrow> 'a option option" where
  "read_option get j = (if j = JNull then Some None else map_option Some (get j))"

definition put_option :: "('a \<Rightarrow> json) \<Rightarrow> 'a option \<Rightarrow> json" where
  "put_option put x = (case x of None \<Rightarrow> JNull | Some y \<Rightarrow> put y)"

section \<open>Reading structures\<close>

definition once_each :: "string list \<Rightarrow> (string \<times> json) list \<Rightarrow> bool" where
  "once_each names fs \<longleftrightarrow> distinct (filter (\<lambda>k. k \<in> set names) (map fst fs))"

fun struct_fields :: "string list \<Rightarrow> json \<Rightarrow> (string \<times> json) list option" where
  "struct_fields names (JObj fs) = (if once_each names fs then Some fs else None)"
| "struct_fields names (JArr js) = (if length js = length names then Some (zip names js) else None)"
| "struct_fields names _ = None"

definition required :: "string \<Rightarrow> (json \<Rightarrow> 'a option) \<Rightarrow> (string \<times> json) list \<Rightarrow> 'a option" where
  "required k get fs = Option.bind (map_of fs k) get"

definition optional :: "string \<Rightarrow> (json \<Rightarrow> 'a option) \<Rightarrow> (string \<times> json) list \<Rightarrow> 'a option option" where
  "optional k get fs = (case map_of fs k of None \<Rightarrow> Some None | Some j \<Rightarrow> read_option get j)"

definition defaulted :: "'a \<Rightarrow> string \<Rightarrow> (json \<Rightarrow> 'a option) \<Rightarrow> (string \<times> json) list \<Rightarrow> 'a option" where
  "defaulted d k get fs = (case map_of fs k of None \<Rightarrow> Some d | Some j \<Rightarrow> get j)"

section \<open>The contract of a format\<close>

locale wire_format =
  fixes ok :: "'a \<Rightarrow> bool"
    and put :: "'a \<Rightarrow> json"
    and get :: "json \<Rightarrow> 'a option"
  assumes get_put: "ok x \<Longrightarrow> get (put x) = Some x"
    and put_not_null: "put x \<noteq> JNull"
begin

lemma put_inject: "ok x \<Longrightarrow> ok y \<Longrightarrow> put x = put y \<longleftrightarrow> x = y"
  by (metis get_put option.inject)

lemma get_put_all: "list_all ok xs \<Longrightarrow> those (map get (map put xs)) = Some xs"
  by (induction xs) (simp_all add: get_put)

lemma vec_format: "wire_format (list_all ok) (\<lambda>xs. JArr (map put xs)) (read_vec get)"
  by unfold_locales (simp_all add: get_put_all del: map_map)

lemma option_read: "pred_option ok x \<Longrightarrow> read_option get (put_option put x) = Some x"
  by (cases x) (simp_all add: read_option_def put_option_def get_put put_not_null)

lemma required_read: "map_of fs k = Some (put x) \<Longrightarrow> ok x \<Longrightarrow> required k get fs = Some x"
  by (simp add: required_def get_put)

lemma defaulted_read: "map_of fs k = Some (put x) \<Longrightarrow> ok x \<Longrightarrow> defaulted d k get fs = Some x"
  by (simp add: defaulted_def get_put)

lemma optional_read:
  "map_of fs k = Some (put_option put x) \<Longrightarrow> pred_option ok x \<Longrightarrow> optional k get fs = Some x"
  by (simp add: optional_def option_read)

lemmas fields_read = required_read defaulted_read optional_read

end

abbreviation any :: "'a \<Rightarrow> bool" where
  "any \<equiv> (\<lambda>_. True)"

abbreviation strings_json :: "string list \<Rightarrow> json" where
  "strings_json ss \<equiv> JArr (map JStr ss)"

definition i64_range :: "int \<Rightarrow> bool" where
  "i64_range n \<longleftrightarrow> - (2 ^ 63) \<le> n \<and> n < 2 ^ 63"

interpretation str: wire_format any JStr read_str
  by unfold_locales simp_all

interpretation bool: wire_format any JBool read_bool
  by unfold_locales simp_all

interpretation i64: wire_format i64_range JNum read_i64
  by unfold_locales (simp_all add: i64_range_def read_i64_def)

interpretation u16: wire_format any "\<lambda>v. JNum (uint v)" read_u16
proof
  fix v :: u16
  show "read_u16 (JNum (uint v)) = Some v"
    using uint_lt2p [of v] by (simp add: read_u16_def)
qed simp

lemma list_all_any [simp]: "list_all any xs" "pred_option any x"
  by (simp_all add: list_all_iff option.pred_set)

interpretation strs: wire_format any strings_json "read_vec read_str"
  using str.vec_format by (simp add: wire_format_def)

lemma jopt_put: "jopt = put_option JStr"
  by (rule ext) (simp add: jopt_def put_option_def)

lemmas field_defs = required_def optional_def defaulted_def once_each_def

lemmas values_read = str.get_put bool.get_put i64.get_put u16.get_put str.option_read u16.option_read
  strs.get_put str.option_read [folded jopt_put]

section \<open>Messages\<close>

text \<open>\<^verbatim>\<open>EndpointDetectedEvent\<close>, as the sensor writes it and as the policy manager reads it.\<close>

definition endpoint_event_json :: "endpoint_detected \<Rightarrow> json" where
  "endpoint_event_json e = JObj
     [(''mac_address'', JStr (de_mac_address e)), (''ip_address'', JStr (de_ip_address e)),
      (''interface'', JStr (de_interface e)), (''source'', JStr (de_source e)),
      (''timestamp'', JNum (de_timestamp e)), (''hostname'', jopt (de_hostname e)),
      (''os_family'', jopt (de_os_family e)), (''os_version'', jopt (de_os_version e)),
      (''device_type'', jopt (de_device_type e)), (''vendor'', jopt (de_vendor e))]"

definition read_endpoint_event :: "json \<Rightarrow> endpoint_detected option" where
  "read_endpoint_event j = do {
     fs \<leftarrow> struct_fields [''mac_address'', ''ip_address'', ''interface'', ''source'', ''timestamp'',
       ''hostname'', ''os_family'', ''os_version'', ''device_type'', ''vendor''] j;
     mac \<leftarrow> required ''mac_address'' read_str fs;
     ip \<leftarrow> required ''ip_address'' read_str fs;
     iface \<leftarrow> required ''interface'' read_str fs;
     source \<leftarrow> required ''source'' read_str fs;
     ts \<leftarrow> required ''timestamp'' read_i64 fs;
     host \<leftarrow> optional ''hostname'' read_str fs;
     os \<leftarrow> optional ''os_family'' read_str fs;
     ver \<leftarrow> optional ''os_version'' read_str fs;
     dev \<leftarrow> optional ''device_type'' read_str fs;
     vendor \<leftarrow> optional ''vendor'' read_str fs;
     Some \<lparr>de_mac_address = mac, de_ip_address = ip, de_interface = iface, de_source = source,
       de_timestamp = ts, de_hostname = host, de_os_family = os, de_os_version = ver,
       de_device_type = dev, de_vendor = vendor\<rparr> }"

text \<open>\<^verbatim>\<open>EnforcementCommand\<close>, as \<^verbatim>\<open>json!\<close> builds it in the policy manager.\<close>

definition command_json :: "enforcement_command \<Rightarrow> json" where
  "command_json c = JObj
     [(''mac_address'', JStr (cmd_mac_address c)), (''ip_address'', JStr (cmd_ip_address c)),
      (''action'', JStr (cmd_action c)), (''gateway_ip'', JStr (cmd_gateway_ip c)),
      (''gateway_mac'', jopt (cmd_gateway_mac c)),
      (''vlan_id'', put_option (\<lambda>v. JNum (uint v)) (cmd_vlan_id c))]"

definition read_command :: "json \<Rightarrow> enforcement_command option" where
  "read_command j = do {
     fs \<leftarrow> struct_fields [''mac_address'', ''ip_address'', ''action'', ''gateway_ip'', ''gateway_mac'',
       ''vlan_id''] j;
     mac \<leftarrow> required ''mac_address'' read_str fs;
     ip \<leftarrow> required ''ip_address'' read_str fs;
     action \<leftarrow> required ''action'' read_str fs;
     gip \<leftarrow> required ''gateway_ip'' read_str fs;
     gmac \<leftarrow> optional ''gateway_mac'' read_str fs;
     vlan \<leftarrow> optional ''vlan_id'' read_u16 fs;
     Some \<lparr>cmd_mac_address = mac, cmd_ip_address = ip, cmd_action = action, cmd_gateway_ip = gip,
       cmd_gateway_mac = gmac, cmd_vlan_id = vlan\<rparr> }"

interpretation event: wire_format "\<lambda>e. i64_range (de_timestamp e)" endpoint_event_json read_endpoint_event
  by unfold_locales
    (simp_all add: endpoint_event_json_def read_endpoint_event_def field_defs values_read)

interpretation command: wire_format any command_json read_command
  by unfold_locales (simp_all add: command_json_def read_command_def field_defs values_read)

text \<open>
  The events of the ARP synchronisation have no field for what fingerprinting found; they are read with
  nothing there.
\<close>

definition arp_sync_event :: "string \<Rightarrow> string \<Rightarrow> int \<Rightarrow> endpoint_detected" where
  "arp_sync_event mac ip now =
     \<lparr>de_mac_address = mac, de_ip_address = ip, de_interface = [], de_source = ''arp-sync'',
      de_timestamp = now, de_hostname = None, de_os_family = None, de_os_version = None,
      de_device_type = None, de_vendor = None\<rparr>"

lemma detected_event_read:
  assumes "i64_range now"
  obtains j where "detected_event mac ip now = OtherEvent ''nac.events.endpoint.detected'' j"
    and "read_endpoint_event j = Some (arp_sync_event mac ip now)"
  using assms by (simp add: detected_event_def read_endpoint_event_def arp_sync_event_def field_defs values_read)

text \<open>
  \<^verbatim>\<open>AuthResponseEvent\<close> of the portal and \<^verbatim>\<open>AuthResponse\<close> of the policy manager. The
  identifiers are sent as texts and read as UUIDs.
\<close>

definition auth_event_json :: "auth_response_event \<Rightarrow> json" where
  "auth_event_json e = JObj
     [(''session_id'', jopt (ae_session_id e)), (''endpoint_id'', jopt (ae_endpoint_id e)),
      (''mac_address'', JStr (ae_mac_address e)), (''ip_address'', JStr (ae_ip_address e)),
      (''success'', JBool (ae_success e)), (''username'', jopt (ae_username e)),
      (''groups'', strings_json (ae_groups e)), (''reason'', jopt (ae_reason e))]"

definition read_uuid :: "(string \<Rightarrow> uuid option) \<Rightarrow> json \<Rightarrow> uuid option" where
  "read_uuid uuid_in j = Option.bind (read_str j) uuid_in"

definition read_auth_response :: "(string \<Rightarrow> uuid option) \<Rightarrow> json \<Rightarrow> auth_response option" where
  "read_auth_response uuid_in j = do {
     fs \<leftarrow> struct_fields [''session_id'', ''endpoint_id'', ''mac_address'', ''ip_address'', ''success'',
       ''username'', ''groups'', ''reason''] j;
     sid \<leftarrow> optional ''session_id'' (read_uuid uuid_in) fs;
     eid \<leftarrow> optional ''endpoint_id'' (read_uuid uuid_in) fs;
     mac \<leftarrow> required ''mac_address'' read_str fs;
     ip \<leftarrow> defaulted [] ''ip_address'' read_str fs;
     success \<leftarrow> required ''success'' read_bool fs;
     user \<leftarrow> optional ''username'' read_str fs;
     groups \<leftarrow> required ''groups'' (read_vec read_str) fs;
     reason \<leftarrow> optional ''reason'' read_str fs;
     Some \<lparr>ar_session_id = sid, ar_endpoint_id = eid, ar_mac_address = mac, ar_ip_address = ip,
       ar_success = success, ar_username = user, ar_groups = groups, ar_reason = reason\<rparr> }"

lemma read_uuid_option: "read_option (read_uuid uuid_in) (jopt s) = read_id uuid_in s"
  by (simp add: read_option_def read_uuid_def read_id_def jopt_def split: option.split)

text \<open>What is read is what \<open>auth_message\<close> puts on the bus.\<close>

lemma auth_event_read:
  "read_auth_response uuid_in (auth_event_json e) =
     (case auth_message uuid_in e of AuthResponse a \<Rightarrow> Some a | _ \<Rightarrow> None)"
proof -
  note vec = strs.get_put [simplified]
  show ?thesis
    by (simp add: auth_event_json_def read_auth_response_def field_defs values_read vec read_uuid_option
        auth_message_def split: option.split)
qed

text \<open>\<^verbatim>\<open>SoftwareItem\<close>, \<^verbatim>\<open>PatchItem\<close> and \<^verbatim>\<open>PostureReport\<close>.\<close>

definition software_json :: "software_item \<Rightarrow> json" where
  "software_json i = JObj [(''name'', JStr (sw_name i)), (''version'', JStr (sw_version i))]"

definition read_software :: "json \<Rightarrow> software_item option" where
  "read_software j = do {
     fs \<leftarrow> struct_fields [''name'', ''version''] j;
     name \<leftarrow> required ''name'' read_str fs;
     version \<leftarrow> required ''version'' read_str fs;
     Some \<lparr>sw_name = name, sw_version = version\<rparr> }"

definition patch_json :: "patch_item \<Rightarrow> json" where
  "patch_json i = JObj [(''kb_id'', JStr (kb_id i)), (''description'', JStr (pt_description i))]"

definition read_patch :: "json \<Rightarrow> patch_item option" where
  "read_patch j = do {
     fs \<leftarrow> struct_fields [''kb_id'', ''description''] j;
     kb \<leftarrow> required ''kb_id'' read_str fs;
     desc \<leftarrow> required ''description'' read_str fs;
     Some \<lparr>kb_id = kb, pt_description = desc\<rparr> }"

interpretation software: wire_format any software_json read_software
  by unfold_locales (simp_all add: software_json_def read_software_def field_defs values_read)

interpretation patch: wire_format any patch_json read_patch
  by unfold_locales (simp_all add: patch_json_def read_patch_def field_defs values_read)

definition softwares_json :: "software_item list \<Rightarrow> json" where
  "softwares_json is = JArr (map software_json is)"

definition patches_json :: "patch_item list \<Rightarrow> json" where
  "patches_json is = JArr (map patch_json is)"

interpretation softwares: wire_format any softwares_json "read_vec read_software"
  using software.vec_format by (simp add: wire_format_def softwares_json_def)

interpretation patches: wire_format any patches_json "read_vec read_patch"
  using patch.vec_format by (simp add: wire_format_def patches_json_def)

definition report_json :: "posture_report \<Rightarrow> json" where
  "report_json r = JObj
     [(''device_id'', JStr (device_id r)), (''os'', JStr (pr_os r)),
      (''os_version'', JStr (pr_os_version r)),
      (''installed_software'', softwares_json (installed_software r)),
      (''missing_patches'', patches_json (missing_patches r)),
      (''usb_enabled'', JBool (usb_enabled r)), (''bluetooth_enabled'', JBool (bluetooth_enabled r)),
      (''folder_sharing_enabled'', JBool (folder_sharing_enabled r)),
      (''timestamp'', JNum (pr_timestamp r))]"

definition read_report :: "json \<Rightarrow> posture_report option" where
  "read_report j = do {
     fs \<leftarrow> struct_fields [''device_id'', ''os'', ''os_version'', ''installed_software'',
       ''missing_patches'', ''usb_enabled'', ''bluetooth_enabled'', ''folder_sharing_enabled'',
       ''timestamp''] j;
     dev \<leftarrow> required ''device_id'' read_str fs;
     os \<leftarrow> required ''os'' read_str fs;
     ver \<leftarrow> required ''os_version'' read_str fs;
     sw \<leftarrow> required ''installed_software'' (read_vec read_software) fs;
     pt \<leftarrow> required ''missing_patches'' (read_vec read_patch) fs;
     usb \<leftarrow> required ''usb_enabled'' read_bool fs;
     bt \<leftarrow> required ''bluetooth_enabled'' read_bool fs;
     sharing \<leftarrow> required ''folder_sharing_enabled'' read_bool fs;
     ts \<leftarrow> required ''timestamp'' read_i64 fs;
     Some \<lparr>device_id = dev, pr_os = os, pr_os_version = ver, installed_software = sw,
       missing_patches = pt, usb_enabled = usb, bluetooth_enabled = bt,
       folder_sharing_enabled = sharing, pr_timestamp = ts\<rparr> }"

interpretation report: wire_format "\<lambda>r. i64_range (pr_timestamp r)" report_json read_report
  by unfold_locales
    (simp_all add: report_json_def read_report_def field_defs values_read softwares.get_put patches.get_put)

section \<open>Conditions of a policy\<close>

text \<open>
  \<^verbatim>\<open>Condition\<close> is tagged by the field \<^verbatim>\<open>type\<close>, the name of the variant in snake case. A
  condition inside another one is read from a buffered value, where the tag may also be the number of
  the variant.
\<close>

definition condition_tags :: "string list" where
  "condition_tags = [''os_family'', ''user_group'', ''compliant'', ''device_type'', ''and'', ''or'', ''not'',
     ''mac_list'', ''os_version_below'', ''os_version_at_least'', ''software_installed'',
     ''software_not_installed'', ''has_missing_patches'', ''usb_enabled'', ''bluetooth_enabled'',
     ''folder_sharing_enabled'', ''mac_blacklist'']"

fun read_tag :: "bool \<Rightarrow> json \<Rightarrow> string option" where
  "read_tag buffered (JStr t) = (if t \<in> set condition_tags then Some t else None)"
| "read_tag buffered (JNum n) =
     (if buffered \<and> 0 \<le> n \<and> nat n < length condition_tags then Some (condition_tags ! nat n) else None)"
| "read_tag buffered _ = None"

fun read_variant :: "bool \<Rightarrow> json \<Rightarrow> (string \<times> json) option" where
  "read_variant buffered (JObj fs) =
     (if once_each [''type''] fs then do {
        tag \<leftarrow> required ''type'' (read_tag buffered) fs;
        Some (tag, JObj (filter (\<lambda>(k, _). k \<noteq> ''type'') fs)) }
      else None)"
| "read_variant buffered (JArr (t # js)) = map_option (\<lambda>tag. (tag, JArr js)) (read_tag buffered t)"
| "read_variant buffered _ = None"

text \<open>The only field of a variant, and a variant without fields.\<close>

definition only_field :: "string \<Rightarrow> json \<Rightarrow> json option" where
  "only_field k body = Option.bind (struct_fields [k] body) (\<lambda>fs. map_of fs k)"

fun no_fields :: "json \<Rightarrow> bool" where
  "no_fields (JObj fs) = True"
| "no_fields (JArr js) = (js = [])"
| "no_fields _ = False"

lemma map_of_size: "map_of fs k = Some j \<Longrightarrow> size j < size (JObj fs)"
  by (drule map_of_SomeD) (force simp: size_list_estimation' less_Suc_eq_le)

lemma read_variant_size: "read_variant b j = Some (tag, body) \<Longrightarrow> size body \<le> size j"
proof (induction b j rule: read_variant.induct)
  case (1 b fs)
  have "size (JObj (filter P fs)) \<le> size (JObj fs)" for P
    by (induction fs) (auto split: prod.split)
  with 1 show ?case by (auto split: if_splits bind_splits)
qed auto

lemma only_field_size: "only_field k body = Some j \<Longrightarrow> size j < size body"
proof (induction "[k]" body rule: struct_fields.induct)
  case (1 fs)
  then show ?case by (auto simp: only_field_def simp del: json.size split: if_splits intro: map_of_size)
next
  case (2 js)
  then show ?case by (auto simp: only_field_def length_Suc_conv split: if_splits)
qed (auto simp: only_field_def)

lemma field_size: "read_variant b j = Some (tag, body) \<Longrightarrow> only_field k body = Some j' \<Longrightarrow> size j' < size j"
  using read_variant_size only_field_size by fastforce

lemma element_size: "x \<in> set js \<Longrightarrow> size x < size (JArr js)"
  by (simp add: less_Suc_eq_le size_list_estimation')

function read_condition :: "bool \<Rightarrow> json \<Rightarrow> condition option" where
  "read_condition buffered j =
     (case read_variant buffered j of
        None \<Rightarrow> None
      | Some (tag, body) \<Rightarrow>
          if tag = ''os_family'' then map_option OsFamily (only_field ''value'' body \<bind> read_str)
          else if tag = ''user_group'' then
            map_option UserGroup (only_field ''groups'' body \<bind> read_vec read_str)
          else if tag = ''compliant'' then map_option Compliant (only_field ''required'' body \<bind> read_bool)
          else if tag = ''device_type'' then map_option DeviceType (only_field ''value'' body \<bind> read_str)
          else if tag = ''and'' then
            (case only_field ''conditions'' body of
               Some (JArr js) \<Rightarrow> map_option And (those (map (read_condition True) js))
             | _ \<Rightarrow> None)
          else if tag = ''or'' then
            (case only_field ''conditions'' body of
               Some (JArr js) \<Rightarrow> map_option Or (those (map (read_condition True) js))
             | _ \<Rightarrow> None)
          else if tag = ''not'' then
            (case only_field ''condition'' body of
               Some j' \<Rightarrow> map_option Not (read_condition True j')
             | None \<Rightarrow> None)
          else if tag = ''mac_list'' then map_option MacList (only_field ''macs'' body \<bind> read_vec read_str)
          else if tag = ''os_version_below'' then
            map_option OsVersionBelow (only_field ''version'' body \<bind> read_str)
          else if tag = ''os_version_at_least'' then
            map_option OsVersionAtLeast (only_field ''version'' body \<bind> read_str)
          else if tag = ''software_installed'' then
            map_option SoftwareInstalled (only_field ''name'' body \<bind> read_str)
          else if tag = ''software_not_installed'' then
            map_option SoftwareNotInstalled (only_field ''name'' body \<bind> read_str)
          else if tag = ''mac_blacklist'' then
            map_option MacBlacklist (only_field ''macs'' body \<bind> read_vec read_str)
          else if \<not> no_fields body then None
          else if tag = ''has_missing_patches'' then Some HasMissingPatches
          else if tag = ''usb_enabled'' then Some UsbEnabled
          else if tag = ''bluetooth_enabled'' then Some BluetoothEnabled
          else Some FolderSharingEnabled)"
  by pat_completeness auto

termination
proof (relation "measure (\<lambda>(_, j). size j)")
  show "wf (measure (\<lambda>(_ :: bool, j :: json). size j))" by simp
qed (auto simp del: json.size dest!: field_size element_size)

declare read_condition.simps [simp del]

fun condition_json :: "condition \<Rightarrow> json" where
  "condition_json (OsFamily v) = JObj [(''type'', JStr ''os_family''), (''value'', JStr v)]"
| "condition_json (UserGroup gs) = JObj [(''type'', JStr ''user_group''), (''groups'', strings_json gs)]"
| "condition_json (Compliant b) = JObj [(''type'', JStr ''compliant''), (''required'', JBool b)]"
| "condition_json (DeviceType v) = JObj [(''type'', JStr ''device_type''), (''value'', JStr v)]"
| "condition_json (And cs) =
     JObj [(''type'', JStr ''and''), (''conditions'', JArr (map condition_json cs))]"
| "condition_json (Or cs) =
     JObj [(''type'', JStr ''or''), (''conditions'', JArr (map condition_json cs))]"
| "condition_json (Not c) = JObj [(''type'', JStr ''not''), (''condition'', condition_json c)]"
| "condition_json (MacList ms) = JObj [(''type'', JStr ''mac_list''), (''macs'', strings_json ms)]"
| "condition_json (OsVersionBelow v) = JObj [(''type'', JStr ''os_version_below''), (''version'', JStr v)]"
| "condition_json (OsVersionAtLeast v) = JObj [(''type'', JStr ''os_version_at_least''), (''version'', JStr v)]"
| "condition_json (SoftwareInstalled n) = JObj [(''type'', JStr ''software_installed''), (''name'', JStr n)]"
| "condition_json (SoftwareNotInstalled n) =
     JObj [(''type'', JStr ''software_not_installed''), (''name'', JStr n)]"
| "condition_json HasMissingPatches = JObj [(''type'', JStr ''has_missing_patches'')]"
| "condition_json UsbEnabled = JObj [(''type'', JStr ''usb_enabled'')]"
| "condition_json BluetoothEnabled = JObj [(''type'', JStr ''bluetooth_enabled'')]"
| "condition_json FolderSharingEnabled = JObj [(''type'', JStr ''folder_sharing_enabled'')]"
| "condition_json (MacBlacklist ms) = JObj [(''type'', JStr ''mac_blacklist''), (''macs'', strings_json ms)]"

lemma those_map_put: "(\<And>x. x \<in> set xs \<Longrightarrow> get (put x) = Some x) \<Longrightarrow> those (map (\<lambda>x. get (put x)) xs) = Some xs"
  by (induction xs) simp_all

lemma read_condition_json: "read_condition b (condition_json c) = Some c"
proof (induction c arbitrary: b)
  case (And cs)
  then have "those (map (\<lambda>x. read_condition True (condition_json x)) cs) = Some cs"
    by (intro those_map_put) blast
  then show ?case
    by (simp add: read_condition.simps [of _ "JObj _"] condition_tags_def only_field_def field_defs comp_def)
next
  case (Or cs)
  then have "those (map (\<lambda>x. read_condition True (condition_json x)) cs) = Some cs"
    by (intro those_map_put) blast
  then show ?case
    by (simp add: read_condition.simps [of _ "JObj _"] condition_tags_def only_field_def field_defs comp_def)
qed (simp_all add: read_condition.simps [of _ "JObj _"] condition_tags_def only_field_def field_defs values_read
    strs.get_put [simplified])

end
