(* ===== verification/Sighting.thy ===== *)
theory Sighting
  imports Sensor
begin

text \<open>
  From a captured frame to the database: what the policy manager knows after it has handled the report
  of the sensor. Handling a sighting stores the reported address for the reported device, whatever the
  rest of the handler does, so a frame that the enforcement agent forged for the gateway ends up as a
  row that gives the agent's own hardware address the address of the gateway.
\<close>

section \<open>A device at an address\<close>

definition place :: "endpoint_row \<Rightarrow> string \<times> string option" where
  "place r = (ep_mac_address r, ep_ip_address r)"

definition located :: "string \<Rightarrow> string option \<Rightarrow> world \<Rightarrow> bool" where
  "located m a w \<longleftrightarrow> (m, a) \<in> place ` set (endpoints w)"

interpretation located: io_invariant "located m a" for m a
  by unfold_locales (simp_all add: located_def)

lemmas located_rules = located.keeps_return located.keeps_fail located.keeps_bind located.keeps_seq
  located.keeps_ok located.keeps_when located.keeps_publish

lemma located_frame:
  assumes "\<And>es. keeps (\<lambda>w. endpoints w = es) k"
  shows "keeps (located m a) k"
  using frame_keeps [OF assms, of "\<lambda>es. (m, a) \<in> place ` set es"] by (simp add: located_def [abs_def])

lemmas located_ops = store_frame [THEN located_frame]

lemma places_update: "(\<And>r. place (f r) = place r) \<Longrightarrow> place ` set (update_rows P f rows) = place ` set rows"
  unfolding update_rows_def by (induction rows) auto

lemma ep_set_status_located: "keeps (located m a) (ep_set_status i s)"
proof -
  have "place ` set (update_rows P (\<lambda>r. r\<lparr>ep_status := s\<rparr>) rows) = place ` set rows" for P rows
    by (rule places_update) (simp add: place_def)
  then show ?thesis
    unfolding ep_set_status_def by (intro located.keeps_stmt) (simp_all add: located_def update_endpoint_def)
qed

section \<open>Storing a sighting\<close>

lemma update_rows_hit:
  "old \<in> set rows \<Longrightarrow> r \<in> set (update_rows (\<lambda>x. ep_id x = ep_id old) (\<lambda>_. r) rows)"
  by (force simp: update_rows_def)

lemma find_row_mac: "find_row (\<lambda>r. ep_mac_address r = m) rows = Some old \<Longrightarrow> old \<in> set rows \<and> ep_mac_address old = m"
  using find_row_SomeD by fastforce

lemma no_agent_taken [simp]: "\<not> agent_taken rows None i"
  by (simp add: agent_taken_def)

lemma old_agent_free:
  "endpoints_ok w \<Longrightarrow> old \<in> set (endpoints w) \<Longrightarrow> \<not> agent_taken (endpoints w) (ep_agent_id old) (ep_id old)"
  unfolding agent_taken_def endpoints_ok_def agents_ok_def list_ex_iff by metis

lemma ep_upsert_located:
  assumes "mac_in db (up_mac_address ep) = Some m" and "up_ip_address ep = Some t"
    and "inet_in db t = Some i" and "up_agent_id ep = None"
  shows "valid (\<lambda>w. schedule w = [] \<and> store_inv w) (ep_upsert db ep) (\<lambda>_. located m (Some i)) (located m (Some i))"
  unfolding valid_def
proof (intro allI impI)
  fix w
  assume w: "schedule w = [] \<and> store_inv w"
  then have ok: "endpoints_ok w" by (simp add: store_inv_def)
  show "case ep_upsert db ep w of (Ok x, w') \<Rightarrow> located m (Some i) w' | (Err e, w') \<Rightarrow> located m (Some i) w'
    | (Panic, w') \<Rightarrow> False"
  proof (cases "find_row (\<lambda>r. ep_mac_address r = m) (endpoints w)")
    case None
    then show ?thesis using w assms
      by (simp add: ep_upsert_def stmt_delivered cast_inet_def Let_def located_def new_endpoint_def place_def)
  next
    case (Some old)
    define r where "r = merge_endpoint ep (Some i) (clock w + 1) old"
    have old: "old \<in> set (endpoints w)" "ep_mac_address old = m" using find_row_mac [OF Some] by auto
    have r: "place r = (m, Some i)" "ep_agent_id r = ep_agent_id old"
      by (simp_all add: r_def merge_endpoint_def old(2) assms(4) coalesce_def place_def)
    have "ep_upsert db ep w =
        (Ok r, (tick w)\<lparr>endpoints := update_rows (\<lambda>x. ep_id x = ep_id old) (\<lambda>_. r) (endpoints w)\<rparr>)"
      using w assms Some old_agent_free [OF ok old(1)] r(2)
      by (simp add: ep_upsert_def stmt_delivered cast_inet_def Let_def r_def)
    moreover have "(m, Some i) \<in> place ` set (update_rows (\<lambda>x. ep_id x = ep_id old) (\<lambda>_. r) (endpoints w))"
      using update_rows_hit [OF old(1), of r] r(1) by (metis imageI)
    ultimately show ?thesis by (simp add: located_def)
  qed
qed

text \<open>The rest of the handler moves nothing.\<close>

lemma located_steps:
  "keeps (located m a) (publish_enforcement_command mac ip s d)"
  "keeps (located m a) (change_status db row ip d)"
  "keeps (located m a) (io_evaluate rules ctx)"
proof -
  show p: "keeps (located m a) (publish_enforcement_command mac ip s d)" for mac ip s
    unfolding publish_enforcement_command_def by (auto intro!: located_rules split: option.split)
  show "keeps (located m a) (change_status db row ip d)"
    unfolding change_status_def Let_def by (auto intro!: located_rules ep_set_status_located located_ops p)
  show "keeps (located m a) (io_evaluate rules ctx)"
    unfolding io_evaluate_def by (rule located.keeps_pure) (auto simp: evaluate_not_panic split: rust.splits)
qed

theorem process_event_located:
  assumes "mac_in db (de_mac_address event) = Some m" and "de_ip_address event \<noteq> []"
    and "inet_in db (de_ip_address event) = Some i"
  shows "valid (\<lambda>w. schedule w = [] \<and> store_inv w) (process_event db event)
    (\<lambda>_. located m (Some i)) (located m (Some i))"
proof -
  have find: "valid (\<lambda>w. schedule w = [] \<and> store_inv w) (io_ok (ep_find_by_mac db k))
      (\<lambda>_ w. schedule w = [] \<and> store_inv w) E" for k E
    unfolding valid_def by (auto simp: io_ok_def ep_find_by_mac_def stmt_delivered inv.I_tick split: option.split)
  have rest: "valid (located m a) k (\<lambda>_. located m a) (located m a)" if "keeps (located m a) k"
    for a :: "string option" and k :: "unit io"
    using that by (rule keepsD)
  show ?thesis
    unfolding process_event_def Let_def
    by (rule valid_bind [OF find valid_bind [OF ep_upsert_located]])
       (auto simp: assms intro!: rest located_rules located_steps located_ops)
qed

end
