(* ===== verification/PolicyTexts.thy ===== *)
theory PolicyTexts
  imports Wire Sighting PmEvaluate PmApi
begin

text \<open>
  The conditions of a policy as they are stored: JSON that the administrator sends, kept as it is by
  \<^verbatim>\<open>api/policies.rs\<close> and read when the rules are loaded
  (\<^verbatim>\<open>nac-store/src/policy.rs\<close>). The lemmas say what a stored policy decides, what one policy
  that cannot be read does to every handler, and what the policies of the migrations decide.
\<close>

section \<open>Stored conditions\<close>

text \<open>The database with the readers and writers of JSON that the services derive.\<close>

definition with_json :: "pg \<Rightarrow> pg" where
  "with_json db = db\<lparr>conditions_from_json := read_vec (read_condition False),
     software_to_json := softwares_json, software_from_json := read_vec read_software,
     patches_to_json := patches_json\<rparr>"

lemma with_json_simps [simp]:
  "conditions_from_json (with_json db) = read_vec (read_condition False)"
  "software_to_json (with_json db) = softwares_json"
  "software_from_json (with_json db) = read_vec read_software"
  "patches_to_json (with_json db) = patches_json"
  "mac_in (with_json db) = mac_in db" "inet_in (with_json db) = inet_in db"
  "inet_host (with_json db) = inet_host db" "debug_decision (with_json db) = debug_decision db"
  by (simp_all add: with_json_def)

interpretation condition: wire_format any condition_json "read_condition b" for b
proof
  fix c
  show "read_condition b (condition_json c) = Some c" by (rule read_condition_json)
  show "condition_json c \<noteq> JNull" by (cases c) simp_all
qed

interpretation conditions: wire_format any "\<lambda>cs. JArr (map condition_json cs)" "read_vec (read_condition b)" for b
  using condition.vec_format [of b] by (simp add: wire_format_def)

definition stored_conditions :: "condition list \<Rightarrow> json" where
  "stored_conditions cs = JArr (map condition_json cs)"

lemma stored_rule:
  assumes "po_conditions row = stored_conditions cs"
  obtains rule where "to_policy_rule (with_json db) row = Ok rule"
    and "pr_name rule = po_name row" and "pr_priority rule = po_priority row"
    and "\<And>ctx. matches_condition (pr_condition rule) ctx \<longleftrightarrow> list_all (\<lambda>c. matches_condition c ctx) cs"
    and "\<And>ep. condition_matches (with_json db) (pr_condition rule) ep \<longleftrightarrow>
          list_all (\<lambda>c. condition_matches (with_json db) c ep) cs"
    and "decision_to_status (pr_decision rule) =
          (if po_action row = ''allow'' then ''allowed''
           else if po_action row = ''quarantine'' then ''quarantined'' else ''denied'')"
proof -
  define cond where "cond = (case cs of [] \<Rightarrow> And [] | [c] \<Rightarrow> c | _ \<Rightarrow> And cs)"
  define d where "d = (if po_action row = ''allow'' then Allow
      else if po_action row = ''quarantine'' then Quarantine (runwrap_or 99 (po_vlan_id row)) (''policy: '' @ po_name row)
      else Deny (''policy: '' @ po_name row))"
  have read: "(if po_conditions row = JNull \<or> po_conditions row = JArr [] then Some []
      else conditions_from_json (with_json db) (po_conditions row)) = Some cs"
    using assms conditions.get_put [of False cs]
    by (cases cs) (auto simp: stored_conditions_def simp del: read_vec.simps)
  have "to_policy_rule (with_json db) row =
      Ok \<lparr>pr_name = po_name row, pr_priority = po_priority row, pr_condition = cond, pr_decision = d\<rparr>"
    unfolding to_policy_rule_def read by (simp add: Let_def cond_def d_def)
  then show thesis
    by (rule that) (auto simp: cond_def d_def decision_to_status_def split: list.split)
qed

section \<open>A policy that cannot be read\<close>

definition readable :: "pg \<Rightarrow> policy_row \<Rightarrow> bool" where
  "readable db row \<longleftrightarrow> po_conditions row \<in> {JNull, JArr []} \<or> conditions_from_json db (po_conditions row) \<noteq> None"

lemma collect_rules_Ok_iff: "(\<exists>rules. collect_rules db rows = Ok rules) \<longleftrightarrow> list_all (readable db) rows"
proof (induction rows)
  case (Cons r rs)
  have "(\<exists>x. to_policy_rule db r = Ok x) \<longleftrightarrow> readable db r"
    by (auto simp: to_policy_rule_def readable_def Let_def split: option.split)
  moreover have "to_policy_rule db r \<noteq> Panic" by (auto simp: to_policy_rule_def Let_def split: option.split)
  ultimately show ?case
    using Cons.IH collect_rules_not_Panic [of db rs]
    by (cases "to_policy_rule db r"; cases "collect_rules db rs") auto
qed simp

text \<open>Some enabled policy cannot be read.\<close>

definition some_unreadable :: "pg \<Rightarrow> policy_row list \<Rightarrow> bool" where
  "some_unreadable db ps \<longleftrightarrow> list_ex (\<lambda>p. po_enabled p \<and> \<not> readable db p) ps"

lemma unreadable_load:
  assumes "some_unreadable db (policies w)"
  obtains e where "collect_rules db (enabled_policies w) = Err e"
proof -
  from assms have "\<not> list_all (readable db) (enabled_policies w)"
    by (auto simp: some_unreadable_def list_ex_iff list_all_iff enabled_policies_def)
  then have "collect_rules db (enabled_policies w) \<noteq> Ok rules" for rules
    using collect_rules_Ok_iff by blast
  then show thesis
    using collect_rules_not_Panic [of db "enabled_policies w"] that
    by (cases "collect_rules db (enabled_policies w)") auto
qed

definition held :: "nats_message list \<Rightarrow> policy_row list \<Rightarrow> world \<Rightarrow> bool" where
  "held p ps w \<longleftrightarrow> published w = p \<and> policies w = ps"

interpretation held: io_steps "held p ps" for p ps
  by unfold_locales (simp add: held_def)

lemmas held_rules = held.keeps_return held.keeps_fail held.keeps_bind held.keeps_seq held.keeps_ok
  held.keeps_when

lemma held_ops:
  "keeps (held p ps) (ep_upsert db ep)" "keeps (held p ps) (ep_find_by_mac db m)"
  "keeps (held p ps) (ep_find_by_id i)" "keeps (held p ps) (ep_find_by_host db ip)"
  "keeps (held p ps) (ep_set_username i u)" "keeps (held p ps) (ep_set_compliance i b)"
  "keeps (held p ps) (ep_update_posture_fields i f)" "keeps (held p ps) (se_find_active_by_endpoint i)"
  "keeps (held p ps) (se_find_by_id i)" "keeps (held p ps) (se_transition i st u')"
  "keeps (held p ps) (se_terminate i)" "keeps (held p ps) (audit e eid a d)"
  "keeps (held p ps) (posture_save db i rep c)"
  unfolding ep_upsert_def ep_find_by_mac_def ep_find_by_id_def ep_find_by_host_def ep_set_username_def
    ep_set_compliance_def ep_update_posture_fields_def se_find_active_by_endpoint_def se_find_by_id_def
    se_transition_def se_terminate_def audit_def posture_save_def
  by (rule held.keeps_stmt; auto simp: held_def update_endpoint_def Let_def cast_inet_def
        split: option.splits rust.splits)+

text \<open>An operation that fails whenever it comes to load the rules, and then has published nothing.\<close>

definition silent :: "nats_message list \<Rightarrow> policy_row list \<Rightarrow> bool \<Rightarrow> 'a io \<Rightarrow> bool" where
  "silent p ps may m \<longleftrightarrow> valid (held p ps) m (\<lambda>_ w. may \<and> published w = p) (\<lambda>w. published w = p)"

lemma silent_load: "some_unreadable db ps \<Longrightarrow> silent p ps False (io_bind (po_load_rules db) k)"
  "some_unreadable db ps \<Longrightarrow> silent p ps False (io_bind (po_load_rules_with_id db) k')"
proof -
  have load: "valid (held p ps) (stmt (\<lambda>w. (Ok (enabled_policies w), w)))
      (\<lambda>rows w. held p ps w \<and> rows = enabled_policies w) (\<lambda>w. published w = p)"
    by (rule valid_stmt) (auto simp: valid_def held_def)
  have none: "valid (\<lambda>_. False) (k x) Q E" for k :: "'x \<Rightarrow> 'y io" and x Q E by (simp add: valid_def)
  assume b: "some_unreadable db ps"
  have err: "published w = p \<and> (\<exists>e. collect_rules db (enabled_policies w) = Err e)" if "held p ps w" for w
    using that b unreadable_load [of db w] by (auto simp: held_def)
  have "valid (\<lambda>w. held p ps w \<and> rows = enabled_policies w) (\<lambda>w. (collect_rules db rows, w))
      (\<lambda>_ _. False) (\<lambda>w. published w = p)"
    "valid (\<lambda>w. held p ps w \<and> rows = enabled_policies w)
       (\<lambda>w. (rbind (collect_rules db rows) (\<lambda>rules. Ok (zip (map po_id rows) rules)), w))
      (\<lambda>_ _. False) (\<lambda>w. published w = p)" for rows
    by (auto simp: valid_def dest!: err)
  note read = this
  show "silent p ps False (io_bind (po_load_rules db) k)"
    and "silent p ps False (io_bind (po_load_rules_with_id db) k')"
    unfolding silent_def po_load_rules_def po_load_rules_with_id_def
    by (rule valid_bind [OF valid_bind [OF load read(1)] none], rule valid_bind [OF valid_bind [OF load read(2)] none])
qed

lemma silent_bind: "keeps (held p ps) m \<Longrightarrow> (\<And>x. silent p ps may (k x)) \<Longrightarrow> silent p ps may (io_bind m k)"
proof -
  assume m: "keeps (held p ps) m" and k: "\<And>x. silent p ps may (k x)"
  have "valid (held p ps) m (\<lambda>_. held p ps) (\<lambda>w. published w = p)"
    using keepsD [OF m] by (rule valid_weaken) (auto simp: held_def)
  with k show ?thesis unfolding silent_def by (rule_tac valid_bind)
qed

lemma silent_seq: "keeps (held p ps) m \<Longrightarrow> silent p ps may k \<Longrightarrow> silent p ps may (io_seq m k)"
  unfolding io_seq_def by (rule silent_bind)

lemma silent_may: "silent p ps may m \<Longrightarrow> silent p ps True m"
  unfolding silent_def by (erule valid_weaken) auto

lemma silent_keeps: "keeps (held p ps) m \<Longrightarrow> silent p ps True m"
  unfolding silent_def keeps_def by (erule valid_weaken) (auto simp: held_def)

lemma silentD:
  assumes "silent (published w) (policies w) may m"
  shows "published (snd (m w)) = published w" and "fst (m w) = Ok x \<Longrightarrow> may" and "fst (m w) \<noteq> Panic"
proof -
  have "case m w of (Ok x, w') \<Rightarrow> may \<and> published w' = published w
      | (Err e, w') \<Rightarrow> published w' = published w | (Panic, w') \<Rightarrow> False"
    using assms [unfolded silent_def valid_def, rule_format, of w] by (simp add: held_def)
  then show "published (snd (m w)) = published w" and "fst (m w) = Ok x \<Longrightarrow> may" and "fst (m w) \<noteq> Panic"
    by (auto split: prod.splits rust.splits)
qed

text \<open>The handlers with a policy that cannot be read.\<close>

lemma silent_handlers:
  assumes "some_unreadable db ps"
  shows "silent p ps False (process_event db event)"
    and "silent p ps False (evaluate_policies db dflt)"
    and "silent p ps True (process_posture db rep)"
    and "silent p ps True (process_auth_response db resp)"
proof -
  note load = silent_load [OF assms]
  show "silent p ps False (process_event db event)"
    unfolding process_event_def Let_def
    by (intro silent_bind silent_seq load held_rules held_ops)
  show "silent p ps False (evaluate_policies db dflt)"
    unfolding evaluate_policies_def by (rule load)
  show "silent p ps True (process_posture db rep)"
    unfolding process_posture_def posture_known_def Let_def
    by (rule silent_bind [OF held_ops(2)])
       (auto split: option.split intro: silent_keeps held_rules
         intro!: silent_seq [OF held_ops(13)] silent_seq [OF held_ops(6)] silent_seq [OF held_ops(7)]
           silent_seq [OF held_ops(12)] silent_may [OF load(1)])
  have res: "keeps (held p ps) (resolve_endpoint db resp)"
    unfolding resolve_endpoint_def by (auto intro!: held_rules held_ops split: option.split)
  have fail: "keeps (held p ps) (auth_failure resp e s)" for e s
    unfolding auth_failure_def by (auto intro!: held_rules held_ops split: option.split)
  have good: "silent p ps True (auth_success db resp e s)" for e s
    unfolding auth_success_def Let_def
    by (rule silent_seq, intro held_rules held_ops, rule silent_seq, cases s)
       (simp_all add: held_rules held_ops silent_may [OF load(1)])
  have found: "silent p ps True (io_bind (case ar_session_id resp of Some sid \<Rightarrow> se_find_by_id sid
      | None \<Rightarrow> se_find_active_by_endpoint (ep_id e)) (\<lambda>sess.
        if \<not> ar_success resp then auth_failure resp e sess else auth_success db resp e sess))" for e
    using good fail by (intro silent_bind) (auto simp: held_ops silent_keeps split: option.split)
  show "silent p ps True (process_auth_response db resp)"
    unfolding process_auth_response_def
  proof (rule silent_bind [OF res])
    fix x
    show "silent p ps True (case x of None \<Rightarrow> io_return ()
      | Some e \<Rightarrow> io_bind (case ar_session_id resp of Some sid \<Rightarrow> se_find_by_id sid
          | None \<Rightarrow> se_find_active_by_endpoint (ep_id e)) (\<lambda>sess.
            if \<not> ar_success resp then auth_failure resp e sess else auth_success db resp e sess))"
      using found by (cases x) (simp_all only: option.case silent_keeps [OF held.keeps_return])
  qed
qed

section \<open>A sighting when nothing fails\<close>

definition at_rest :: "uuid \<Rightarrow> string \<Rightarrow> policy_row list \<Rightarrow> nats_message list \<Rightarrow> string \<Rightarrow> world \<Rightarrow> bool" where
  "at_rest i m ps p s w \<longleftrightarrow> schedule w = [] \<and> policies w = ps \<and> published w = p \<and> row_at i m s (endpoints w)"

abbreviation never :: "world \<Rightarrow> bool" where
  "never \<equiv> (\<lambda>_. False)"

lemma rest_stmt:
  assumes "\<And>w. C w \<Longrightarrow> schedule w = [] \<and> C (tick w)" and "valid C f Q never"
  shows "valid C (stmt f) Q never"
  using assms by (simp add: valid_def stmt_delivered)

lemma at_rest_tick: "at_rest i m ps p s w \<Longrightarrow> schedule w = [] \<and> at_rest i m ps p s (tick w)"
  by (simp add: at_rest_def)

lemma at_rest_has: "at_rest i m ps p s w \<Longrightarrow> has_endpoint w i"
  by (auto simp: at_rest_def row_at_def has_endpoint_def list_ex_iff)

lemma rest_audit: "valid (at_rest i m ps p s) (audit e (Some i) a d) (\<lambda>_. at_rest i m ps p s) never"
  unfolding audit_def
  by (rule rest_stmt [OF at_rest_tick]) (auto simp: valid_def at_rest_has, auto simp: at_rest_def)

lemma ok_never: "valid P m (\<lambda>x. Q (Some x)) never \<Longrightarrow> valid P (io_ok m) Q E"
  by (rule valid_ok) (erule valid_weaken; simp)

lemma rest_session:
  "cs_endpoint_id cs = i \<Longrightarrow> valid (at_rest i m ps p s) (io_ok (se_create cs)) (\<lambda>_. at_rest i m ps p s) never"
  unfolding se_create_def
  by (rule ok_never [where Q = "\<lambda>_. at_rest i m ps p s"], rule rest_stmt [OF at_rest_tick])
     (auto simp: valid_def Let_def at_rest_has, auto simp: at_rest_def)

lemma rest_set_status:
  "s' \<in> set statuses \<Longrightarrow>
    valid (at_rest i m ps p s) (ep_set_status i s') (\<lambda>_. at_rest i m ps p s') never"
  unfolding ep_set_status_def
  by (rule rest_stmt [OF at_rest_tick])
     (auto simp: valid_def at_rest_def update_endpoint_def row_at_update)

lemma rest_load:
  assumes "\<And>w. policies w = ps \<Longrightarrow> collect_rules db (enabled_policies w) = Ok rules"
  shows "valid (at_rest i m ps p s) (po_load_rules db) (\<lambda>x w. at_rest i m ps p s w \<and> x = rules) never"
proof -
  have read: "valid (at_rest i m ps p s) (stmt (\<lambda>w. (Ok (enabled_policies w), w)))
      (\<lambda>rows w. at_rest i m ps p s w \<and> rows = enabled_policies w) never"
    by (rule rest_stmt [OF at_rest_tick]) (simp_all add: valid_def)
  show ?thesis
    unfolding po_load_rules_def
    by (rule valid_bind [OF read]) (use assms in \<open>auto simp: valid_def at_rest_def\<close>)
qed

definition commanded :: "uuid \<Rightarrow> string \<Rightarrow> nats_message list \<Rightarrow> string \<Rightarrow> world \<Rightarrow> bool" where
  "commanded i m p s w \<longleftrightarrow> row_at i m s (endpoints w)
     \<and> (\<exists>c. published w = p @ [Enforcement c] \<and> cmd_mac_address c = m \<and> status_action s = Some (cmd_action c))"

lemma rest_publish:
  assumes "status_action s \<noteq> None"
  shows "valid (at_rest i m ps p s) (publish_enforcement_command m ip s d) (\<lambda>_. commanded i m p s) never"
proof -
  obtain a where a: "status_action s = Some a" using assms by blast
  have "valid (at_rest i m ps p s) (nats_publish (Enforcement c)) (\<lambda>_. commanded i m p s) never"
    if "cmd_mac_address c = m" "cmd_action c = a" for c
    unfolding nats_publish_def
    by (rule rest_stmt [OF at_rest_tick]) (use that a in \<open>auto simp: valid_def at_rest_def commanded_def\<close>)
  then have "valid (at_rest i m ps p s) (io_ok (nats_publish (Enforcement c))) (\<lambda>_. commanded i m p s) never"
    if "cmd_mac_address c = m" "cmd_action c = a" for c
    using that by (intro ok_never)
  then show ?thesis
    unfolding publish_enforcement_command_def a option.case Let_def
    by (intro valid_seq [where R = "commanded i m p s"] valid_return) simp_all
qed

lemma status_action_decision: "status_action (decision_to_status d) \<noteq> None"
  by (cases d) (simp_all add: status_action_def decision_to_status_def)

lemma rest_change_status:
  assumes "ep_id row = i" and "ep_mac_address row = m"
  shows "valid (at_rest i m ps p s) (change_status db row ip d)
     (\<lambda>_. commanded i m p (decision_to_status d)) never"
proof -
  let ?rest = "at_rest i m ps p (decision_to_status d)"
  have session: "valid ?rest (if b then io_seq (io_ok (se_create cs)) (io_return ()) else io_return ())
      (\<lambda>_. ?rest) never" if "cs_endpoint_id cs = i" for b cs
    using that by (auto intro!: valid_seq rest_session valid_return)
  show ?thesis
    unfolding change_status_def Let_def assms
    by (intro valid_seq [OF rest_set_status] valid_seq [OF rest_audit] valid_seq [OF session] rest_publish
        status_action_decision decision_to_status_ok) simp
qed

text \<open>The status a device is stored with; a device that is not stored is inserted as pending.\<close>

definition stored_status :: "string \<Rightarrow> endpoint_row list \<Rightarrow> string" where
  "stored_status m es = (case find_row (\<lambda>r. ep_mac_address r = m) es of None \<Rightarrow> ''pending'' | Some r \<Rightarrow> ep_status r)"

definition before :: "string \<Rightarrow> policy_row list \<Rightarrow> nats_message list \<Rightarrow> string \<Rightarrow> world \<Rightarrow> bool" where
  "before m ps p s w \<longleftrightarrow> schedule w = [] \<and> policies w = ps \<and> published w = p \<and> store_inv w
     \<and> stored_status m (endpoints w) = s"

lemma rest_upsert:
  assumes "mac_in db (up_mac_address ep) = Some m" and "cast_inet db (up_ip_address ep) = Ok ip"
    and "up_agent_id ep = None"
  shows "valid (before m ps p s) (ep_upsert db ep)
     (\<lambda>row w. at_rest (ep_id row) m ps p s w \<and> ep_mac_address row = m \<and> ep_status row = s) never"
  unfolding valid_def
proof (intro allI impI)
  fix w
  assume bef: "before m ps p s w"
  then have ok: "endpoints_ok w" by (simp add: before_def store_inv_def)
  show "case ep_upsert db ep w of
      (Ok row, w') \<Rightarrow> at_rest (ep_id row) m ps p s w' \<and> ep_mac_address row = m \<and> ep_status row = s
    | (Err e, w') \<Rightarrow> False | (Panic, w') \<Rightarrow> False"
  proof (cases "find_row (\<lambda>r. ep_mac_address r = m) (endpoints w)")
    case None
    then show ?thesis using bef assms
      by (simp add: ep_upsert_def stmt_delivered before_def Let_def stored_status_def at_rest_def row_at_def
          new_endpoint_def)
  next
    case (Some old)
    then have old: "old \<in> set (endpoints w)" "ep_mac_address old = m" "ep_status old = s"
      using find_row_mac [OF Some] bef by (simp_all add: before_def stored_status_def)
    define r where "r = merge_endpoint ep ip (clock w + 1) old"
    have r: "ep_id r = ep_id old" "ep_mac_address r = m" "ep_status r = s" "ep_agent_id r = ep_agent_id old"
      using old(2,3) assms(3) by (simp_all add: r_def merge_endpoint_def coalesce_def)
    have "ep_upsert db ep w =
        (Ok r, (tick w)\<lparr>endpoints := update_rows (\<lambda>x. ep_id x = ep_id old) (\<lambda>_. r) (endpoints w)\<rparr>)"
      using bef assms(1,2) Some old_agent_free [OF ok old(1)] r(4)
      by (simp add: ep_upsert_def stmt_delivered before_def Let_def r_def)
    then show ?thesis
      using bef r update_rows_hit [OF old(1), of r] by (auto simp: before_def at_rest_def row_at_def)
  qed
qed

lemma at_rest_pure: "valid C (io_return x) (\<lambda>y w. C w \<and> y = x) E"
  by (simp add: valid_def)

lemma valid_bind_to:
  assumes "valid P m (\<lambda>x w. R w \<and> x = z) E" and "valid R (k z) Q E"
  shows "valid P (io_bind m k) Q E"
  by (rule valid_bind [OF assms(1)]) (use assms(2) in \<open>auto simp: valid_def\<close>)

text \<open>
  A device that is stored as anything but allowed gets the status the rules give it, and the command for
  it is published, whatever an operator has set, assigned or exempted.
\<close>

theorem sighting_decides:
  assumes "mac_in db (de_mac_address event) = Some m"
    and "cast_inet db (if de_ip_address event = [] then None else Some (de_ip_address event)) = Ok ip"
    and rules: "\<And>w. policies w = ps \<Longrightarrow> collect_rules db (enabled_policies w) = Ok rules" "rules \<noteq> []"
    and dec: "\<And>ctx. px_is_compliant ctx = None \<Longrightarrow> fst (evaluate rules ctx) = Ok d"
    and s: "decision_to_status d \<noteq> s" "s \<noteq> ''allowed''"
  shows "valid (before m ps p s) (process_event db event)
     (\<lambda>_ w. \<exists>i. commanded i m p (decision_to_status d) w) never"
proof -
  have find: "valid (before m ps p s) (io_ok (ep_find_by_mac db k)) (\<lambda>_. before m ps p s) never" for k
    unfolding valid_def
    by (auto simp: io_ok_def ep_find_by_mac_def stmt_delivered before_def inv.I_tick split: option.split)
  have eval: "valid (at_rest i m ps p s) (io_evaluate rules (endpoint_context row os u gs None)) (\<lambda>x w. at_rest i m ps p s w \<and> x = d) never"
    for i row os u gs
    using dec [of "endpoint_context row os u gs None"]
    by (simp add: valid_def io_evaluate_def endpoint_context_def)
  show ?thesis
    unfolding process_event_def Let_def
  proof (rule valid_bind [OF find], rule valid_bind [OF rest_upsert [where m = m and ip = ip]], goal_cases)
    case (4 x row)
    let ?i = "ep_id row"
    let ?rest = "at_rest ?i m ps p s"
    have cond: "valid (\<lambda>w. ?rest w \<and> Q) k R never" if "Q \<Longrightarrow> valid ?rest k R never" for Q k R
      using that by (auto simp: valid_def)
    have otherwise: "\<not> b \<Longrightarrow> valid P k Q E \<Longrightarrow> valid P (if b then l else k) Q E"
      and yes: "b \<Longrightarrow> valid P l Q E \<Longrightarrow> valid P (if b then l else k) Q E" for b P k l Q E
      by simp_all
    have whn: "valid ?rest (io_when b (audit e (Some ?i) a j)) (\<lambda>_. ?rest) never" for b e a j
      by (intro valid_when rest_audit)
    show ?case
    proof (rule cond, goal_cases)
      case 1
      then have row: "ep_mac_address row = m" "ep_status row = s" by simp_all
      have unauth: "\<not> (s = ''allowed'' \<and> b)" for b using s(2) by simp
      note change = rest_change_status [OF refl row(1), THEN valid_weaken]
      show ?case
        unfolding row
        by (rule valid_seq [OF rest_audit], rule valid_seq [OF whn],
            rule valid_bind_to [OF rest_load [OF rules(1)]], assumption, rule otherwise [OF rules(2)],
            rule valid_bind_to [OF eval], rule valid_bind_to [OF otherwise [OF unauth at_rest_pure]],
            rule yes, simp add: s not_sym [OF s(1)], rule change) auto
    qed
  qed (use assms in simp_all)
qed

section \<open>The policies of the migrations\<close>

text \<open>
  The rows that \<^verbatim>\<open>0001_init.sql\<close>, \<^verbatim>\<open>0002_seed.sql\<close> and
  \<^verbatim>\<open>0004_fix_seed_policies.sql\<close> leave behind.
\<close>

definition tagged :: "string \<Rightarrow> string \<Rightarrow> json \<Rightarrow> json" where
  "tagged t k v = JObj [(''type'', JStr t), (k, v)]"

definition seeded :: "policy_row list \<Rightarrow> bool" where
  "seeded ps \<longleftrightarrow>
     map (\<lambda>p. (po_name p, po_priority p, po_conditions p, po_action p, po_vlan_id p, po_enabled p)) ps =
     [(''default-allow'', 9999, JArr [], ''allow'', None, True),
      (''quarantine-unknown'', 10, JArr [tagged ''compliant'' ''required'' (JBool False)], ''quarantine'', Some 99, True),
      (''allow-corp-devices'', 50, JArr [tagged ''os_family'' ''value'' (JStr ''Windows'')], ''allow'', Some 10, True),
      (''deny-blacklist'', 1, JArr [], ''deny'', None, False)]"

definition seeded_rules :: "policy_rule list" where
  "seeded_rules =
     [\<lparr>pr_name = ''quarantine-unknown'', pr_priority = 10, pr_condition = Compliant False,
       pr_decision = Quarantine 99 (''policy: '' @ ''quarantine-unknown'')\<rparr>,
      \<lparr>pr_name = ''allow-corp-devices'', pr_priority = 50, pr_condition = OsFamily ''Windows'', pr_decision = Allow\<rparr>,
      \<lparr>pr_name = ''default-allow'', pr_priority = 9999, pr_condition = And [], pr_decision = Allow\<rparr>]"

lemma seeded_load:
  assumes "seeded (policies w)"
  shows "collect_rules (with_json db) (enabled_policies w) = Ok seeded_rules"
proof -
  from assms obtain p1 p2 p3 p4 where ps: "policies w = [p1, p2, p3, p4]"
    by (auto simp: seeded_def map_eq_Cons_conv)
  have tags: "tagged ''compliant'' ''required'' (JBool False) = condition_json (Compliant False)"
    "tagged ''os_family'' ''value'' (JStr ''Windows'') = condition_json (OsFamily ''Windows'')"
    by (simp_all add: tagged_def)
  note fields = assms [unfolded seeded_def ps list.map list.inject prod.inject tags]
  have sorted: "enabled_policies w = [p2, p3, p1]"
    using fields by (simp add: enabled_policies_def ps)
  show ?thesis
    using fields
    by (simp add: sorted to_policy_rule_def Let_def seeded_rules_def read_condition_json del: condition_json.simps)
qed

lemma seeded_decision:
  "fst (evaluate seeded_rules ctx) =
     Ok (if px_is_compliant ctx = Some False then Quarantine 99 ''policy: quarantine-unknown'' else Allow)"
  by (simp add: evaluate_def seeded_rules_def)

lemma commanded_allowed:
  "commanded i m p ''allowed'' w \<longleftrightarrow> row_at i m ''allowed'' (endpoints w)
     \<and> (\<exists>c. published w = p @ [Enforcement c] \<and> cmd_mac_address c = m \<and> cmd_action c = ''allow'')"
  by (auto simp: commanded_def status_action_def)

text \<open>With these policies, and no fault, any sighting of a device opens the network for it.\<close>

theorem sighting_allows:
  assumes "mac_in db (de_mac_address event) = Some m"
    and "cast_inet db (if de_ip_address event = [] then None else Some (de_ip_address event)) = Ok ip"
    and "schedule w = []" and "store_inv w" and "seeded (policies w)"
    and "stored_status m (endpoints w) \<noteq> ''allowed''"
  shows "\<exists>w' i. process_event (with_json db) event w = (Ok (), w') \<and> commanded i m (published w) ''allowed'' w'"
proof -
  have "valid (before m (policies w) (published w) (stored_status m (endpoints w))) (process_event (with_json db) event)
     (\<lambda>_ w'. \<exists>i. commanded i m (published w) (decision_to_status Allow) w') never"
  proof (rule sighting_decides [where ip = ip])
    show "collect_rules (with_json db) (enabled_policies w') = Ok seeded_rules" if "policies w' = policies w" for w'
      using assms(5) that by (simp add: seeded_load)
    show "fst (evaluate seeded_rules ctx) = Ok Allow" if "px_is_compliant ctx = None" for ctx
      using that by (simp add: seeded_decision)
  qed (use assms in \<open>simp_all add: decision_to_status_def seeded_rules_def cast_inet_def split: if_splits\<close>)
  moreover have "before m (policies w) (published w) (stored_status m (endpoints w)) w"
    using assms(3,4) by (simp add: before_def)
  moreover have "decision_to_status Allow = ''allowed''" by (simp add: decision_to_status_def)
  ultimately have "case process_event (with_json db) event w of
      (Ok _, w') \<Rightarrow> \<exists>i. commanded i m (published w) ''allowed'' w' | (Err _, _) \<Rightarrow> False | (Panic, _) \<Rightarrow> False"
    by (simp add: valid_def)
  then show ?thesis by (auto split: prod.splits rust.splits)
qed

end
