(* ===== verification/ServiceLoops.thy ===== *)
theory ServiceLoops
  imports Platform Wire DhcpServer
begin

text \<open>
  The loops around the handlers: the three subscriptions of the policy manager (\<^verbatim>\<open>run\<close> in
  \<^verbatim>\<open>consumer.rs\<close>, \<^verbatim>\<open>session_handler.rs\<close> and
  \<^verbatim>\<open>posture_handler.rs\<close>), its two background tasks (\<^verbatim>\<open>background.rs\<close>), the sockets
  of the RADIUS server (\<^verbatim>\<open>run_radius_server\<close>), the loop of the DHCP server
  (\<^verbatim>\<open>services/dhcp/src/server.rs\<close>) and the publishing tasks of the sensor
  (\<^verbatim>\<open>sensor/src/main.rs\<close>). A loop is the list of what it receives: a payload is a JSON value,
  or nothing when the bytes are no JSON; a datagram is missing when receiving it failed. The lemmas show
  that no input and no fault ends a loop, that what cannot be read changes nothing, and that every loop
  goes through steps of the platform only.
\<close>

section \<open>Subscriptions\<close>

text \<open>An unreadable payload is skipped with a warning; an error of the handler is logged.\<close>

definition receive :: "(json \<Rightarrow> 'a option) \<Rightarrow> ('a \<Rightarrow> unit io) \<Rightarrow> json option \<Rightarrow> unit io" where
  "receive read handler payload =
     (case Option.bind payload read of
        None \<Rightarrow> io_return ()
      | Some x \<Rightarrow> io_seq (io_ok (handler x)) (io_return ()))"

definition consumer_run :: "pg \<Rightarrow> json option list \<Rightarrow> unit io" where
  "consumer_run db payloads = io_list (receive read_endpoint_event (process_event db)) payloads"

definition session_run :: "pg \<Rightarrow> (string \<Rightarrow> uuid option) \<Rightarrow> json option list \<Rightarrow> unit io" where
  "session_run db uuid_in payloads = io_list (receive (read_auth_response uuid_in) (process_auth_response db)) payloads"

definition posture_run :: "pg \<Rightarrow> json option list \<Rightarrow> unit io" where
  "posture_run db payloads = io_list (receive read_report (process_posture db)) payloads"

text \<open>\<open>keeps I m\<close> says that \<open>m\<close> does not panic; with the error dropped it succeeds.\<close>

lemma receive_Ok: "(\<And>x. keeps store_inv (h x)) \<Longrightarrow> store_inv w \<Longrightarrow>
    fst (receive read h payload w) = Ok () \<and> store_inv (snd (receive read h payload w))"
proof (cases "Option.bind payload read")
  case (Some x)
  assume h: "\<And>x. keeps store_inv (h x)" and w: "store_inv w"
  from h [of x] w have "case h x w of (Ok y, w') \<Rightarrow> store_inv w' | (Err e, w') \<Rightarrow> store_inv w' | (Panic, w') \<Rightarrow> False"
    by (simp add: keeps_def valid_def)
  with Some show ?thesis
    by (auto simp: receive_def io_seq_def io_bind_def io_ok_def split: prod.splits rust.splits)
qed (simp add: receive_def)

lemma receive_list_Ok:
  "(\<And>x. keeps store_inv (h x)) \<Longrightarrow> store_inv w \<Longrightarrow>
    fst (io_list (receive read h) payloads w) = Ok () \<and> store_inv (snd (io_list (receive read h) payloads w))"
proof (induction payloads arbitrary: w)
  case (Cons m ms)
  obtain w' where w': "receive read h m w = (Ok (), w')" "store_inv w'"
    using receive_Ok [where h = h and read = read and payload = m and w = w, OF Cons.prems] by (cases "receive read h m w") auto
  show ?case using Cons.IH [OF Cons.prems(1) w'(2)] w'(1) by (simp add: io_seq_def io_bind_def)
qed simp

text \<open>What cannot be read changes nothing.\<close>

lemma receive_list_readable:
  "io_list (receive read h) payloads =
     io_list (receive read h) (filter (\<lambda>m. Option.bind m read \<noteq> None) payloads)"
proof (induction payloads)
  case (Cons m ms)
  have "io_seq (io_return ()) k = k" for k :: "unit io" by (rule ext) (simp add: io_seq_def io_bind_def)
  with Cons show ?case by (cases "Option.bind m read") (simp_all add: receive_def)
qed simp

section \<open>Background tasks\<close>

definition run_reconciliation :: "unit io" where
  "run_reconciliation = io_seq (io_ok reconcile) (io_return ())"

text \<open>
  What a round of the synchronisation reads: the clock, the two files, and the order in which the map of
  addresses is gone through. After an error the candidates are those of before: it can only fail before
  they change.
\<close>

record arp_reading =
  rd_now :: int
  rd_arp :: "string option"
  rd_route :: "string option"
  rd_order :: "(string \<times> string) list \<Rightarrow> (string \<times> string) list"

definition arp_tick :: "pg \<Rightarrow> arp_reading \<Rightarrow> pending \<Rightarrow> pending io" where
  "arp_tick db rd pend w =
     (case arp_sync db (rd_now rd) (rd_arp rd) (rd_route rd) (rd_order rd) pend w of
        (Ok pend', w') \<Rightarrow> (Ok pend', w') | (Err e, w') \<Rightarrow> (Ok pend, w') | (Panic, w') \<Rightarrow> (Panic, w'))"

fun run_arp_sync :: "pg \<Rightarrow> arp_reading list \<Rightarrow> pending \<Rightarrow> pending io" where
  "run_arp_sync db [] pend = io_return pend"
| "run_arp_sync db (rd # rds) pend = io_bind (arp_tick db rd pend) (run_arp_sync db rds)"

section \<open>The RADIUS sockets\<close>

definition udp_buffer :: nat where
  "udp_buffer = 4096"

text \<open>What is received is cut to the buffer; the reply, if any, is sent back.\<close>

fun radius_auth_loop ::
  "pg \<Rightarrow> (bytes \<Rightarrow> bytes) \<Rightarrow> (string \<Rightarrow> string option) \<Rightarrow> bytes \<Rightarrow> bytes option list \<Rightarrow> bytes option list io"
where
  "radius_auth_loop db md5 env secret [] = io_return []"
| "radius_auth_loop db md5 env secret (None # ds) = radius_auth_loop db md5 env secret ds"
| "radius_auth_loop db md5 env secret (Some d # ds) =
     io_bind (handle_auth_packet db md5 env (take udp_buffer d) secret) (\<lambda>reply.
     io_bind (radius_auth_loop db md5 env secret ds) (\<lambda>replies. io_return (reply # replies)))"

fun radius_acct_loop :: "bytes option list \<Rightarrow> (string, bytes option list) rust" where
  "radius_acct_loop [] = Ok []"
| "radius_acct_loop (None # ds) = radius_acct_loop ds"
| "radius_acct_loop (Some d # ds) =
     rbind (handle_acct_packet (take udp_buffer d)) (\<lambda>reply.
     rbind (radius_acct_loop ds) (\<lambda>replies. Ok (reply # replies)))"

section \<open>The socket of the DHCP server\<close>

text \<open>Each datagram is handled with the pool as it is then; a binding is published, errors are dropped.\<close>

definition binding_json :: "(message_type \<Rightarrow> string) \<Rightarrow> DhcpServer.dhcp_event \<Rightarrow> json" where
  "binding_json debug e = JObj [(''event'', JStr ''dhcp_binding''), (''mac'', JStr (ev_mac e)),
     (''ip'', JStr (ev_ip e)), (''msg_type'', JStr (debug (ev_msg_type e)))]"

fun dhcp_effect_io :: "(message_type \<Rightarrow> string) \<Rightarrow> dhcp_effect \<Rightarrow> unit io" where
  "dhcp_effect_io debug (SendTo d) = io_return ()"
| "dhcp_effect_io debug (PublishBinding e) =
     io_seq (io_ok (nats_publish (OtherEvent ''nac.events.dhcp'' (binding_json debug e)))) (io_return ())"

record dhcp_codec =
  dc_default :: dhcp_message
  dc_from_bytes :: "bytes \<Rightarrow> dhcp_message option"
  dc_to_vec :: "dhcp_message \<Rightarrow> bytes option"
  dc_debug :: "message_type \<Rightarrow> string"

fun dhcp_run :: "dhcp_codec \<Rightarrow> (bytes \<Rightarrow> bool) \<Rightarrow> bytes option list \<Rightarrow> dhcp_server \<Rightarrow> dhcp_server io" where
  "dhcp_run dc accepts [] srv = io_return srv"
| "dhcp_run dc accepts (None # ds) srv = dhcp_run dc accepts ds srv"
| "dhcp_run dc accepts (Some d # ds) srv =
     (case dhcp_handle (dc_default dc) (dc_from_bytes dc) (dc_to_vec dc) accepts srv (take udp_buffer d) of
        (result, effects, srv') \<Rightarrow> io_seq (io_list (dhcp_effect_io (dc_debug dc)) effects) (dhcp_run dc accepts ds srv'))"

section \<open>The publishing tasks of the sensor\<close>

definition publish_endpoint_detected :: "endpoint_detected \<Rightarrow> unit io" where
  "publish_endpoint_detected e = nats_publish (OtherEvent ''nac.events.endpoint.detected'' (endpoint_event_json e))"

text \<open>Every event of the channel is published by a task of its own, whose error is only logged.\<close>

definition arp_task :: "(int \<times> arp_event) list \<Rightarrow> unit io" where
  "arp_task events = io_list (\<lambda>(now, e).
     io_seq (io_ok (publish_endpoint_detected (arp_nats_event now e))) (io_return ())) events"

definition dhcp_task :: "(int \<times> Sensor.dhcp_event) list \<Rightarrow> unit io" where
  "dhcp_task events = io_list (\<lambda>(now, e).
     io_seq (io_ok (publish_endpoint_detected (dhcp_nats_event now e))) (io_return ())) events"

section \<open>The loops run through steps of the platform\<close>

definition platform_steps :: "libraries \<Rightarrow> world \<Rightarrow> world \<Rightarrow> bool" where
  "platform_steps L = (platform_step L)\<^sup>*\<^sup>*"

lemma reachable_steps: "reachable L w \<Longrightarrow> platform_steps L w w' \<Longrightarrow> reachable L w'"
  unfolding platform_steps_def by (rotate_tac, induction rule: rtranclp_induct) (auto intro: reachable.next_step)

text \<open>An operation that is a step of the platform, or none, and one that goes through such steps.\<close>

definition through :: "libraries \<Rightarrow> 'a io \<Rightarrow> bool" where
  "through L m \<longleftrightarrow> (\<forall>w. platform_steps L w (snd (m w)))"

lemma through_step: "(\<And>w. platform_step L w (snd (m w))) \<Longrightarrow> through L m"
  by (auto simp: through_def platform_steps_def)

lemma through_return: "through L (io_return x)"
  by (simp add: through_def platform_steps_def)

lemma through_bind: "through L m \<Longrightarrow> (\<And>x. through L (k x)) \<Longrightarrow> through L (io_bind m k)"
  unfolding through_def platform_steps_def
proof (intro allI)
  fix w
  assume m: "\<forall>w. (platform_step L)\<^sup>*\<^sup>* w (snd (m w))" and k: "\<And>x. \<forall>w. (platform_step L)\<^sup>*\<^sup>* w (snd (k x w))"
  obtain r w' where run: "m w = (r, w')" by (cases "m w")
  then have step: "(platform_step L)\<^sup>*\<^sup>* w w'" using m by (metis snd_conv)
  show "(platform_step L)\<^sup>*\<^sup>* w (snd (io_bind m k w))"
    by (cases r) (use run step k in \<open>auto simp: io_bind_def intro: rtranclp_trans\<close>)
qed

lemma through_seq: "through L m \<Longrightarrow> through L k \<Longrightarrow> through L (io_seq m k)"
  unfolding io_seq_def by (rule through_bind)

lemma through_ok: "through L m \<Longrightarrow> through L (io_ok m)"
  by (auto simp: through_def io_ok_def split: prod.splits rust.splits) (metis snd_conv)+

lemma through_list: "(\<And>x. through L (f x)) \<Longrightarrow> through L (io_list f xs)"
  by (induction xs) (auto intro: through_return through_seq)

lemmas through_rules = through_return through_bind through_seq through_ok through_list

lemma receive_through: "(\<And>x. through L (h x)) \<Longrightarrow> through L (receive read h payload)"
  unfolding receive_def by (auto intro: through_rules split: option.split)

lemma through_arp_tick: "through L (arp_tick (lib_pg L) rd pend)"
proof -
  have "platform_step L w (snd (arp_tick (lib_pg L) rd pend w))" for w
    using platform_step.arp_round [of L w "rd_now rd" "rd_arp rd" "rd_route rd" "rd_order rd" pend]
    by (auto simp: arp_tick_def split: prod.splits rust.splits)
  then show ?thesis by (rule through_step)
qed

lemma through_run_arp: "through L (run_arp_sync (lib_pg L) rds pend)"
  by (induction rds arbitrary: pend) (auto intro: through_return through_bind through_arp_tick)

lemma through_radius: "through L (radius_auth_loop (lib_pg L) (lib_md5 L) (lib_env L) secret ds)"
proof (induction "lib_pg L" "lib_md5 L" "lib_env L" secret ds rule: radius_auth_loop.induct)
  case (3 secret d ds)
  then show ?case
    by (auto intro!: through_bind through_return intro: through_step platform_step.access)
qed (auto intro: through_return)

lemma through_dhcp: "through L (dhcp_run dc accepts ds srv)"
proof (induction dc accepts ds srv rule: dhcp_run.induct)
  case (3 dc accepts d ds srv)
  have "through L (dhcp_effect_io debug e)" for debug e
    by (cases e; simp only: dhcp_effect_io.simps;
        intro through_return through_seq through_ok through_step platform_step.reported)
  with 3 show ?case by (auto intro!: through_rules split: prod.split)
qed (simp_all only: dhcp_run.simps through_return)

lemma loops_through:
  "through L (consumer_run (lib_pg L) payloads)"
  "through L (session_run (lib_pg L) uuid_in payloads)"
  "through L (posture_run (lib_pg L) payloads)"
  "through L run_reconciliation"
  "through L (run_arp_sync (lib_pg L) rds pend)"
  "through L (radius_auth_loop (lib_pg L) (lib_md5 L) (lib_env L) secret ds)"
  "through L (arp_task seen)"
  "through L (dhcp_task asked)"
  "through L (dhcp_run dc accepts ds srv)"
proof -
  show "through L (consumer_run (lib_pg L) payloads)"
    unfolding consumer_run_def
    by (intro through_list receive_through through_step platform_step.detected)
  show "through L (session_run (lib_pg L) uuid_in payloads)"
    unfolding session_run_def
    by (intro through_list receive_through through_step platform_step.authenticated)
  show "through L (posture_run (lib_pg L) payloads)"
    unfolding posture_run_def
    by (intro through_list receive_through through_step platform_step.posture)
  show "through L run_reconciliation"
    unfolding run_reconciliation_def
    by (intro through_rules through_step platform_step.restart)
  show "through L (arp_task seen)" "through L (dhcp_task asked)"
    unfolding arp_task_def dhcp_task_def publish_endpoint_detected_def case_prod_unfold
    by (intro through_list through_rules through_step platform_step.reported)+
qed (rule through_run_arp, rule through_radius, rule through_dhcp)

section \<open>No loop ends\<close>

lemma reachable_through: "reachable L w \<Longrightarrow> through L m \<Longrightarrow> reachable L (snd (m w))"
  unfolding through_def by (blast intro: reachable_steps)

lemma ok_never_fails: "keeps I m \<Longrightarrow> I w \<Longrightarrow> fst (io_seq (io_ok m) (io_return ()) w) = Ok ()"
  by (cases "m w"; cases "fst (m w)") (auto simp: keeps_def valid_def io_seq_def io_bind_def io_ok_def)

lemma arp_tick_Ok: "store_inv w \<Longrightarrow> \<exists>p w'. arp_tick db rd pend w = (Ok p, w') \<and> store_inv w'"
proof -
  assume "store_inv w"
  then have "case arp_sync db (rd_now rd) (rd_arp rd) (rd_route rd) (rd_order rd) pend w of
      (Ok y, w') \<Rightarrow> store_inv w' | (Err e, w') \<Rightarrow> store_inv w' | (Panic, w') \<Rightarrow> False"
    using arp_sync_inv by (simp add: keeps_def valid_def)
  then show ?thesis by (auto simp: arp_tick_def split: prod.splits rust.splits)
qed

lemma run_arp_Ok: "store_inv w \<Longrightarrow> \<exists>p w'. run_arp_sync db rds pend w = (Ok p, w')"
proof (induction rds arbitrary: pend w)
  case (Cons rd rds)
  obtain p w' where "arp_tick db rd pend w = (Ok p, w')" "store_inv w'"
    using arp_tick_Ok [OF Cons.prems] by blast
  with Cons.IH [of w' p] show ?case by (simp add: io_bind_def)
qed simp

lemma handle_auth_packet_Ok: "\<exists>reply w'. handle_auth_packet db md5 env buf secret w = (Ok reply, w')"
proof (cases "radius_parse buf")
  case (Ok pkt)
  obtain r w' where "handle_access_request db md5 env pkt secret w = (Ok r, w')"
    using handle_access_request_response [of db md5 env pkt secret w] by (metis prod.collapse)
  with Ok show ?thesis by (simp add: handle_auth_packet_def io_bind_def)
qed (simp_all add: handle_auth_packet_def radius_parse_no_panic)

lemma radius_auth_Ok: "\<exists>replies w'. radius_auth_loop db md5 env secret ds w = (Ok replies, w')"
proof (induction db md5 env secret ds arbitrary: w rule: radius_auth_loop.induct)
  case (3 db md5 env secret d ds)
  obtain r w1 where r: "handle_auth_packet db md5 env (take udp_buffer d) secret w = (Ok r, w1)"
    using handle_auth_packet_Ok by blast
  obtain rs w2 where "radius_auth_loop db md5 env secret ds w1 = (Ok rs, w2)" using 3 by blast
  with r show ?case by (simp add: io_bind_def)
qed simp_all

lemma radius_acct_Ok: "\<exists>replies. radius_acct_loop ds = Ok replies"
proof (induction ds rule: radius_acct_loop.induct)
  case (3 d ds)
  have "\<exists>r. handle_acct_packet (take udp_buffer d) = Ok r"
    using radius_parse_no_panic [of "take udp_buffer d"] by (auto simp: handle_acct_packet_def split: rust.split)
  with 3 show ?case by auto
qed simp_all

lemma io_list_Ok: "(\<And>x w. \<exists>w'. f x w = (Ok (), w')) \<Longrightarrow> \<exists>w'. io_list f xs w = (Ok (), w')"
proof (induction xs arbitrary: w)
  case (Cons x xs)
  obtain w1 where "f x w = (Ok (), w1)" using Cons.prems by blast
  moreover obtain w2 where "io_list f xs w1 = (Ok (), w2)" using Cons by blast
  ultimately show ?case by (simp add: io_seq_def io_bind_def)
qed simp

lemma publish_logged_Ok: "\<exists>w'. io_seq (io_ok (publish_endpoint_detected e)) (io_return ()) w = (Ok (), w')"
  by (auto simp: publish_endpoint_detected_def nats_publish_def io_seq_def io_bind_def io_ok_def stmt_def
      split: list.split delivery.split)

lemma dhcp_run_Ok: "\<exists>w'. dhcp_run dc accepts datagrams srv w =
    (Ok (dhcp_serve (dc_default dc) (dc_from_bytes dc) (dc_to_vec dc) accepts
       (map (take udp_buffer) (List.map_filter id datagrams)) srv), w')"
proof (induction dc accepts datagrams srv arbitrary: w rule: dhcp_run.induct)
  case (3 dc accepts d ds srv)
  obtain result effects srv' where run:
    "dhcp_handle (dc_default dc) (dc_from_bytes dc) (dc_to_vec dc) accepts srv (take udp_buffer d) = (result, effects, srv')"
    by (cases rule: prod_cases3)
  have "\<exists>w'. dhcp_effect_io debug e w = (Ok (), w')" for debug e w
    by (cases e) (auto simp: nats_publish_def io_seq_def io_bind_def io_ok_def stmt_def split: list.split delivery.split)
  then obtain w1 where "io_list (dhcp_effect_io (dc_debug dc)) effects w = (Ok (), w1)"
    using io_list_Ok [of "dhcp_effect_io (dc_debug dc)" effects w] by blast
  moreover note 3 [OF run [symmetric] refl, of w1]
  ultimately show ?case by (simp add: run io_seq_def io_bind_def dhcp_serve_def List.map_filter_simps)
qed (simp_all add: dhcp_serve_def List.map_filter_simps)

lemma run_Ok: "(\<exists>x w'. m w = (Ok x, w')) \<Longrightarrow> reachable L w \<Longrightarrow> through L m \<Longrightarrow>
    \<exists>x w'. m w = (Ok x, w') \<and> reachable L w'"
  using reachable_through by (metis snd_conv)

theorem loops_run_on:
  assumes "reachable L w"
  shows "(\<exists>x w'. consumer_run (lib_pg L) payloads w = (Ok x, w') \<and> reachable L w')
    \<and> (\<exists>x w'. session_run (lib_pg L) uuid_in payloads w = (Ok x, w') \<and> reachable L w')
    \<and> (\<exists>x w'. posture_run (lib_pg L) payloads w = (Ok x, w') \<and> reachable L w')
    \<and> (\<exists>x w'. run_reconciliation w = (Ok x, w') \<and> reachable L w')
    \<and> (\<exists>x w'. run_arp_sync (lib_pg L) rds pend w = (Ok x, w') \<and> reachable L w')
    \<and> (\<exists>x w'. radius_auth_loop (lib_pg L) (lib_md5 L) (lib_env L) secret ds w = (Ok x, w') \<and> reachable L w')
    \<and> (\<exists>x w'. arp_task seen w = (Ok x, w') \<and> reachable L w')
    \<and> (\<exists>x w'. dhcp_task asked w = (Ok x, w') \<and> reachable L w')
    \<and> (\<exists>x w'. dhcp_run dc accepts datagrams srv w = (Ok x, w') \<and> reachable L w')"
proof -
  have inv: "store_inv w" using assms by (rule reachable_inv)
  have sub: "\<exists>x w'. io_list (receive read h) ms w = (Ok x, w')" if "\<And>x. keeps store_inv (h x)" for read h ms
    using receive_list_Ok [where h = h and read = read and payloads = ms, OF that inv] by (metis prod.collapse)
  have rec: "\<exists>x w'. run_reconciliation w = (Ok x, w')"
    using ok_never_fails [OF reconcile_keeps inv] unfolding run_reconciliation_def by (metis prod.collapse)
  have ev: "\<exists>x w'. arp_task seen w = (Ok x, w')" "\<exists>x w'. dhcp_task asked w = (Ok x, w')"
    unfolding arp_task_def dhcp_task_def case_prod_unfold
    by (rule exI, rule io_list_Ok, rule publish_logged_Ok)+
  have dhcp: "\<exists>x w'. dhcp_run dc accepts datagrams srv w = (Ok x, w')" using dhcp_run_Ok by blast
  show ?thesis
    unfolding consumer_run_def session_run_def posture_run_def
    by (intro conjI run_Ok [OF _ assms] sub rec ev dhcp run_arp_Ok [OF inv] radius_auth_Ok
        process_event_keeps process_auth_response_keeps process_posture_keeps
        loops_through [unfolded consumer_run_def session_run_def posture_run_def])
qed

section \<open>The tasks of the policy manager\<close>

text \<open>
  What \<^verbatim>\<open>main.rs\<close> spawns, interleaved with each other, with the API and with the other
  services: the state of the process beside the database is the candidates of the synchronisation and
  whether the reconciliation has run.
\<close>

record manager =
  mg_world :: world
  mg_pending :: pending
  mg_reconciled :: bool

inductive manager_step :: "libraries \<Rightarrow> (string \<Rightarrow> uuid option) \<Rightarrow> manager \<Rightarrow> manager \<Rightarrow> bool" for L uuid_in where
  elsewhere: "platform_step L (mg_world s) w' \<Longrightarrow> manager_step L uuid_in s (s\<lparr>mg_world := w'\<rparr>)"
| endpoint_task: "manager_step L uuid_in s
    (s\<lparr>mg_world := snd (receive read_endpoint_event (process_event (lib_pg L)) payload (mg_world s))\<rparr>)"
| session_task: "manager_step L uuid_in s
    (s\<lparr>mg_world := snd (receive (read_auth_response uuid_in) (process_auth_response (lib_pg L)) payload (mg_world s))\<rparr>)"
| posture_task: "manager_step L uuid_in s
    (s\<lparr>mg_world := snd (receive read_report (process_posture (lib_pg L)) payload (mg_world s))\<rparr>)"
| reconcile_task: "\<not> mg_reconciled s \<Longrightarrow> manager_step L uuid_in s
    (s\<lparr>mg_world := snd (run_reconciliation (mg_world s)), mg_reconciled := True\<rparr>)"
| arp_task: "arp_tick (lib_pg L) rd (mg_pending s) (mg_world s) = (Ok pend, w') \<Longrightarrow> manager_step L uuid_in s
    (s\<lparr>mg_world := w', mg_pending := pend\<rparr>)"

inductive_cases manager_stepE: "manager_step L uuid_in s s'"

lemma manager_step_platform:
  assumes "manager_step L uuid_in s s'"
  shows "platform_steps L (mg_world s) (mg_world s')"
proof -
  have recv: "through L (receive read_endpoint_event (process_event (lib_pg L)) payload)"
    "through L (receive (read_auth_response uuid_in) (process_auth_response (lib_pg L)) payload)"
    "through L (receive read_report (process_posture (lib_pg L)) payload)" for payload
    by (intro receive_through through_step platform_step.detected platform_step.authenticated platform_step.posture)+
  have rec: "through L run_reconciliation" by (rule loops_through)
  from assms show ?thesis
  proof (rule manager_stepE)
    fix rd pend w'
    assume "arp_tick (lib_pg L) rd (mg_pending s) (mg_world s) = (Ok pend, w')"
      and "s' = s\<lparr>mg_world := w', mg_pending := pend\<rparr>"
    then show "platform_steps L (mg_world s) (mg_world s')"
      using through_arp_tick [of L rd "mg_pending s"] by (simp add: through_def) (metis snd_conv)
  qed (simp_all add: recv [unfolded through_def] rec [unfolded through_def], simp add: platform_steps_def)
qed

theorem manager_refines:
  "(manager_step L uuid_in)\<^sup>*\<^sup>* s s' \<Longrightarrow> platform_steps L (mg_world s) (mg_world s')"
proof (induction rule: rtranclp_induct)
  case (step s1 s2)
  with manager_step_platform [OF step(2)] show ?case unfolding platform_steps_def by (blast intro: rtranclp_trans)
qed (simp add: platform_steps_def)

end
