(* ===== verification/EnforcementRuns.thy ===== *)
theory EnforcementRuns
  imports EnforcementLaws
begin

text \<open>
  Runs of the enforcement agent: the subscription and its two periodic loops interleave, as the tasks of
  \<^verbatim>\<open>main.rs\<close> do. A message is handled as a whole; the reinforcement loop copies the
  table in one step and then applies its copy entry by entry, and anything may happen in between; the
  re-poisoning loop sends its frames from a copy of its own. The invariant of the runs is that the
  kernel drops the packets of every device in the table; and a device leaves the table only when an
  allow command for it is handled. Which messages can arrive is an argument of the step.
\<close>

section \<open>Steps\<close>

type_synonym snapshot = "(string \<times> ipv4 \<times> nac_action) list"

text \<open>
  The policy manager sends hardware addresses as the database prints them, in lower case and with
  colons; \<open>plain_message\<close> says so of the message, and holds for one that cannot be read.
\<close>

definition plain_message :: "enforcement_command option \<Rightarrow> bool" where
  "plain_message msg = pred_option (\<lambda>c. nft_mac (cmd_mac_address c) = to_lowercase (cmd_mac_address c)) msg"

type_synonym arrivals = "enforcement_command option \<Rightarrow> bool"

inductive agent_step ::
  "'k exec \<Rightarrow> arrivals \<Rightarrow> 'k enforcement \<times> snapshot option \<Rightarrow> 'k enforcement \<times> snapshot option \<Rightarrow> bool"
  for exec arrives where
  message: "arrives msg \<Longrightarrow> consume exec Nft msg s = Some (r, s') \<Longrightarrow> agent_step exec arrives (s, es) (s', es)"
| snapshot: "agent_step exec arrives (s, None) (s, Some (reinforce_snapshot order s))"
| reinforce: "reinforce exec Nft [e] s = Some (r, s') \<Longrightarrow> agent_step exec arrives (s, Some (e # es)) (s', Some es)"
| finished: "agent_step exec arrives (s, Some []) (s, None)"
| repoison: "repoison entries s = Some (r, s') \<Longrightarrow> agent_step exec arrives (s, es) (s', es)"

inductive_cases agent_stepE: "agent_step exec arrives (s, es) (s', es')"

definition agent_run ::
  "'k exec \<Rightarrow> arrivals \<Rightarrow> 'k enforcement \<times> snapshot option \<Rightarrow> 'k enforcement \<times> snapshot option \<Rightarrow> bool" where
  "agent_run exec arrives = (agent_step exec arrives)\<^sup>*\<^sup>*"

section \<open>The table and the sets\<close>

definition guarded :: "(string \<Rightarrow> string set) \<Rightarrow> (string \<Rightarrow> quarantine_entry option) \<Rightarrow> bool" where
  "guarded S q \<longleftrightarrow> (\<forall>k. q k \<noteq> None \<longrightarrow> nft_mac k = k \<and> k \<in> S SET_BLOCK \<union> S SET_QUARANTINE)"

lemma guarded_dropped: "guarded S q \<Longrightarrow> q k = Some e \<Longrightarrow> pk_ether p = k \<Longrightarrow> nft_dropped S p"
  by (auto simp: guarded_def nft_dropped_def forward_verdict)

lemma nft_effect_macs:
  "nft_effect a mac ip S SET_BLOCK \<union> nft_effect a mac ip S SET_QUARANTINE =
     (if a = Permit then (S SET_BLOCK \<union> S SET_QUARANTINE) - {nft_mac mac}
      else insert (nft_mac mac) (S SET_BLOCK \<union> S SET_QUARANTINE))"
  by (cases a) (auto simp: nft_effect_def with_ip_def move_in_def drop_both_def split: option.split)

lemma drop_stale_macs:
  "drop_stale cmd q S SET_BLOCK = S SET_BLOCK" "drop_stale cmd q S SET_QUARANTINE = S SET_QUARANTINE"
  by (simp_all add: drop_stale_def drop_both_def split: option.split)

lemma guarded_command:
  assumes "guarded S q" and "nft_mac mac = to_lowercase mac" and "a \<noteq> Permit"
    and "entered (to_lowercase mac) q q'"
  shows "guarded (nft_effect a mac ip (drop_stale cmd q S)) q'"
  unfolding guarded_def
proof (intro allI impI)
  fix k
  assume "q' k \<noteq> None"
  show "nft_mac k = k \<and> k \<in> nft_effect a mac ip (drop_stale cmd q S) SET_BLOCK
      \<union> nft_effect a mac ip (drop_stale cmd q S) SET_QUARANTINE"
  proof (cases "k = to_lowercase mac")
    case True
    then show ?thesis using assms(2,3) by (simp only: nft_effect_macs nft_mac_lower) simp
  next
    case False
    then have "nft_mac k = k" "k \<in> S SET_BLOCK \<union> S SET_QUARANTINE"
      using assms(1) entered_other [OF assms(4) False] \<open>q' k \<noteq> None\<close> by (auto simp: guarded_def)
    then show ?thesis using assms(3) by (simp only: nft_effect_macs drop_stale_macs) simp
  qed
qed

lemma guarded_allow:
  assumes "guarded S q" and "nft_mac mac = to_lowercase mac"
  shows "guarded (nft_effect Permit mac ip S) (q(to_lowercase mac := None))"
  using assms by (auto simp: guarded_def nft_effect_macs)

lemma guarded_more: "guarded S q \<Longrightarrow> a \<noteq> Permit \<Longrightarrow> guarded (nft_effect a mac ip S) q"
  by (simp add: guarded_def nft_effect_macs)

section \<open>The invariant of the runs\<close>

lemma calm_quiet:
  assumes "\<And>key. calm key m" and "m s = Some (r, s')"
  shows "kernel s' = kernel s \<and> qstate s' = qstate s"
proof -
  have "kernel s' = kernel s \<and> entered key (qstate s) (qstate s')" for key
    using calmE [OF assms(1), of s] assms(2) by (metis Pair_inject option.inject)
  from this [of "[]"] this [of "''x''"] show ?thesis by (metis ext entered_other list.distinct(1))
qed

lemma calm_repoison: "calm key (repoison_entries my gw es)"
  by (induction es) (simp_all add: calm_seq calm_ignore)

lemma repoison_quiet:
  assumes "repoison es s = Some (r, s')"
  shows "kernel s' = kernel s \<and> qstate s' = qstate s"
proof -
  have "s' = s \<or> (\<exists>my gw. repoison_entries my gw es s = Some (r, s'))"
    using assms by (auto simp: repoison_def em_return_def split: if_splits option.splits)
  then show ?thesis using calm_quiet [OF calm_repoison] by blast
qed

lemma message_guarded:
  assumes "nft_works exec sets" and "plain_message msg" and "consume exec Nft msg s = Some (r, s')"
    and "guarded (sets (kernel s)) (qstate s)"
  shows "guarded (sets (kernel s')) (qstate s')"
proof (cases msg)
  case None
  with assms(3,4) show ?thesis by (simp add: consume_def em_return_def)
next
  case (Some c)
  note kernel = nft_kernel.intro [OF assms(1)]
  have mac: "nft_mac (cmd_mac_address c) = to_lowercase (cmd_mac_address c)"
    using assms(2) by (simp add: Some plain_message_def)
  show ?thesis
  proof (cases "is_allow_action (cmd_action c)")
    case True
    from nft_kernel.consume_allow [OF kernel this, of s] assms(3) guarded_allow [OF assms(4) mac]
    show ?thesis by (auto simp: Some strip_command_def)
  next
    case False
    from nft_kernel.consume_command [OF kernel this, of s] assms(3)
    have "sets (kernel s') = nft_effect (fw_of (map_action (cmd_action (strip_command c)))) (cmd_mac_address c)
        (cmd_ip_opt (strip_command c)) (drop_stale (strip_command c) (qstate s) (sets (kernel s)))"
      "entered (to_lowercase (cmd_mac_address c)) (qstate s) (qstate s')"
      by (auto simp: Some strip_command_def)
    then show ?thesis using guarded_command [OF assms(4) mac] by simp
  qed
qed

lemma agent_step_guarded:
  assumes "nft_works exec sets" and "agent_step exec arrives c c'" and "arrives \<le> plain_message"
    and "guarded (sets (kernel (fst c))) (qstate (fst c))"
  shows "guarded (sets (kernel (fst c'))) (qstate (fst c'))"
  using assms(2,4)
proof (induction rule: agent_step.induct)
  case (message msg s r s' es)
  then show ?case using message_guarded [OF assms(1)] assms(3) by auto
next
  case (reinforce e s r s' es)
  obtain mac vip a where e: "e = (mac, vip, a)" by (cases e)
  from nft_kernel.reinforce_effect [OF nft_kernel.intro [OF assms(1)], of "[e]" s] reinforce
  have "sets (kernel s') = nft_effect (fw_of a) mac (Some (ipv4_to_string vip)) (sets (kernel s))"
    "qstate s' = qstate s" by (auto simp: e)
  then show ?case using reinforce guarded_more by simp
next
  case (repoison entries s r s' es)
  then show ?case using repoison_quiet [OF repoison(1)] by simp
qed simp_all

lemma agent_run_guarded:
  assumes "nft_works exec sets" and "agent_run exec arrives c c'" and "arrives \<le> plain_message"
    and "guarded (sets (kernel (fst c))) (qstate (fst c))"
  shows "guarded (sets (kernel (fst c'))) (qstate (fst c'))"
  using assms(2) unfolding agent_run_def
  by (induction rule: rtranclp_induct) (use assms(3,4) agent_step_guarded [OF assms(1)] in auto)

lemma guarded_empty: "guarded S Map.empty"
  by (simp add: guarded_def)

section \<open>A device stays in the table\<close>

text \<open>The messages that do not allow a device.\<close>

definition spares :: "string \<Rightarrow> arrivals" where
  "spares k msg =
     pred_option (\<lambda>c. \<not> (is_allow_action (cmd_action c) \<and> to_lowercase (cmd_mac_address c) = k)) msg"

lemma message_stays:
  assumes "nft_works exec sets" and "spares k msg" and "consume exec Nft msg s = Some (r, s')"
    and "qstate s k \<noteq> None"
  shows "qstate s' k \<noteq> None"
proof (cases msg)
  case None
  with assms(3,4) show ?thesis by (simp add: consume_def em_return_def)
next
  case (Some c)
  note kernel = nft_kernel.intro [OF assms(1)]
  have mac: "cmd_mac_address (strip_command c) = cmd_mac_address c" by (simp add: strip_command_def)
  show ?thesis
  proof (cases "is_allow_action (cmd_action c)")
    case True
    then have "to_lowercase (cmd_mac_address c) \<noteq> k" using assms(2) by (simp add: Some spares_def)
    with nft_kernel.consume_allow [OF kernel True, of s] assms(3,4) show ?thesis by (auto simp: Some mac)
  next
    case False
    with nft_kernel.consume_command [OF kernel this, of s] assms(3,4) show ?thesis
      by (auto simp: Some dest: entered_stays)
  qed
qed

lemma agent_step_stays:
  assumes "nft_works exec sets" and "agent_step exec arrives c c'" and "arrives \<le> spares k"
    and "qstate (fst c) k \<noteq> None"
  shows "qstate (fst c') k \<noteq> None"
  using assms(2,4)
proof (induction rule: agent_step.induct)
  case (message msg s r s' es)
  then show ?case using message_stays [OF assms(1)] assms(3) by auto
next
  case (reinforce e s r s' es)
  from nft_kernel.reinforce_effect [OF nft_kernel.intro [OF assms(1)], of "[e]" s] reinforce
  show ?case by auto
next
  case (repoison entries s r s' es)
  then show ?case using repoison_quiet [OF repoison(1)] by simp
qed simp_all

section \<open>A command is remembered\<close>

lemma sp_apply_Ok:
  assumes "send_fails s = []"
  obtains s' where "sp_apply a my_mac vip vmac gw s = Some (Ok (), s')" and "qstate s' = qstate s"
  using sp_apply_frames [OF assms, of a my_mac vip vmac gw] by fastforce

lemma command_recorded:
  assumes "nft_works exec sets" and "\<not> is_allow_action (cmd_action c)"
    and "cmd_ip_opt (strip_command c) \<noteq> None" and "parse_ipv4 (cmd_ip_address (strip_command c)) = Some vip"
    and "parse_mac (cmd_mac_address c) = Some vmac" and "cmd_gateway (strip_command c) (proc_route s) = Some gw"
    and "send_fails s = []"
  shows "\<exists>s'. consume exec Nft (Some c) s = Some (Ok (), s') \<and>
    qstate s' = (qstate s)(to_lowercase (cmd_mac_address c) \<mapsto>
      \<lparr>victim_ip = vip, victim_mac = vmac, gateway_ip = gw, qe_action = map_action (cmd_action c)\<rparr>)"
proof -
  let ?cmd = "strip_command c" and ?e = "\<lparr>victim_ip = vip, victim_mac = vmac, gateway_ip = gw, qe_action = map_action (cmd_action c)\<rparr>"
  note kernel = nft_kernel.intro [OF assms(1)]
  obtain k1 where k1: "drop_stale_ip exec Nft ?cmd s = Some (Ok (), s\<lparr>kernel := k1\<rparr>)"
    by (rule nft_kernel.drop_stale_ip_effect [OF kernel])
  obtain k2 where k2: "em_fw (fw_act exec Nft (fw_of (map_action (cmd_action c))) (cmd_mac_address ?cmd) (cmd_ip_opt ?cmd))
      (s\<lparr>kernel := k1\<rparr>) = Some (Ok (), s\<lparr>kernel := k2\<rparr>)"
    by (rule nft_kernel.em_fw_act [OF kernel, of _ _ _ "s\<lparr>kernel := k1\<rparr>"]) simp
  let ?s = "s\<lparr>kernel := k2\<rparr>"
  have same: "cmd_mac_address ?cmd = cmd_mac_address c" "cmd_action ?cmd = cmd_action c"
    by (simp_all add: strip_command_def)
  have "\<exists>s'. (case spoofer ?s of None \<Rightarrow> update_state ?cmd vip vmac gw (map_action (cmd_action c)) ?s
      | Some my_mac \<Rightarrow> em_seq (sp_apply (map_action (cmd_action c)) my_mac vip vmac gw)
          (update_state ?cmd vip vmac gw (map_action (cmd_action c))) ?s) = Some (Ok (), s')
      \<and> qstate s' = (qstate s)(to_lowercase (cmd_mac_address c) \<mapsto> ?e)"
  proof (cases "spoofer ?s")
    case None
    then show ?thesis by (simp add: update_state_def same)
  next
    case (Some my_mac)
    obtain s1 where "sp_apply (map_action (cmd_action c)) my_mac vip vmac gw ?s = Some (Ok (), s1)" "qstate s1 = qstate ?s"
      by (rule sp_apply_Ok [of ?s]) (use assms(7) in simp_all)
    with Some show ?thesis by (simp add: em_seq_def em_bind_def update_state_def same)
  qed
  then obtain s' where rest: "(case spoofer ?s of None \<Rightarrow> update_state ?cmd vip vmac gw (map_action (cmd_action c)) ?s
      | Some my_mac \<Rightarrow> em_seq (sp_apply (map_action (cmd_action c)) my_mac vip vmac gw)
          (update_state ?cmd vip vmac gw (map_action (cmd_action c))) ?s) = Some (Ok (), s')"
    "qstate s' = (qstate s)(to_lowercase (cmd_mac_address c) \<mapsto> ?e)" by blast
  have ip: "\<not> (cmd_ip_address ?cmd = [] \<or> cmd_ip_address ?cmd = ''0.0.0.0'')"
    using assms(3) by (auto simp: cmd_ip_opt_def split: if_splits)
  have "execute_command exec Nft ?cmd s = Some (Ok (), s')"
    unfolding execute_command_def Let_def fw_apply_act same(2)
    using k1 k2 rest(1) ip assms(4-6) by (simp add: em_seq_def em_bind_def same)
  then have "consume exec Nft (Some c) s = Some (Ok (), s')"
    using assms(2) by (simp add: consume_def em_ignore_def Let_def same)
  with rest(2) show ?thesis by blast
qed

section \<open>The loop repairs the sets\<close>

text \<open>
  Whatever has happened to the kernel, a round over the table drops the packets of every device in it,
  by hardware address and by the address it was taken under.
\<close>

lemma round_restores:
  assumes "nft_works exec sets" and "qstate s k = Some e" and "k \<in> set order"
  shows "\<exists>s'. reinforce exec Nft (reinforce_snapshot order s) (s\<lparr>kernel := broken\<rparr>) = Some (Ok (), s')
    \<and> qstate s' = qstate s
    \<and> (\<forall>p. nft_touches k (Some (entry_ip e)) p \<longrightarrow> nft_dropped (sets (kernel s')) p)"
proof -
  have "(k, victim_ip e, qe_action e) \<in> set (reinforce_snapshot order s)"
    using assms(2,3) by (force simp: reinforce_snapshot_def map_filter_def image_iff)
  then show ?thesis
    using nft_kernel.reinforce_effect [OF nft_kernel.intro [OF assms(1)], of "reinforce_snapshot order s" "s\<lparr>kernel := broken\<rparr>"]
    by (auto simp: entry_ip_def intro: reinforced_hits)
qed

end
