(* ===== verification/SystemRuns.thy ===== *)
theory SystemRuns
  imports Platform EnforcementRuns
begin

text \<open>
  The whole system: the services on the shared database and bus, and the enforcement agent of one host.
  A step is a step of the platform, or a step of the agent to which any enforcement command on the bus,
  or a message it cannot read, may arrive, in any order, late, repeatedly or never. The commands the
  services publish name addresses as the database prints them, the agent's table and the kernel agree on
  such addresses, and so the invariant of the agent holds in every run of the system.
\<close>

section \<open>Steps\<close>

definition on_bus :: "world \<Rightarrow> arrivals" where
  "on_bus w msg = pred_option (\<lambda>c. Enforcement c \<in> set (published w)) msg"

type_synonym 'k system = "world \<times> 'k enforcement \<times> snapshot option"

inductive system_step :: "libraries \<Rightarrow> 'k exec \<Rightarrow> arrivals \<Rightarrow> 'k system \<Rightarrow> 'k system \<Rightarrow> bool"
  for L exec arrives where
  services: "platform_step L w w' \<Longrightarrow> system_step L exec arrives (w, a) (w', a)"
| enforcement: "agent_step exec (\<lambda>msg. on_bus w msg \<and> arrives msg) a a' \<Longrightarrow>
    system_step L exec arrives (w, a) (w, a')"

definition system_run :: "libraries \<Rightarrow> 'k exec \<Rightarrow> arrivals \<Rightarrow> 'k system \<Rightarrow> 'k system \<Rightarrow> bool" where
  "system_run L exec arrives = (system_step L exec arrives)\<^sup>*\<^sup>*"

text \<open>The start: a migrated database and an agent that has seen nothing.\<close>

fun system_start :: "'k system \<Rightarrow> bool" where
  "system_start (w, s, es) = (migrated w \<and> qstate s = Map.empty \<and> es = None)"

section \<open>What arrives is plain\<close>

text \<open>
  The documented output of a hardware address by the database: twelve digits in lower case, in pairs
  separated by colons. A text in another form is never printed.
\<close>

definition prints_colons :: "pg \<Rightarrow> bool" where
  "prints_colons db \<longleftrightarrow> (\<forall>s m. mac_in db s = Some m \<longrightarrow> nft_mac m = m)"

lemma canon_lower:
  assumes "nft_mac m = m"
  shows "to_lowercase m = m"
proof (cases "length (hex_digits m) = 12")
  case True
  have colon: "lower_char CHR '':'' = CHR '':''" by code_simp
  from True have low: "to_lowercase (canon_text (to_lowercase (hex_digits m))) = canon_text (to_lowercase (hex_digits m))"
    by (rule length_12_cases) (simp add: canon_text_def colon)
  have "m = canon_text (to_lowercase (hex_digits m))" using assms nft_mac_canon [OF True] by simp
  with low show ?thesis by metis
next
  case False
  then show ?thesis using assms by (simp add: nft_mac_def)
qed

lemma zero_plain: "nft_mac zero_mac = to_lowercase zero_mac"
  unfolding zero_mac_def by code_simp

lemma printed_plain:
  assumes "prints_colons db" and "printed db m"
  shows "nft_mac m = to_lowercase m"
proof (cases "m = zero_mac")
  case True
  then show ?thesis by (simp only: zero_plain)
next
  case False
  with assms obtain x where "nft_mac x = x" "m = x \<or> m = to_lowercase x"
    by (auto simp: printed_def prints_colons_def)
  with canon_lower [of x] show ?thesis by auto
qed

lemma bus_plain:
  assumes "prints_colons (lib_pg L)" and "reachable L w"
  shows "on_bus w \<le> plain_message"
  using reachable_command [OF assms(2)] printed_plain [OF assms(1)]
  by (auto simp: on_bus_def plain_message_def option.pred_set)

section \<open>The invariant of the runs\<close>

definition secured :: "libraries \<Rightarrow> ('k \<Rightarrow> string \<Rightarrow> string set) \<Rightarrow> 'k system \<Rightarrow> bool" where
  "secured L sets c \<longleftrightarrow> reachable L (fst c) \<and> guarded (sets (kernel (fst (snd c)))) (qstate (fst (snd c)))"

lemma system_start_secured: "system_start c \<Longrightarrow> secured L sets c"
  by (cases c) (auto simp: secured_def guarded_empty intro: reachable.start)

lemma system_step_secured:
  assumes "nft_works exec sets" and "prints_colons (lib_pg L)"
  shows "system_step L exec arrives c c' \<Longrightarrow> secured L sets c \<Longrightarrow> secured L sets c'"
proof (induction rule: system_step.induct)
  case (services w w' a)
  then show ?case by (auto simp: secured_def intro: reachable.next_step)
next
  case (enforcement w a a')
  then have r: "reachable L w" and g: "guarded (sets (kernel (fst a))) (qstate (fst a))" by (simp_all add: secured_def)
  have "(\<lambda>msg. on_bus w msg \<and> arrives msg) \<le> plain_message"
    using bus_plain [OF assms(2) r] by auto
  from agent_step_guarded [OF assms(1) enforcement.hyps this g] r show ?case by (simp add: secured_def)
qed

lemma system_run_secured:
  assumes "nft_works exec sets" and "prints_colons (lib_pg L)" and "system_run L exec arrives c c'"
    and "secured L sets c"
  shows "secured L sets c'"
  using assms(3) unfolding system_run_def
  by (induction rule: rtranclp_induct) (use assms(4) system_step_secured [OF assms(1,2)] in auto)

lemma system_step_stays:
  assumes "nft_works exec sets"
  shows "system_step L exec (spares k) c c' \<Longrightarrow> qstate (fst (snd c)) k \<noteq> None \<Longrightarrow> qstate (fst (snd c')) k \<noteq> None"
proof (induction rule: system_step.induct)
  case (enforcement w a a')
  have "(\<lambda>msg. on_bus w msg \<and> spares k msg) \<le> spares k" by auto
  from agent_step_stays [OF assms enforcement.hyps this] enforcement.prems show ?case by simp
qed simp

lemma system_run_stays:
  assumes "nft_works exec sets" and "system_run L exec (spares k) c c'" and "qstate (fst (snd c)) k \<noteq> None"
  shows "qstate (fst (snd c')) k \<noteq> None"
  using assms(2) unfolding system_run_def
  by (induction rule: rtranclp_induct) (use assms(3) system_step_stays [OF assms(1)] in auto)

theorem system_enforces:
  assumes "nft_works exec sets" and "prints_colons (lib_pg L)"
    and "system_start c0" and "system_run L exec arrives c0 c1" and "qstate (fst (snd c1)) k \<noteq> None"
    and "system_run L exec (spares k) c1 c2" and "pk_ether p = k"
  shows "nft_dropped (sets (kernel (fst (snd c2)))) p"
proof -
  have "secured L sets c2"
    using system_run_secured [OF assms(1,2)] assms(4,6) system_start_secured [OF assms(3)] by blast
  moreover obtain e where "qstate (fst (snd c2)) k = Some e"
    using system_run_stays [OF assms(1,6,5)] by blast
  ultimately show ?thesis using assms(7) by (auto simp: secured_def intro: guarded_dropped)
qed

end
