(* ===== verification/Spec2Isabelle.thy ===== *)
theory Spec2Isabelle
  imports NetDhcp NetIcmp6 MacText PolicyEngine DhcpServer Reconcile Platform Fingerprint
    GatewayRoutes Sensor AgentSession StartConfig Wire PolicyTexts ServiceLoops Sighting SystemRuns
begin

text \<open>
  LEntropy is a network access control platform of small services in Rust. A \<^bold>\<open>sensor\<close> captures
  ARP and DHCP frames and reports devices; the \<^bold>\<open>policy manager\<close> keeps the database of devices,
  sessions, policies and rules, decides what each device may do and publishes enforcement commands on a
  message bus; the \<^bold>\<open>enforcement agent\<close> carries the commands out with the packet filter of the
  kernel and with spoofed ARP replies; the \<^bold>\<open>AAA\<close> service is the captive portal, where quarantined
  users log in, and the RADIUS server; the \<^bold>\<open>endpoint agents\<close> report what is installed on a host to
  the \<^bold>\<open>agent gateway\<close>; a \<^bold>\<open>DHCP\<close> server hands out addresses; and the \<^bold>\<open>API gateway\<close>
  stands before the policy manager for the administrators. This development models the logic of all of
  them and proves the properties below of the model. All paths are under \<^verbatim>\<open>src/\<close>.

  \<^bold>\<open>Vocabulary.\<close> \<^verbatim>\<open>NacPrelude\<close>: the outcome of a Rust computation (a value, an error
  value, or a panic), checked slices, addresses, big-endian integers. \<^verbatim>\<open>NacText\<close>: the functions
  of \<^verbatim>\<open>str\<close> that the services use, on byte strings. Machine integers are words; where a build
  with overflow checks differs from a release build, the argument \<open>checked\<close> says which one it is.
  \<^verbatim>\<open>Wire\<close>: what the services write as JSON and how the derived readers of the message and
  condition types take it in; every writer and its reader is an instance of one contract
  (locale \<open>wire_format\<close>).

  \<^bold>\<open>Frames and payloads.\<close> \<^verbatim>\<open>NetArp\<close>, \<^verbatim>\<open>NetDhcp\<close>, \<^verbatim>\<open>NetIcmp6\<close>
  model \<^verbatim>\<open>crates/nac-netproto\<close> and the crafted advertisement of
  \<^verbatim>\<open>services/enforcement/src/ipv6_block.rs\<close>, byte for byte: what is crafted is parsed back, the
  option loops end and never panic. \<^verbatim>\<open>MacText\<close>: the ways the services write hardware
  addresses, each an instance of one contract (locale \<open>mac_canon\<close>).

  \<^bold>\<open>Decisions.\<close> \<^verbatim>\<open>PolicyEngine\<close>: \<^verbatim>\<open>crates/nac-policy-engine\<close>.
  \<^verbatim>\<open>Fingerprint\<close>, \<^verbatim>\<open>OuiTable\<close>: \<^verbatim>\<open>crates/nac-fingerprint\<close>.

  \<^bold>\<open>The database and the bus.\<close> \<^verbatim>\<open>Store\<close>: the repositories of
  \<^verbatim>\<open>crates/nac-store\<close> over a record of tables with the constraints of the schema and the
  messages published so far. Each statement takes a turn of a schedule that delivers it, refuses it, or
  carries it out and loses the reply, so that every error path of the callers is reached. The record
  \<open>pg\<close> stands for the texts that PostgreSQL reads (\<^verbatim>\<open>macaddr\<close>, \<^verbatim>\<open>inet\<close>)
  and JSON. \<^verbatim>\<open>StoreLogic\<close>: triples \<open>valid P m Q E\<close> with a postcondition for success, one for
  errors, and no panic; the locales \<open>io_steps\<close> and \<open>io_invariant\<close> give the rules for an invariant, and
  are interpreted for the consistency of the database, for operations that publish nothing, for
  operations that leave the devices alone, and for the messages on the bus.

  \<^bold>\<open>The policy manager\<close>, \<^verbatim>\<open>services/policy-manager/src\<close>. \<^verbatim>\<open>PmConsumer\<close>:
  \<^verbatim>\<open>consumer.rs\<close>, \<^verbatim>\<open>session_handler.rs\<close>. \<^verbatim>\<open>PmPosture\<close>:
  \<^verbatim>\<open>posture_handler.rs\<close>. \<^verbatim>\<open>PmEvaluate\<close>: \<^verbatim>\<open>api/evaluate.rs\<close>.
  \<^verbatim>\<open>PmBackground\<close>, \<^verbatim>\<open>Reconcile\<close>: \<^verbatim>\<open>background.rs\<close>.
  \<^verbatim>\<open>PmApi\<close>: the other files of \<^verbatim>\<open>api/\<close>. The lemmas say of each handler that it
  keeps the consistency of the database, and what it tells the enforcement agent (\<open>told\<close>): at most one
  command, for a stored device, with the action of its stored status. \<^verbatim>\<open>PolicyTexts\<close>: the
  conditions of a policy from the text an administrator stores to the decision, what one text that cannot
  be read does to the handlers, and the policies the migrations store.

  \<^bold>\<open>Enforcement\<close>, \<^verbatim>\<open>services/enforcement/src\<close>. \<^verbatim>\<open>Firewall\<close>: the driver
  \<^verbatim>\<open>iptables.rs\<close>, the rule set it installs and a reading of it. \<^verbatim>\<open>FirewallLaws\<close>,
  \<^verbatim>\<open>FirewallLegacy\<close>: the contract of the driver (locale \<open>enforcer\<close>) and both back ends as
  instances of it. \<^verbatim>\<open>Enforcement\<close>: \<^verbatim>\<open>consumer.rs\<close>, \<^verbatim>\<open>arp_spoof.rs\<close>,
  \<^verbatim>\<open>gateway_lock.rs\<close>, \<^verbatim>\<open>ipv6_block.rs\<close> and the loops of \<^verbatim>\<open>main.rs\<close>.
  \<^verbatim>\<open>EnforcementLaws\<close>: what a command does to the kernel and to the network.
  \<^verbatim>\<open>EnforcementRuns\<close>: the interleavings of the agent's tasks as a step relation, its
  invariant, and when a device leaves its table.

  \<^bold>\<open>The other services.\<close> \<^verbatim>\<open>DhcpServer\<close>: \<^verbatim>\<open>services/dhcp/src\<close>.
  \<^verbatim>\<open>Radius\<close>, \<^verbatim>\<open>Portal\<close>: \<^verbatim>\<open>services/aaa/src\<close> with the login checks of
  \<^verbatim>\<open>crates/nac-auth\<close>. \<^verbatim>\<open>GatewayAuth\<close>, \<^verbatim>\<open>GatewayRoutes\<close>:
  \<^verbatim>\<open>services/api-gateway/src\<close> and the routes of the policy manager.
  \<^verbatim>\<open>Sensor\<close>: \<^verbatim>\<open>services/sensor/src\<close>. \<^verbatim>\<open>AgentGateway\<close>,
  \<^verbatim>\<open>AgentHost\<close>: \<^verbatim>\<open>services/agent-gateway/src\<close> and
  \<^verbatim>\<open>services/endpoint-agent/src\<close>. \<^verbatim>\<open>AgentSession\<close>: the tokens of
  \<^verbatim>\<open>crates/nac-auth/src/jwt.rs\<close> over the life of an agent. \<^verbatim>\<open>Services\<close>,
  \<^verbatim>\<open>StartConfig\<close>: what the services do before their loops, the configuration they start
  with (\<^verbatim>\<open>crates/nac-config\<close>), and the routes of the portal.

  \<^bold>\<open>Composition.\<close> \<^verbatim>\<open>CommandBus\<close>: every handler of every service keeps rows and commands in
  order, that is, commands have an action the enforcement agent knows and an address the database has
  printed. \<^verbatim>\<open>Platform\<close>: a step is a handler of any service on the shared database and bus
  under any schedule; the worlds reachable from a freshly migrated database keep the consistency of the
  tables and the order of the bus. It also joins the handler of an event with the agent that consumes
  its command. \<^verbatim>\<open>ServiceLoops\<close>: the loops that call the handlers, over what they receive;
  no input and no fault ends one, and the policy manager as a whole, its tasks interleaved, only takes
  steps of the platform. \<^verbatim>\<open>SystemRuns\<close>: the steps of the platform and of the enforcement agent together;
  what arrives at the agent is what is on the bus, so the agent's invariant holds in every run of the
  whole system. \<^verbatim>\<open>Sighting\<close>: from a captured frame to the row in the database. This theory holds
  the properties, each under a number, and their witnesses.

  \<^bold>\<open>Arguments of the model.\<close> Code that is not in the repository is an argument, with what is relied on
  as a hypothesis: the programs \<^verbatim>\<open>nft\<close> and \<^verbatim>\<open>iptables-legacy\<close> (\<open>nft_works\<close>,
  \<open>ipt_works\<close>; a list-based kernel satisfies each), the form in which PostgreSQL prints a hardware address
  (\<open>prints_colons\<close>), \<^verbatim>\<open>pnet\<close> (\<open>reads_arp\<close>), the
  \<^verbatim>\<open>dhcproto\<close> codec, MD5, \<^verbatim>\<open>DefaultHasher\<close>, argon2, \<^verbatim>\<open>jsonwebtoken\<close>
  (\<open>jwt_works\<close>), the LDAP server, the gRPC channel, the host of an endpoint agent, the proc files, the
  environment, and the clock. The text of a JSON document is read by \<^verbatim>\<open>serde_json\<close>: the model
  starts from the value it yields, whose numbers are integers, and the readers that
  \<^verbatim>\<open>derive(Deserialize)\<close> generates are written out from the types and their attributes. In the
  record \<open>pg\<close> the reader of conditions is an argument; \<open>with_json\<close> puts the code's reader there.

  \<^bold>\<open>Bounds.\<close> Every loop of the code that the model has ends: recursion on the data or on the distance to
  the end of a buffer. The loops of the legacy back end that delete a rule until the program fails are
  \<^theory_text>\<open>partial_function (option)\<close>; on a kernel that obeys \<open>ipt_works\<close> they are proved to end. The
  agent's registration loop is modelled over the answers it gets, the capture loops over what the capture
  gives them, and the loops of the services over the list of what they receive, whatever its length. A
  datagram is cut at the 4096 bytes of the buffers of the RADIUS and the DHCP server. The bulk evaluation reads
  at most 10000 devices, which its property states.

  \<^bold>\<open>Not modelled.\<close> Binding sockets, timers, connecting to the database and the bus, and spawning the
  tasks, which are calls of libraries; the SNMP stubs, which nothing calls; \<^verbatim>\<open>nac-models\<close>, data
  types that no service uses; \<^verbatim>\<open>nac-bus\<close>, \<^verbatim>\<open>nac-crypto\<close>,
  \<^verbatim>\<open>nac-proto\<close>, wrappers of a few lines; the static pages of the portal; logging; the unit
  tests, the integration test client, the admin console, the migrations other than the policies they store,
  and the deployment files. A handler is one step: tasks of one service interleave between their handlers,
  except that the reinforcement loop of the enforcement agent may be interrupted after every entry.
\<close>

section \<open>Policy evaluation\<close>

text \<open>
  C1 (functional). The engine decides by the matching rule of least priority number; among matching
  rules of that priority by the one that comes first in the list; and by \<^verbatim>\<open>Deny\<close> when none
  matches.
\<close>

theorem evaluate_decides:
  "(\<exists>pre r post. rules = pre @ r # post \<and> matches_condition (pr_condition r) ctx
      \<and> fst (evaluate rules ctx) = Ok (pr_decision r)
      \<and> (\<forall>r' \<in> set pre. matches_condition (pr_condition r') ctx \<longrightarrow> pr_priority r < pr_priority r')
      \<and> (\<forall>r' \<in> set post. matches_condition (pr_condition r') ctx \<longrightarrow> pr_priority r \<le> pr_priority r'))
   \<or> ((\<forall>r \<in> set rules. \<not> matches_condition (pr_condition r) ctx)
      \<and> fst (evaluate rules ctx) = Ok (Deny ''no matching policy rule''))"
proof (cases "best_rule rules ctx")
  case None
  then have "fst (evaluate rules ctx) = Ok (Deny ''no matching policy rule'')"
    by (simp add: evaluate_best_rule)
  with None show ?thesis by (simp only: best_rule_None_iff) blast
next
  case (Some r)
  then have "fst (evaluate rules ctx) = Ok (pr_decision r)" by (simp add: evaluate_best_rule)
  with best_rule_SomeD [OF Some] show ?thesis by blast
qed

definition witness_rule :: "int \<Rightarrow> condition \<Rightarrow> policy_decision \<Rightarrow> policy_rule" where
  "witness_rule p c d = \<lparr>pr_name = ''r'', pr_priority = p, pr_condition = c, pr_decision = d\<rparr>"

definition witness_context :: policy_context where
  "witness_context = \<lparr>px_mac_address = ''aa:bb:cc:dd:ee:ff'', px_ip_address = None, px_hostname = None,
     px_os_family = Some ''Windows'', px_device_type = None, px_username = None, px_groups = [],
     px_is_compliant = None, px_switch_port = None\<rparr>"

definition witness_rules :: "policy_rule list" where
  "witness_rules = [witness_rule 9 (And []) Allow, witness_rule 1 (OsFamily ''Windows'') (AllowVlan 7)]"

theorem evaluate_decides_witness:
  "\<exists>pre r post. witness_rules = pre @ r # post \<and> matches_condition (pr_condition r) witness_context
      \<and> fst (evaluate witness_rules witness_context) = Ok (pr_decision r)"
proof -
  have "matches_condition (pr_condition (hd witness_rules)) witness_context"
    "hd witness_rules \<in> set witness_rules"
    by (simp_all add: witness_rules_def witness_rule_def)
  with evaluate_decides [of witness_rules witness_context] show ?thesis by blast
qed

section \<open>Frames and payloads\<close>

text \<open>
  C2 (roundtrip). What the enforcement agent crafts to divert a device reads back as what it claims: an
  ARP reply or gratuitous ARP frame gives the sender's hardware address, the sender's and the target's
  IP and the reply flag, and the neighbor advertisement, read by either ICMPv6 parser, claims the target
  address for the sender's hardware address.
\<close>

theorem crafted_frames_read_back:
  assumes "length addr = 16"
  shows "rbind (craft_arp_reply dmac smac sip tmac tip) parse_arp =
      Ok \<lparr>sender_mac = smac, sender_ip = sip, target_ip = tip, is_reply = True\<rparr>
    \<and> rbind (craft_gratuitous_arp smac sip tip) parse_arp =
      Ok \<lparr>sender_mac = smac, sender_ip = sip, target_ip = tip, is_reply = True\<rparr>
    \<and> parse_neighbor_advertisement (icmpv6_payload (craft_na_spoof smac addr)) =
      Ok \<lparr>na_target_addr = addr, na_link_layer_addr = Some smac\<rparr>
    \<and> parse_ndp (icmpv6_payload (craft_na_spoof smac addr)) =
      Ok \<lparr>ndp_type = NeighborAdvertisement, ndp_target_addr = addr, ndp_link_layer_addr = Some smac\<rparr>"
  using parse_na_craft_na_spoof [OF assms] parse_craft_na_spoof [OF assms]
  by (simp only: parse_craft_arp_reply parse_craft_gratuitous_arp simp_thms)

theorem crafted_frames_read_back_witness:
  "parse_neighbor_advertisement (icmpv6_payload (craft_na_spoof (Mac 2 0 0 0 0 1) (replicate 16 7))) =
     Ok \<lparr>na_target_addr = replicate 16 7, na_link_layer_addr = Some (Mac 2 0 0 0 0 1)\<rparr>"
  using crafted_frames_read_back [of "replicate 16 7" "Mac 0 0 0 0 0 0" "Mac 2 0 0 0 0 1" "Ipv4 0 0 0 0"
      "Mac 0 0 0 0 0 0" "Ipv4 0 0 0 0"] by simp

text \<open>
  C3 (safety). No frame and no datagram, of whatever length and content, makes a parser of captured
  packets or the RADIUS server panic: not the parsers, not the accounting handler, and not the
  authentication handler under any faults of the database and the bus. The ARP parser rejects exactly
  the frames shorter than 42 bytes.
\<close>

theorem captured_packets_never_panic:
  "parse_arp frame \<noteq> Panic \<and> parse_dhcp_binding payload \<noteq> Panic \<and> parse_dhcp_client payload \<noteq> Panic
   \<and> parse_ndp payload \<noteq> Panic \<and> parse_neighbor_advertisement payload \<noteq> Panic
   \<and> radius_parse payload \<noteq> Panic \<and> handle_acct_packet payload \<noteq> Panic
   \<and> fst (handle_auth_packet db md5 env payload secret w) \<noteq> Panic
   \<and> ((\<exists>e. parse_arp frame = Err e) \<longleftrightarrow> length frame < 42)"
proof -
  have "(\<exists>e. parse_arp frame = Err e) \<longleftrightarrow> length frame < 42"
    using parse_arp_short [of frame] parse_arp_long [of frame] by fastforce
  then show ?thesis
    by (simp only: parse_arp_no_panic parse_dhcp_binding_no_panic parse_dhcp_client_no_panic
        parse_ndp_no_panic parse_neighbor_advertisement_no_panic radius_parse_no_panic
        handle_acct_packet_no_panic handle_auth_packet_no_panic simp_thms)
qed

text \<open>
  C4 (functional). A DHCP request whose option area is a sequence of well-formed options, closed by
  the end option and followed by anything, is parsed to the fold of those options: the last
  occurrence of each option read by the sensor decides, and the hardware address is the one at byte 28.
\<close>

theorem dhcp_options_decoded:
  assumes "length hdr = 240" and "hdr ! 0 = 1" and "plain_options os"
    and "rmac hdr 28 = (Ok m :: (net_proto_error, mac6) rust)"
  shows "parse_dhcp_client (hdr @ encode_options os @ 255 # rest) =
    Ok (apply_options os \<lparr>client_mac = m, msg_type = 0, hostname = None,
          parameter_request_list = None, vendor_class = None\<rparr>)"
  using assms by (rule parse_dhcp_client_options)

theorem dhcp_options_decoded_witness:
  "parse_dhcp_client ((1 # replicate 239 0) @ encode_options [(53, [1]), (55, [1, 3, 6])] @ [255, 9]) =
     Ok \<lparr>client_mac = Mac 0 0 0 0 0 0, msg_type = 1, hostname = None,
         parameter_request_list = Some [1, 3, 6], vendor_class = None\<rparr>"
proof -
  have "rmac (1 # replicate 239 0) 28 = (Ok (Mac 0 0 0 0 0 0) :: (net_proto_error, mac6) rust)"
    by (simp add: rmac_def rslice_def drop_Cons' numeral_eq_Suc)
  from dhcp_options_decoded [OF _ _ _ this, of "[(53, [1]), (55, [1, 3, 6])]" "[9]"]
  show ?thesis by (simp add: plain_options_def apply_option_def)
qed

section \<open>Hardware addresses\<close>

text \<open>
  C5 (equivalence). The services that rewrite a hardware address agree: the RADIUS server and the
  agent gateway normalise alike, normalising twice changes nothing, the text they produce denotes the
  same six bytes as the text they were given, a text is refused exactly when it denotes none, and the
  two firewall back ends use the same text up to case.
\<close>

theorem normalizers_preserve_address:
  "aaa_normalize_mac s = agent_normalize_mac s
   \<and> Option.bind (aaa_normalize_mac s) aaa_normalize_mac = aaa_normalize_mac s
   \<and> Option.bind (aaa_normalize_mac s) parse_mac = parse_mac s
   \<and> (aaa_normalize_mac s = None \<longleftrightarrow> parse_mac s = None)
   \<and> parse_mac (format_mac m) = Some m
   \<and> ipt_mac s = to_uppercase (nft_mac s)"
proof (cases "aaa_normalize_mac s")
  case None
  then show ?thesis
    using aaa_mac.norm_None_parse [of s] by (simp add: normalizers_agree ipt_nft_mac)
next
  case (Some t)
  then show ?thesis
    using aaa_mac.norm_idem [OF Some] aaa_mac.norm_parse [OF Some] aaa_mac.norm_None_parse [of s]
    by (simp add: normalizers_agree [symmetric] ipt_nft_mac)
qed

section \<open>A migrated database\<close>

text \<open>The world the witnesses start from: the seeded policies and nothing else.\<close>

definition seed_policy :: "uuid \<Rightarrow> string \<Rightarrow> int \<Rightarrow> string \<Rightarrow> i16 option \<Rightarrow> policy_row" where
  "seed_policy i name prio action vlan =
     \<lparr>po_id = i, po_name = name, po_description = None, po_priority = prio, po_conditions = JArr [],
      po_action = action, po_vlan_id = vlan, po_enabled = True, po_created_at = 0\<rparr>"

definition seeded_world :: world where
  "seeded_world =
     \<lparr>endpoints = [], sessions = [],
      policies = [seed_policy 0 ''default-allow'' 9999 ''allow'' None,
        seed_policy 1 ''quarantine-unknown'' 10 ''quarantine'' (Some 99),
        seed_policy 2 ''allow-corp-devices'' 50 ''allow'' (Some 10),
        seed_policy 3 ''deny-blacklist'' 1 ''deny'' None],
      audit_log = [], posture_reports = [], ip_rules = [], nac_users = [], published = [],
      clock = 0, fresh = 4, schedule = []\<rparr>"

section \<open>The DHCP server\<close>


definition witness_server :: dhcp_server where
  "witness_server = \<lparr>pool = pool_new (Ipv4 10 0 0 10) (Ipv4 10 0 0 11) (Ipv4 255 255 255 0) (Ipv4 10 0 0 1),
     server_ip = Ipv4 10 0 0 1\<rparr>"

definition witness_message :: dhcp_message where
  "witness_message = \<lparr>m_opcode = BootRequest, m_htype = 1, m_hops = 0, m_xid = 7, m_flags = 0,
     m_yiaddr = ipv4_unspecified, m_siaddr = ipv4_unspecified, m_giaddr = ipv4_unspecified,
     m_chaddr = [2, 0, 0, 0, 0, 1], m_opts = [CMessageType \<mapsto> MessageType Discover]\<rparr>"




text \<open>
  C7 (safety). A client that was offered an address and then sends a REQUEST without naming one is
  acknowledged the offered address, whatever other clients asked for in between.
\<close>

theorem dhcp_offer_is_kept:
  assumes "m_opts msg2 CRequestedIpAddress = None" and "m_chaddr msg2 = m_chaddr msg1"
    and "pool srv2 = snd (allocate_list (pool (snd (handle_discover msg0 srv1 msg1))) others)"
  shows "m_yiaddr (fst (handle_request msg0 srv2 msg2)) = m_yiaddr (fst (handle_discover msg0 srv1 msg1))"
proof -
  have "snd (allocate_list p ms) = lease.alloc_all p ms" for p ms
    by (induction ms arbitrary: p) (simp_all add: Let_def split_beta)
  with offer_then_ack [OF assms(1,2)] assms(3) show ?thesis by simp
qed

theorem dhcp_offer_is_kept_witness:
  "m_yiaddr (fst (handle_request witness_message
      (witness_server\<lparr>pool := snd (allocate_list (pool (snd (handle_discover witness_message witness_server
         witness_message))) [[2, 0, 0, 0, 0, 2]])\<rparr>) witness_message)) =
   m_yiaddr (fst (handle_discover witness_message witness_server witness_message))"
proof (rule dhcp_offer_is_kept)
  show "m_opts witness_message CRequestedIpAddress = None" by (simp add: witness_message_def)
  show "pool (witness_server\<lparr>pool := snd (allocate_list (pool (snd (handle_discover witness_message
       witness_server witness_message))) [[2, 0, 0, 0, 0, 2]])\<rparr>) =
     snd (allocate_list (pool (snd (handle_discover witness_message witness_server witness_message)))
       [[2, 0, 0, 0, 0, 2]])" by (simp del: allocate_list.simps)
qed (rule refl)

text \<open>
  C8 (safety). A binding is published only after the reply was sent; it names the hardware address of
  the request and the address in the reply, which is not the unspecified one.
\<close>

theorem dhcp_binding_matches_reply:
  assumes "dhcp_handle msg0 from_bytes to_vec accepts srv data = (r, effs, srv')"
    and "PublishBinding ev \<in> set effs"
  shows "\<exists>msg resp enc. from_bytes data = Some msg \<and> to_vec resp = Some enc \<and> accepts enc
    \<and> effs = [SendTo enc, PublishBinding ev] \<and> r = Ok ()
    \<and> ev_ip ev = ipv4_to_string (m_yiaddr resp) \<and> ev_mac ev = dhcp_format_mac (m_chaddr msg)
    \<and> m_yiaddr resp \<noteq> ipv4_unspecified \<and> m_chaddr resp = m_chaddr msg"
  using assms by (rule handle_publish)

theorem dhcp_binding_matches_reply_witness:
  "\<exists>ev enc. fst (snd (dhcp_handle witness_message (\<lambda>_. Some witness_message) (\<lambda>_. Some [0]) (\<lambda>_. True)
     witness_server [])) = [SendTo enc, PublishBinding ev]
     \<and> ev_mac ev = dhcp_format_mac (m_chaddr witness_message)"
proof -
  let ?h = "dhcp_handle witness_message (\<lambda>_. Some witness_message) (\<lambda>_. Some [0]) (\<lambda>_. True) witness_server []"
  have "fst (get_or_allocate (pool witness_server) (m_chaddr witness_message)) = Ipv4 10 0 0 10"
    by (simp add: get_or_allocate_def witness_server_def pool_new_def word_le_nat_alt ipv4_from_u32_def Let_def)
  then have "m_yiaddr (fst (handle_discover witness_message witness_server witness_message)) \<noteq> ipv4_unspecified"
    by (simp add: handle_discover_fields ipv4_unspecified_def)
  then obtain ev where "PublishBinding ev \<in> set (fst (snd ?h))"
    by (simp add: dhcp_handle_def msg_type_of_def witness_message_def split_beta)
  with dhcp_binding_matches_reply [of witness_message "\<lambda>_. Some witness_message" "\<lambda>_. Some [0]" "\<lambda>_. True"
      witness_server "[]" "fst ?h" "fst (snd ?h)" "snd (snd ?h)" ev]
  show ?thesis by auto
qed

section \<open>The platform's database and bus\<close>

text \<open>
  C9 (invariant). In every world that any interleaving of handlers reaches from a migrated database,
  under any faults: identifiers, hardware addresses and agent identifiers of devices are unique, every
  device, session and policy has a value its table allows, and every session belongs to a device.
\<close>

theorem reachable_database_consistent:
  assumes "reachable L w"
  shows "distinct (map ep_id (endpoints w)) \<and> distinct (map ep_mac_address (endpoints w))
    \<and> agents_ok (endpoints w) \<and> (\<forall>r \<in> set (endpoints w). ep_status r \<in> set statuses)
    \<and> distinct (map se_id (sessions w))
    \<and> (\<forall>s \<in> set (sessions w). se_state s \<in> set session_states
         \<and> (\<exists>r \<in> set (endpoints w). ep_id r = se_endpoint_id s))
    \<and> distinct (map po_name (policies w)) \<and> (\<forall>p \<in> set (policies w). po_action p \<in> set policy_actions)"
  using reachable_inv [OF assms]
  by (auto simp: store_inv_def endpoints_ok_def sessions_ok_def policies_ok_def has_endpoint_def list_ex_iff)

definition plain_pg :: pg where
  "plain_pg = \<lparr>mac_in = (\<lambda>s. if nft_mac s = s then Some s else None), inet_in = Some, inet_host = (\<lambda>s. s), conditions_from_json = (\<lambda>_. Some []),
     software_to_json = (\<lambda>_. JNull), software_from_json = (\<lambda>_. Some []), patches_to_json = (\<lambda>_. JNull),
     debug_decision = (\<lambda>_. [])\<rparr>"

lemma plain_macs [simp]:
  "nft_mac ''02:00:00:00:00:01'' = ''02:00:00:00:00:01''" "nft_mac ''02:00:00:00:00:09'' = ''02:00:00:00:00:09''"
  by code_simp+

definition plain_libraries :: libraries where
  "plain_libraries = \<lparr>lib_pg = plain_pg, lib_md5 = (\<lambda>_. replicate 16 0), lib_env = (\<lambda>_. None),
     lib_sign = (\<lambda>_. Some ''token''), lib_verify = (\<lambda>_. None), lib_hash = Some\<rparr>"

lemma seeded_migrated: "migrated seeded_world"
  by (simp add: migrated_def seeded_world_def seed_policy_def policies_ok_def policy_actions_def)

lemma seeded_reachable: "reachable L seeded_world"
  by (rule reachable.start) (rule seeded_migrated)

lemma rule_reachable: "reachable L (snd (create_ip_rule ''10.0.0.9'' ''block'' None seeded_world))"
  by (rule reachable.next_step [OF seeded_reachable platform_step.api_new_rule])

theorem reachable_database_consistent_witness:
  "distinct (map ep_id (endpoints (snd (create_ip_rule ''10.0.0.9'' ''block'' None seeded_world))))"
  using reachable_database_consistent [OF rule_reachable [of plain_libraries]] by blast




text \<open>
  C11 (refinement). The processes behind the handlers: wherever any interleaving of the tasks of the policy
  manager with the other services leads from a reachable world, and whatever arrives then, readable or
  not and under any faults, no loop ends: not the three subscriptions, not the two background tasks, not
  the sockets of the RADIUS and DHCP servers, not the publishing tasks of the sensor; and each goes through
  reachable worlds only.
\<close>

theorem services_run_on:
  assumes "reachable L (mg_world s0)" and "(manager_step L uuid_in)\<^sup>*\<^sup>* s0 s" and w: "w = mg_world s"
  shows "(\<exists>x w'. consumer_run (lib_pg L) payloads w = (Ok x, w') \<and> reachable L w')
    \<and> (\<exists>x w'. session_run (lib_pg L) uuid_in payloads w = (Ok x, w') \<and> reachable L w')
    \<and> (\<exists>x w'. posture_run (lib_pg L) payloads w = (Ok x, w') \<and> reachable L w')
    \<and> (\<exists>x w'. run_reconciliation w = (Ok x, w') \<and> reachable L w')
    \<and> (\<exists>x w'. run_arp_sync (lib_pg L) rds pend w = (Ok x, w') \<and> reachable L w')
    \<and> (\<exists>x w'. radius_auth_loop (lib_pg L) (lib_md5 L) (lib_env L) secret ds w = (Ok x, w') \<and> reachable L w')
    \<and> (\<exists>x. radius_acct_loop ds = Ok x)
    \<and> (\<exists>x w'. arp_task seen w = (Ok x, w') \<and> reachable L w')
    \<and> (\<exists>x w'. dhcp_task asked w = (Ok x, w') \<and> reachable L w')
    \<and> (\<exists>x w'. dhcp_run dc accepts datagrams srv w = (Ok x, w') \<and> reachable L w')"
proof -
  have "reachable L w" unfolding w by (rule reachable_steps [OF assms(1) manager_refines [OF assms(2)]])
  from loops_run_on [OF this, of payloads uuid_in rds pend secret ds seen asked dc accepts datagrams srv]
    radius_acct_Ok [of ds] show ?thesis by (simp only: simp_thms)
qed

theorem services_run_on_witness:
  "\<exists>x w'. consumer_run plain_pg [None, Some JNull, Some (JArr [])] seeded_world = (Ok x, w')
     \<and> reachable plain_libraries w'"
  using services_run_on [OF _ rtranclp.rtrancl_refl refl, of plain_libraries
      "\<lparr>mg_world = seeded_world, mg_pending = Map.empty, mg_reconciled = False\<rparr>"] seeded_reachable
  by (simp only: manager.simps plain_libraries_def libraries.simps)

section \<open>Events\<close>

text \<open>
  C12 (refinement). The handlers of a detected device, of an authentication response, of a posture
  report and of an operator's change of status, under any faults: none panics, and each publishes
  nothing or exactly one command, for the hardware address of a stored device and with the action of the
  status stored for it. A failing event or posture report and a failed login have published nothing, and
  a change that succeeds answers with the device in the status asked for.
\<close>

theorem handlers_tell_stored_status:
  "valid (\<lambda>w. published w = p) (process_event db event) (\<lambda>_. told p) (\<lambda>w. published w = p)
   \<and> valid (\<lambda>w. published w = p) (process_auth_response db resp) (\<lambda>_. told p) (told p)
   \<and> keeps (\<lambda>w. published w = p) (process_auth_response db (resp\<lparr>ar_success := False\<rparr>))
   \<and> valid (\<lambda>w. published w = p) (process_posture db rep) (\<lambda>_. told_status p) (\<lambda>w. published w = p)
   \<and> valid (\<lambda>w. published w = p) (update_endpoint_status i status event') (\<lambda>_. told_status p) (told_status p)
   \<and> valid (\<lambda>_. True) (update_endpoint_status i status event')
       (\<lambda>r w. case r of Inr e \<Rightarrow> ep_status e = status | Inl _ \<Rightarrow> True) (\<lambda>_. True)"
proof -
  have "valid (\<lambda>_. True) (update_endpoint_status i status event')
       (\<lambda>r w. case r of Inr e \<Rightarrow> ep_status e = status | Inl _ \<Rightarrow> True) (\<lambda>_. True)"
    by (rule valid_weaken [OF update_endpoint_status_response]) (auto split: sum.split)
  moreover have "keeps (\<lambda>w. published w = p) (process_auth_response db (resp\<lparr>ar_success := False\<rparr>))"
    by (rule auth_failure_quiet) simp
  ultimately show ?thesis
    using process_event_told process_auth_response_told process_posture_told update_endpoint_status_told
    by blast
qed

text \<open>
  C13 (error). A posture report whose device identifier is not a hardware address, as the UUID that the
  agent gateway puts into it is not, changes nothing and fails.
\<close>

theorem posture_by_agent_id_lost:
  assumes "mac_in db (sr_device_id req) = None"
  shows "\<exists>e. process_posture db (posture_of now req) w = (Err e, tick w)"
  using posture_of_agent_id [of db "posture_of now req" w] assms by (simp add: posture_of_def)

theorem posture_by_agent_id_lost_witness:
  "\<exists>e. process_posture (plain_pg\<lparr>mac_in := (\<lambda>s. if length s = 17 then Some s else None)\<rparr>)
     (posture_of 0 \<lparr>sr_device_id = ''123e4567-e89b-12d3-a456-426614174000'', sr_os = [], sr_os_version = [],
        sr_installed_software = [], sr_missing_patches = [], sr_usb_enabled = False,
        sr_bluetooth_enabled = False, sr_folder_sharing_enabled = False\<rparr>) seeded_world
     = (Err e, tick seeded_world)"
  by (rule posture_by_agent_id_lost) simp

section \<open>Evaluation over all devices\<close>


definition witness_device :: endpoint_row where
  "witness_device = new_endpoint \<lparr>up_mac_address = ''02:00:00:00:00:01'', up_ip_address = None,
     up_hostname = None, up_os_family = Some ''Linux'', up_os_version = Some ''10.2'', up_device_type = None,
     up_vendor = None, up_interface = None, up_agent_id = None\<rparr> ''02:00:00:00:00:01'' None seeded_world"

definition witness_world :: world where
  "witness_world = seeded_world\<lparr>endpoints := [witness_device], fresh := 5\<rparr>"






text \<open>
  C16 (equivalence). Comparing two version texts compares their numeric components, a missing one being
  0, at the first place where they differ; swapping the arguments reverses the result.
\<close>

theorem version_order_is_lexicographic:
  "compare_os_version a b =
     (if \<exists>j. nth_or_0 (parse_version a) j \<noteq> nth_or_0 (parse_version b) j then
        (let j = (LEAST j. nth_or_0 (parse_version a) j \<noteq> nth_or_0 (parse_version b) j) in
         if nth_or_0 (parse_version a) j < nth_or_0 (parse_version b) j then Less else Greater)
      else Equal)
   \<and> compare_os_version b a = (case compare_os_version a b of Less \<Rightarrow> Greater | Equal \<Rightarrow> Equal | Greater \<Rightarrow> Less)"
  unfolding compare_os_version_def
proof (rule conjI [OF _ compare_from_swap])
qed (simp only: compare_from_spec [of "parse_version a" "parse_version b" 0] le0 simp_thms)

section \<open>Messages and stored texts\<close>

text \<open>
  C17 (roundtrip). What one service writes as JSON the other reads as what was meant: the events of the
  sensor, and those of the ARP synchronisation, which leave five fields out; the enforcement commands,
  with their absent fields as null; the reports of the agent gateway; the responses of the portal, read
  with their identifiers as UUIDs or refused; and the software and the conditions of policies that the
  database stores.
\<close>

theorem messages_read_back:
  assumes "i64_range (de_timestamp e)" and "i64_range (pr_timestamp r)" and "i64_range now"
  shows "read_endpoint_event (endpoint_event_json e) = Some e
    \<and> (case detected_event mac ip now of
         OtherEvent subject j \<Rightarrow> read_endpoint_event j = Some (arp_sync_event mac ip now) | _ \<Rightarrow> False)
    \<and> read_command (command_json c) = Some c
    \<and> read_report (report_json r) = Some r
    \<and> read_auth_response uuid_in (auth_event_json a) =
        (case auth_message uuid_in a of AuthResponse x \<Rightarrow> Some x | _ \<Rightarrow> None)
    \<and> read_vec read_software (softwares_json items) = Some items
    \<and> read_vec (read_condition buffered) (stored_conditions cs) = Some cs"
proof -
  have "case detected_event mac ip now of
      OtherEvent subject j \<Rightarrow> read_endpoint_event j = Some (arp_sync_event mac ip now) | _ \<Rightarrow> False"
    by (rule detected_event_read [OF assms(3), of mac ip]) simp
  then show ?thesis
    using event.get_put [OF assms(1)] report.get_put [OF assms(2)] command.get_put softwares.get_put
      conditions.get_put auth_event_read
    by (simp only: stored_conditions_def simp_thms)
qed

definition witness_report :: posture_report where
  "witness_report = \<lparr>device_id = ''02:00:00:00:00:01'', pr_os = ''linux'', pr_os_version = ''6'',
     installed_software = [\<lparr>sw_name = ''a'', sw_version = ''1''\<rparr>], missing_patches = [], usb_enabled = False,
     bluetooth_enabled = True, folder_sharing_enabled = False, pr_timestamp = 7\<rparr>"

theorem messages_read_back_witness:
  "read_endpoint_event (endpoint_event_json (arp_sync_event ''02:00:00:00:00:01'' ''10.0.0.9'' 7)) =
      Some (arp_sync_event ''02:00:00:00:00:01'' ''10.0.0.9'' 7)
    \<and> read_report (report_json witness_report) = Some witness_report"
proof -
  have "i64_range (de_timestamp (arp_sync_event ''02:00:00:00:00:01'' ''10.0.0.9'' 7))"
    "i64_range (pr_timestamp witness_report)" "i64_range 7"
    by (simp_all add: i64_range_def arp_sync_event_def witness_report_def)
  from messages_read_back [OF this] show ?thesis by blast
qed

text \<open>
  C18 (functional). A policy stored with a list of conditions in their JSON form becomes a rule of its
  priority that matches, for the engine as for the bulk evaluation, exactly when all of the conditions
  do, and whose decision stands for the status of its action.
\<close>

theorem stored_policy_decides:
  "\<exists>rule. to_policy_rule (with_json db) (row\<lparr>po_conditions := stored_conditions cs\<rparr>) = Ok rule
    \<and> pr_name rule = po_name row \<and> pr_priority rule = po_priority row
    \<and> (\<forall>ctx. matches_condition (pr_condition rule) ctx \<longleftrightarrow> list_all (\<lambda>c. matches_condition c ctx) cs)
    \<and> (\<forall>ep. condition_matches (with_json db) (pr_condition rule) ep \<longleftrightarrow>
          list_all (\<lambda>c. condition_matches (with_json db) c ep) cs)
    \<and> decision_to_status (pr_decision rule) =
        (if po_action row = ''allow'' then ''allowed''
         else if po_action row = ''quarantine'' then ''quarantined'' else ''denied'')"
proof -
  obtain rule where "to_policy_rule (with_json db) (row\<lparr>po_conditions := stored_conditions cs\<rparr>) = Ok rule"
    and "pr_name rule = po_name row" "pr_priority rule = po_priority row"
    and "\<And>ctx. matches_condition (pr_condition rule) ctx \<longleftrightarrow> list_all (\<lambda>c. matches_condition c ctx) cs"
    and "\<And>ep. condition_matches (with_json db) (pr_condition rule) ep \<longleftrightarrow>
          list_all (\<lambda>c. condition_matches (with_json db) c ep) cs"
    and "decision_to_status (pr_decision rule) =
        (if po_action row = ''allow'' then ''allowed''
         else if po_action row = ''quarantine'' then ''quarantined'' else ''denied'')"
    by (rule stored_rule [of "row\<lparr>po_conditions := stored_conditions cs\<rparr>" cs db]) simp_all
  then show ?thesis by (intro exI [of _ rule]) simp
qed

text \<open>
  C19 (error). One enabled policy whose conditions cannot be read stops all policy decisions: under any
  faults the handler of detected devices and the bulk evaluation fail and publish nothing, and posture
  reports and logins, whatever they do to the tables, publish nothing either.
\<close>

theorem unreadable_policy_silences:
  assumes "pol \<in> set (policies w)" and "po_enabled pol" and "\<not> readable db pol"
  shows "(case process_event db event w of (Err e, w') \<Rightarrow> published w' = published w | _ \<Rightarrow> False)
    \<and> (case evaluate_policies db dflt w of (Err e, w') \<Rightarrow> published w' = published w | _ \<Rightarrow> False)
    \<and> published (snd (process_posture db rep w)) = published w
    \<and> published (snd (process_auth_response db resp w)) = published w"
proof -
  have "some_unreadable db (policies w)" using assms by (auto simp: some_unreadable_def list_ex_iff)
  note silent = silent_handlers [OF this, of "published w"]
  have fails: "case m w of (Err e, w') \<Rightarrow> published w' = published w | _ \<Rightarrow> False"
    if "silent (published w) (policies w) False m" for m :: "'a io"
    using silentD [OF that] by (cases "m w"; cases "fst (m w)") auto
  show ?thesis
    by (intro conjI fails silent(1) fails silent(2) silentD(1) [OF silent(3)] silentD(1) [OF silent(4)])
qed

text \<open>The policies of the migrations with their conditions, and a policy that somebody sends to the API.\<close>

definition default_policies :: "policy_row list" where
  "default_policies =
     [seed_policy 0 ''default-allow'' 9999 ''allow'' None,
      (seed_policy 1 ''quarantine-unknown'' 10 ''quarantine'' (Some 99))
        \<lparr>po_conditions := JArr [tagged ''compliant'' ''required'' (JBool False)]\<rparr>,
      (seed_policy 2 ''allow-corp-devices'' 50 ''allow'' (Some 10))
        \<lparr>po_conditions := JArr [tagged ''os_family'' ''value'' (JStr ''Windows'')]\<rparr>,
      (seed_policy 3 ''deny-blacklist'' 1 ''deny'' None)\<lparr>po_enabled := False\<rparr>]"

lemma default_policies_seeded: "seeded default_policies"
  by (simp add: seeded_def default_policies_def seed_policy_def)

definition default_world :: world where
  "default_world = witness_world\<lparr>policies := default_policies\<rparr>"

definition sent_policy :: create_policy where
  "sent_policy = \<lparr>cp_name = ''guests'', cp_description = None, cp_priority = 5, cp_conditions = Some (JStr ''any''),
     cp_action = ''quarantine'', cp_vlan_id = None\<rparr>"

theorem unreadable_policy_silences_witness:
  "\<forall>event. case process_event (with_json plain_pg) event (snd (api_create_policy sent_policy default_world)) of
     (Err e, w') \<Rightarrow> published w' = [] | _ \<Rightarrow> False"
proof
  fix event
  let ?w = "snd (api_create_policy sent_policy default_world)"
  have stored: "\<exists>row. policies ?w = default_policies @ [row] \<and> po_enabled row \<and> po_conditions row = JStr ''any''"
    "published ?w = []"
    by (simp_all add: api_create_policy_def po_create_def stmt_delivered default_world_def witness_world_def
        seeded_world_def io_bind_def respond_def default_policies_def seed_policy_def sent_policy_def policy_actions_def Let_def)
  then obtain row where "policies ?w = default_policies @ [row]" and en: "po_enabled row" "po_conditions row = JStr ''any''"
    by blast
  then have row: "row \<in> set (policies ?w)" "po_enabled row" "po_conditions row = JStr ''any''" by simp_all
  then have "\<not> readable (with_json plain_pg) row" by (simp add: readable_def)
  from unreadable_policy_silences [OF row(1,2) this] stored(2)
  show "case process_event (with_json plain_pg) event ?w of (Err e, w') \<Rightarrow> published w' = [] | _ \<Rightarrow> False"
    by metis
qed

text \<open>
  C20 (safety). With the policies of the migrations a sighting opens the network: when nothing fails, an
  event about any device that is not allowed, be it new, quarantined or denied by an operator, exempt
  from policies or assigned one, stores it as allowed and publishes the command that allows it.
\<close>

theorem sighting_opens_the_network:
  assumes "mac_in db (de_mac_address event) = Some m"
    and "cast_inet db (if de_ip_address event = [] then None else Some (de_ip_address event)) = Ok ip"
    and "schedule w = []" and "store_inv w" and "seeded (policies w)"
    and "stored_status m (endpoints w) \<noteq> ''allowed''"
  shows "\<exists>w' i c. process_event (with_json db) event w = (Ok (), w') \<and> row_at i m ''allowed'' (endpoints w')
    \<and> published w' = published w @ [Enforcement c] \<and> cmd_mac_address c = m \<and> cmd_action c = ''allow''"
  using sighting_allows [OF assms] by (auto simp: commanded_allowed)

definition exempt_denied :: endpoint_row where
  "exempt_denied = witness_device\<lparr>ep_status := ''denied'', ep_policy_exempt := True\<rparr>"

lemma default_store: "store_inv (default_world\<lparr>endpoints := [exempt_denied]\<rparr>)"
  by (simp add: store_inv_def endpoints_ok_def sessions_ok_def policies_ok_def default_world_def witness_world_def
      witness_device_def exempt_denied_def new_endpoint_def seeded_world_def seed_policy_def default_policies_def
      agents_ok_def statuses_def policy_actions_def)

theorem sighting_opens_the_network_witness:
  "\<exists>w' i. process_event (with_json plain_pg) (arp_sync_event ''02:00:00:00:00:01'' ''10.0.0.9'' 0)
      (default_world\<lparr>endpoints := [exempt_denied]\<rparr>) = (Ok (), w')
    \<and> row_at i ''02:00:00:00:00:01'' ''allowed'' (endpoints w')"
proof -
  have ip: "cast_inet plain_pg (if de_ip_address (arp_sync_event ''02:00:00:00:00:01'' ''10.0.0.9'' 0) = [] then None
      else Some (de_ip_address (arp_sync_event ''02:00:00:00:00:01'' ''10.0.0.9'' 0))) = Ok (Some ''10.0.0.9'')"
    by (simp add: cast_inet_def plain_pg_def arp_sync_event_def)
  have "mac_in plain_pg (de_mac_address (arp_sync_event ''02:00:00:00:00:01'' ''10.0.0.9'' 0)) = Some ''02:00:00:00:00:01''"
    by (simp add: plain_pg_def arp_sync_event_def)
  from sighting_opens_the_network [OF this ip _ default_store] show ?thesis
    by (auto simp: default_world_def witness_world_def seeded_world_def default_policies_seeded stored_status_def
        find_row_def exempt_denied_def witness_device_def new_endpoint_def)
qed

section \<open>Restart and ARP rounds\<close>

text \<open>
  C21 (safety). After a reconciliation that succeeds, whatever faults it met on the way, no device is
  allowed on the strength of an earlier login.
\<close>

theorem restart_requires_login:
  "valid (\<lambda>w. True) reconcile
     (\<lambda>_ w. \<not> list_ex (\<lambda>r. ep_status r = ''allowed'' \<and> ep_username r \<noteq> None) (endpoints w)) (\<lambda>w. True)"
  by (rule valid_weaken [OF reconcile_resets])
     (auto simp: none_authenticated_def needs_reauth_def list_ex_iff)

text \<open>
  C22 (liveness). A reconciliation without faults completes, and every device that is denied or
  quarantined after it, and every enabled rule on an address, has its command on the bus.
\<close>

theorem restart_reapplies_enforcement:
  assumes "schedule w = []"
  shows "\<exists>w'. reconcile w = (Ok (), w')
    \<and> endpoints w' = update_rows needs_reauth
        (\<lambda>r. r\<lparr>ep_status := ''quarantined'', ep_username := None\<rparr>) (endpoints w)
    \<and> (\<forall>r \<in> set (endpoints w'). ep_status r \<in> {''denied'', ''quarantined''} \<longrightarrow>
         enforced_command (ep_mac_address r, ep_ip_address r, ep_status r) \<in> set (published w'))
    \<and> (\<forall>r \<in> set (ip_rules w). ir_enabled r \<longrightarrow>
         set (rule_command (ir_ip_cidr r, ir_action r)) \<subseteq> set (published w'))"
  using assms by (rule reconcile_reapplies)

theorem restart_reapplies_enforcement_witness:
  "\<exists>w'. reconcile (witness_world\<lparr>endpoints := [witness_device\<lparr>ep_status := ''denied''\<rparr>]\<rparr>) = (Ok (), w')
     \<and> plain_command ''02:00:00:00:00:01'' [] ''block'' \<in> set (published w')"
proof -
  let ?w = "witness_world\<lparr>endpoints := [witness_device\<lparr>ep_status := ''denied''\<rparr>]\<rparr>"
  have "schedule ?w = []" by (simp add: witness_world_def seeded_world_def)
  from restart_reapplies_enforcement [OF this] obtain w' where w': "reconcile ?w = (Ok (), w')"
      "endpoints w' = [witness_device\<lparr>ep_status := ''denied''\<rparr>]"
      "\<forall>r \<in> set (endpoints w'). ep_status r \<in> {''denied'', ''quarantined''} \<longrightarrow>
         enforced_command (ep_mac_address r, ep_ip_address r, ep_status r) \<in> set (published w')"
    by (auto simp: update_rows_def needs_reauth_def)
  then show ?thesis
    by (auto simp: enforced_command_def witness_device_def new_endpoint_def plain_ip_def)
qed

text \<open>
  C23 (safety). An ARP round in which no device shows the address it showed as a candidate in the round
  before changes no stored device, one sighting of a new address not being enough; and no round, under
  any faults, publishes a message about the address of a default gateway, as a device or as the target of
  enforcement.
\<close>

theorem arp_rounds_are_careful:
  assumes "mset (order (arp_map content)) = mset (arp_map content)"
    and "\<forall>(m, i) \<in> set (arp_map content). pend m \<noteq> Some i"
  shows "keeps (\<lambda>w. endpoints w = es) (arp_sync db now (Some content) route order pend)
    \<and> keeps (only_speaks (\<lambda>m. \<exists>x. message_ip m = Some x \<and> x \<notin> set (detect_default_gateways route)) p)
        (arp_sync db' now' arp route order' pend')"
  by (intro conjI arp_sync_debounce assms arp_sync_spares_gateways)

theorem arp_rounds_are_careful_witness:
  "keeps (\<lambda>w. endpoints w = [witness_device])
     (arp_sync plain_pg 0 (Some ''IP address\<newline>10.0.0.9 0x1 0x2 02:00:00:00:00:01'') None (\<lambda>x. x) Map.empty)"
  by (rule arp_rounds_are_careful [where p = "[]" and db' = plain_pg and now' = 0 and arp = None
        and order' = "\<lambda>x. x" and pend' = Map.empty, THEN conjunct1]) auto

section \<open>The RADIUS server\<close>

text \<open>
  C24 (roundtrip). A packet whose attributes fit parses back from its encoding, and the response sent
  with a response authenticator parses to the same packet with the digest of the packet under the
  request's authenticator and the shared secret in place of its own.
\<close>

theorem radius_packets_read_back:
  assumes "packet_ok pkt" and "length request_auth = 16" and md5: "\<And>x. length (md5 x) = 16"
  shows "radius_parse (radius_encode pkt) = Ok pkt
    \<and> radius_parse (encode_with_response_auth md5 pkt request_auth secret) =
        Ok (pkt\<lparr>rp_authenticator := md5 (radius_encode (pkt\<lparr>rp_authenticator := request_auth\<rparr>) @ secret)\<rparr>)"
proof -
  have "packet_ok (pkt\<lparr>rp_authenticator := md5 x\<rparr>)" for x
    using assms(1) md5 by (simp add: packet_ok_def)
  then show ?thesis
    unfolding encode_with_response_auth_eq [OF assms]
    using radius_parse_encode assms(1) by blast
qed

definition witness_packet :: radius_packet where
  "witness_packet = \<lparr>rp_code = CODE_ACCESS_ACCEPT, rp_identifier = 9, rp_authenticator = replicate 16 1,
     rp_attributes = [\<lparr>attr_type = ATTR_REPLY_MESSAGE, attr_value = [104, 105]\<rparr>]\<rparr>"

theorem radius_packets_read_back_witness:
  "radius_parse (radius_encode witness_packet) = Ok witness_packet"
proof -
  have "packet_ok witness_packet"
    by (simp add: packet_ok_def witness_packet_def short_attrs_def)
  from radius_packets_read_back [OF this, of "replicate 16 2" "\<lambda>_. replicate 16 0" "[]"] show ?thesis by simp
qed

text \<open>
  C25 (roundtrip). A password hidden the way a client hides it (blocks of 16 bytes, each combined with
  the digest of the secret and the block before it) is recovered exactly, unless it ends in a zero byte.
\<close>

theorem pap_password_recovered:
  assumes "\<And>x. length (md5 x) = 16" and "pw = [] \<or> last pw \<noteq> 0"
  shows "decrypt_pap_password md5 (concat (pap_encrypt md5 secret auth (pap_blocks pw))) secret auth = pw"
  using assms by (rule decrypt_encrypt_pap)

theorem pap_password_recovered_witness:
  "decrypt_pap_password (\<lambda>x. replicate 16 (of_nat (length x)))
     (concat (pap_encrypt (\<lambda>x. replicate 16 (of_nat (length x))) [7] (replicate 16 3) (pap_blocks [112, 119])))
     [7] (replicate 16 3) = [112, 119]"
  by (rule pap_password_recovered) simp_all

text \<open>
  C26 (safety). An access request is accepted only for a device that is stored as allowed or
  quarantined under the request's hardware address, or, when the request carries no address, for the
  administrator's name and password; a quarantined device is accepted into the quarantine VLAN.
\<close>

theorem access_only_for_known_devices:
  assumes "fst (handle_access_request db md5 env pkt secret w) = Ok resp"
    and "rp_code resp = CODE_ACCESS_ACCEPT"
  shows "(request_mac pkt = None \<and> pap_authenticated md5 env pkt secret)
    \<or> (\<exists>mac e. request_mac pkt = Some mac \<and> e \<in> set (endpoints w) \<and> mac_in db mac = Some (ep_mac_address e)
         \<and> (ep_status e = ''allowed'' \<or> ep_status e = ''quarantined''
              \<and> get_attr resp ATTR_TUNNEL_PRIVATE_GROUP_ID =
                  Some (0 # as_bytes (dec (unat (runwrap_or 99 (env_vlan env ''RADIUS_QUARANTINE_VLAN'')))))))"
proof (cases "request_mac pkt")
  case None
  then show ?thesis using accept_only_known [OF assms] by simp
next
  case (Some mac)
  have resp: "access_response md5 env pkt secret (\<lambda>mac. fst (ep_find_by_mac db mac w)) = resp"
    using assms(1) by (simp add: handle_access_request_response)
  obtain e where e: "fst (ep_find_by_mac db mac w) = Ok (Some e)"
    using resp assms(2) Some
    by (auto simp: access_response_def split: rust.splits option.splits prod.splits)
  have st: "ep_status e = ''allowed'' \<or> ep_status e = ''quarantined''"
    using resp assms(2) Some e
    by (auto simp: access_response_def radius_decision_def split: if_splits)
  have "ep_status e = ''quarantined'' \<Longrightarrow> get_attr resp ATTR_TUNNEL_PRIVATE_GROUP_ID =
      Some (0 # as_bytes (dec (unat (runwrap_or 99 (env_vlan env ''RADIUS_QUARANTINE_VLAN'')))))"
    using quarantined_vlan [OF Some e _ assms(1)] by blast
  with st ep_find_by_mac_SomeD [OF e] Some show ?thesis by blast
qed

definition witness_access :: radius_packet where
  "witness_access = \<lparr>rp_code = CODE_ACCESS_REQUEST, rp_identifier = 9, rp_authenticator = replicate 16 1,
     rp_attributes = [\<lparr>attr_type = ATTR_CALLING_STATION_ID, attr_value = as_bytes ''02-00-00-00-00-01''\<rparr>]\<rparr>"

lemma witness_access_mac: "request_mac witness_access = Some ''02:00:00:00:00:01''"
proof -
  have "from_utf8 (as_bytes ''02-00-00-00-00-01'') = Some ''02-00-00-00-00-01''"
    by (rule from_utf8_as_bytes) (simp add: ccode_def)
  moreover have "aaa_normalize_mac ''02-00-00-00-00-01'' = Some ''02:00:00:00:00:01''"
    by (simp add: aaa_normalize_mac_def hex_digits_def is_ascii_hexdigit_def is_digit_ascii_def ccode_def
      lower_char_def is_upper_ascii_def)
  ultimately show ?thesis
    by (simp add: request_mac_def witness_access_def attr_text_def get_attr_def)
qed

theorem access_only_for_known_devices_witness:
  "\<exists>e. e \<in> set (endpoints (witness_world\<lparr>endpoints := [witness_device\<lparr>ep_status := ''allowed''\<rparr>]\<rparr>))
     \<and> ep_status e = ''allowed''"
proof -
  let ?e = "witness_device\<lparr>ep_status := ''allowed''\<rparr>"
  let ?w = "witness_world\<lparr>endpoints := [?e]\<rparr>"
  let ?md5 = "\<lambda>_ :: bytes. replicate 16 (0 :: u8)"
  let ?resp = "access_response ?md5 (\<lambda>_. None) witness_access [] (\<lambda>mac. fst (ep_find_by_mac plain_pg mac ?w))"
  have find: "fst (ep_find_by_mac plain_pg ''02:00:00:00:00:01'' ?w) = Ok (Some ?e)"
    by (simp add: ep_find_by_mac_def stmt_def witness_world_def seeded_world_def plain_pg_def find_row_def
        witness_device_def new_endpoint_def)
  have "fst (handle_access_request plain_pg ?md5 (\<lambda>_. None) witness_access [] ?w) = Ok ?resp"
    by (rule handle_access_request_response)
  moreover have "rp_code ?resp = CODE_ACCESS_ACCEPT"
    using find by (simp add: access_response_def witness_access_mac radius_decision_def)
  ultimately show ?thesis
    using access_only_for_known_devices [of plain_pg ?md5 "\<lambda>_. None" witness_access "[]" ?w ?resp]
    by (auto simp: witness_access_mac)
qed

section \<open>The firewall\<close>

text \<open>
  C27 (equivalence). What the installed rules do, read off: the forward chain drops exactly the packets
  of a hardware or IP address in one of the four sets, and the input chain drops exactly the packets of
  a blocked address that are neither of an open connection, nor for the management ports of an allowed
  manager, nor for the captive portal.
\<close>

theorem installed_rules_verdict:
  "(chain_verdict sets forward_rules p = Drop \<longleftrightarrow>
     pk_ether p \<in> sets SET_BLOCK \<or> pk_ether p \<in> sets SET_QUARANTINE \<or>
     pk_ip p \<in> sets SET_BLOCK_IP \<or> pk_ip p \<in> sets SET_QUARANTINE_IP)
   \<and> (chain_verdict sets (input_rules ips) p = Drop \<longleftrightarrow>
     (pk_ether p \<in> sets SET_BLOCK \<or> pk_ip p \<in> sets SET_BLOCK_IP)
     \<and> \<not> pk_established p \<and> \<not> mgmt_hit ips sets p \<and> \<not> portal_hit sets p)"
  by (simp only: forward_verdict input_rules_verdict split: if_split) blast


definition witness_frame :: packet where
  "witness_frame = \<lparr>pk_ether = nft_mac ''02:00:00:00:00:01'', pk_ip = ''10.0.0.9'', pk_udp = False,
     pk_dport = ''443'', pk_established = False\<rparr>"


text \<open>
  C29 (termination). With iptables-legacy that keeps its documented behaviour and the two chains
  installed, every loop that deletes repeated rules ends: any sequence of actions completes, and the
  last one that concerns a device decides about its packets, save those for name resolution and the
  portal.
\<close>

theorem legacy_last_action_decides:
  assumes "ipt_works exec rules_in" and "rules_in k CHAIN_BLOCK = Some bs" and "rules_in k CHAIN_QUARANTINE = Some qs"
    and "plain bs" and "\<forall>(a', mac', ip') \<in> set ds. \<not> ipt_touches mac' ip' p"
    and "ipt_touches mac ip p" and "\<not> ipt_spared p"
  shows "\<exists>k'. fw_run (fw_act exec IptablesLegacy) (cs @ (a, mac, ip) # ds) k = Some k' \<and>
     ipt_dropped (the (rules_in k' CHAIN_BLOCK), the (rules_in k' CHAIN_QUARANTINE)) p = (a \<noteq> Permit)"
proof -
  note k = ipt_kernel.intro [OF assms(1)]
  have "ipt_kernel.good rules_in k"
    using assms(2-4) by (simp add: ipt_kernel.good_def [OF k] ipt_kernel.at_def [OF k])
  from ipt_kernel.last_action [OF k this assms(5-7)]
  show ?thesis by (simp add: ipt_kernel.dropped_def [OF k])
qed

theorem legacy_last_action_decides_witness:
  "\<exists>k'. fw_run (fw_act ipt_exec IptablesLegacy) [(Block, ''02:00:00:00:00:01'', None),
       (Permit, ''02:00:00:00:00:01'', None)] (Map.empty(CHAIN_BLOCK \<mapsto> [], CHAIN_QUARANTINE \<mapsto> [])) = Some k'"
proof -
  let ?p = "witness_frame\<lparr>pk_ether := ipt_mac ''02:00:00:00:00:01''\<rparr>"
  let ?k = "Map.empty(CHAIN_BLOCK \<mapsto> [], CHAIN_QUARANTINE \<mapsto> []) :: string \<Rightarrow> ipt_rule list option"
  have p: "ipt_touches ''02:00:00:00:00:01'' None ?p" "\<not> ipt_spared ?p"
    by (simp_all add: ipt_touches_def ipt_spared_def witness_frame_def CAPTIVE_PORT_def ipt_nft_mac)
  have k: "?k CHAIN_BLOCK = Some []" "?k CHAIN_QUARANTINE = Some []"
    by (simp_all add: CHAIN_BLOCK_def CHAIN_QUARANTINE_def)
  show ?thesis
    using legacy_last_action_decides [OF ipt_exec_works, of ?k "[]" "[]" "[]" ?p "''02:00:00:00:00:01''" None
      "[(Block, ''02:00:00:00:00:01'', None)]" Permit] k p
    by (auto simp: plain_def simp del: fw_run.simps)
qed

section \<open>Enforcement\<close>



definition block_command :: enforcement_command where
  "block_command = \<lparr>cmd_mac_address = ''02:00:00:00:00:01'', cmd_ip_address = ''10.0.0.9'',
     cmd_action = ''block'', cmd_gateway_ip = [], cmd_gateway_mac = None, cmd_vlan_id = None\<rparr>"

definition witness_row :: endpoint_row where
  "witness_row = new_endpoint \<lparr>up_mac_address = ''02:00:00:00:00:01'', up_ip_address = Some ''10.0.0.9'', up_hostname = None,
    up_os_family = None, up_os_version = None, up_device_type = None, up_vendor = None, up_interface = None,
    up_agent_id = None\<rparr> ''02:00:00:00:00:01'' (Some ''10.0.0.9'') (tick (tick seeded_world))"

lemmas concrete_world = seeded_world_def plain_pg_def seed_policy_def stmt_def tick_def



lemma witness_row_simps [simp]: "ep_id witness_row = 4" "ep_mac_address witness_row = ''02:00:00:00:00:01''"
  "ep_ip_address witness_row = Some ''10.0.0.9''" "ep_os_family witness_row = None" "ep_device_type witness_row = None"
  "ep_username witness_row = None" "ep_status witness_row = ''pending''"
  by (simp_all add: witness_row_def new_endpoint_def concrete_world)











definition idle_agent :: "(string \<Rightarrow> string list) enforcement" where
  "idle_agent = \<lparr>kernel = (\<lambda>_. []), qstate = Map.empty, sent = [], send_fails = [], spoofer = None,
     proc_route = None, proc_arp = None\<rparr>"


text \<open>
  C31 (safety). The reinforcement loop, acting on a table it read before an allow command was carried
  out, blocks the allowed device again in the kernel, while the table no longer has the device.
\<close>

theorem stale_snapshot_blocks_again:
  assumes "nft_works exec sets" and "is_allow_action (cmd_action cmd)"
    and "qstate s (to_lowercase (cmd_mac_address cmd)) = Some e"
    and "pk_ether p = nft_mac (cmd_mac_address cmd)"
  shows "\<exists>s1 s2. consume exec Nft (Some cmd) s = Some (Ok (), s1)
    \<and> qstate s1 (to_lowercase (cmd_mac_address cmd)) = None
    \<and> reinforce exec Nft (reinforce_snapshot [to_lowercase (cmd_mac_address cmd)] s) s1 = Some (Ok (), s2)
    \<and> qstate s2 = qstate s1 \<and> nft_dropped (sets (kernel s2)) p"
  using stale_round_reblocks [OF assms] .

definition busy_agent :: "(string \<Rightarrow> string list) enforcement" where
  "busy_agent = idle_agent\<lparr>qstate := [to_lowercase ''02:00:00:00:00:01'' \<mapsto>
     \<lparr>victim_ip = Ipv4 10 0 0 9, victim_mac = Mac 2 0 0 0 0 1, gateway_ip = Ipv4 10 0 0 1, qe_action = NBlock\<rparr>]\<rparr>"

theorem stale_snapshot_blocks_again_witness:
  "\<exists>s1 s2. consume nft_exec Nft (Some (block_command\<lparr>cmd_action := ''allow''\<rparr>)) busy_agent = Some (Ok (), s1)
    \<and> reinforce nft_exec Nft (reinforce_snapshot [to_lowercase ''02:00:00:00:00:01''] busy_agent) s1 = Some (Ok (), s2)
    \<and> nft_dropped (nft_sets (kernel s2)) witness_frame"
proof -
  let ?cmd = "block_command\<lparr>cmd_action := ''allow''\<rparr>"
  have mac: "cmd_mac_address ?cmd = ''02:00:00:00:00:01''" by (simp add: block_command_def)
  have "is_allow_action (cmd_action ?cmd)" "qstate busy_agent (to_lowercase (cmd_mac_address ?cmd)) \<noteq> None"
    "pk_ether witness_frame = nft_mac (cmd_mac_address ?cmd)"
    unfolding mac by (simp_all add: is_allow_action_def busy_agent_def witness_frame_def)
  then show ?thesis
    using stale_snapshot_blocks_again [OF nft_exec_works, of ?cmd busy_agent _ witness_frame] unfolding mac by blast
qed








section \<open>The captive portal\<close>



section \<open>The API gateway\<close>

text \<open>
  C36 (roundtrip). The administrator's name and password, and nothing else, give a token, and the
  gateway lets requests with that token through for 24 hours and refuses them afterwards.
\<close>

theorem gateway_session:
  assumes "\<And>c. tl_from_json lib (tl_to_json lib c) = Some c" and "now + 86400 < 2 ^ 64"
  shows "case gw_login lib env now secret u p of
      Ok t \<Rightarrow> u = runwrap_or ''admin'' (env ''ADMIN_USER'') \<and> p = runwrap_or ''changeme'' (env ''ADMIN_PASS'')
        \<and> require_auth lib checked secret (Some (''Bearer '' @ t)) = (if checked \<le> now + 86400 then Ok () else Err 401)
    | Err e \<Rightarrow> e = 401 \<and> (u \<noteq> runwrap_or ''admin'' (env ''ADMIN_USER'') \<or> p \<noteq> runwrap_or ''changeme'' (env ''ADMIN_PASS''))
    | Panic \<Rightarrow> False"
  by (rule login_session [OF assms])

text \<open>A text of claims that reads back: the expiry in unary, a zero and the name.\<close>

definition plain_lib :: token_lib where
  "plain_lib = \<lparr>tl_hash = (\<lambda>k d. of_nat (length k * 31 + length d)),
     tl_to_json = (\<lambda>c. replicate (gc_exp c) 1 @ [0] @ as_bytes (gc_sub c)),
     tl_from_json = (\<lambda>bs. Some \<lparr>gc_sub = string_of_bytes (tl (dropWhile (\<lambda>b. b = 1) bs)),
       gc_exp = length (takeWhile (\<lambda>b. b = 1) bs)\<rparr>)\<rparr>"

lemma plain_lib_reads: "tl_from_json plain_lib (tl_to_json plain_lib c) = Some c"
proof -
  have "takeWhile (\<lambda>b. b = 1) (replicate n 1 @ 0 # bs) = replicate n (1 :: u8)"
    "dropWhile (\<lambda>b. b = 1) (replicate n 1 @ 0 # bs) = (0 :: u8) # bs" for n bs
    by (induction n) simp_all
  then show ?thesis by (simp add: plain_lib_def)
qed

theorem gateway_session_witness:
  "\<exists>t. gw_login plain_lib (\<lambda>_. None) 5 [1] ''admin'' ''changeme'' = Ok t
     \<and> require_auth plain_lib 86405 [1] (Some (''Bearer '' @ t)) = Ok ()
     \<and> gw_login plain_lib (\<lambda>_. None) 5 [1] ''admin'' ''admin'' = Err 401"
proof -
  have "(5 :: nat) + 86400 < 2 ^ 64" by simp
  note session = gateway_session [OF plain_lib_reads this, where env = "\<lambda>_. None" and secret = "[1]" and checked = 86405]
  from session [of "''admin''" "''changeme''"] session [of "''admin''" "''admin''"] show ?thesis
    by (auto split: rust.splits)
qed



section \<open>Sensor and agent\<close>







text \<open>
  C40 (liveness). The session of an endpoint agent, when nothing fails: with the token it was given at
  its registration, after any number of failed attempts, each report is published as what was collected
  then, for a day and the minute of leeway; from then on no report is, because the agent never
  registers again.
\<close>

theorem agent_session_lasts_a_day:
  assumes "jwt_works lib"
    and "register db (sign_token lib secret) t0 ip (agent_register_request tp0 sys) w0 = (Ok (Inr token), w1)"
    and "register_loop tp0 failures = None" and "register_loop tp0 (failures @ [Some (Inr token)]) = Some tp"
    and "header_ok (''Bearer '' @ token)" and "schedule w = []"
  shows "published (serve_reports (\<lambda>now. verify_token lib now secret) (report_loop p header_ok sys tp ticks) w) =
      published w @ map (\<lambda>(now, h). PostureEvent (posture_of now (agent_turn p h sys tp)))
        (filter (\<lambda>(now, h). now \<le> t0 + 24 * 3600 + 60) ticks)"
  using assms by (rule session_reports)

definition bare_host :: host where
  "bare_host = \<lparr>h_file = (\<lambda>_. None), h_dir = (\<lambda>_. None), h_run = (\<lambda>_ _. None), h_env = (\<lambda>_. None),
     h_win_list = (\<lambda>_. None), h_win_one = (\<lambda>_. None), h_mac_apps = (\<lambda>_. None)\<rparr>"

definition bare_system :: system_info where
  "bare_system = collect_system Linux ''0.1.0''
     \<lparr>si_hostname = None, si_cpu_num = None, si_mem_total = None, si_os_type = None, si_os_release = None\<rparr> bare_host"

text \<open>A library whose only key is empty and whose tokens for one device are as long as their expiry.\<close>

definition plain_jwt :: jwt_library where
  "plain_jwt = \<lparr>jl_encode = (\<lambda>alg c secret.
       if alg = HS256 \<and> secret = [] \<and> 0 < cl_exp c \<and> cl_sub c = ''d'' \<and> cl_groups c = [] \<and> cl_iat c = cl_exp c - 86400
       then Some (replicate (nat (cl_exp c)) CHR ''x'') else None),
     jl_decode = (\<lambda>v now token secret.
       if vd_validate_exp v \<and> int (length token) < now - vd_leeway v then None
       else Some \<lparr>cl_sub = ''d'', cl_groups = [], cl_exp = int (length token), cl_iat = int (length token) - 86400\<rparr>)\<rparr>"

lemma plain_jwt_works: "jwt_works plain_jwt"
  by (auto simp: jwt_works_def plain_jwt_def)

definition agent_system :: system_info where
  "agent_system = bare_system\<lparr>sy_primary_mac := ''02:00:00:00:00:01''\<rparr>"

lemma agent_registers:
  "\<exists>w1. register plain_pg (sign_token plain_jwt []) 0 None
     (agent_register_request \<lparr>tp_device_id = ''d'', tp_token = None\<rparr> agent_system) seeded_world
     = (Ok (Inr (replicate 86400 CHR ''x'')), w1)"
proof -
  have "agent_normalize_mac ''02:00:00:00:00:01'' = Some ''02:00:00:00:00:01''" by code_simp
  then show ?thesis
    by (simp add: register_def register_endpoint_def agent_register_request_def agent_system_def Let_def io_bind_def
        io_ok_def ep_upsert_by_agent_id_def ep_upsert_def stmt_delivered seeded_world_def cast_inet_def find_row_def
        agent_taken_def flatten_def sign_token_def plain_jwt_def plain_pg_def)
qed

theorem agent_session_lasts_a_day_witness:
  "\<exists>e. published (serve_reports (\<lambda>now. verify_token plain_jwt now [])
      (report_loop Linux (\<lambda>_. True) agent_system \<lparr>tp_device_id = ''d'', tp_token = Some (replicate 86400 CHR ''x'')\<rparr>
        [(60, bare_host), (90000, bare_host)]) seeded_world) = [PostureEvent e]"
proof -
  let ?t = "replicate 86400 CHR ''x''"
  have nonempty: "?t \<noteq> []" by (simp only: replicate_empty)
  then have reg: "register_loop \<lparr>tp_device_id = ''d'', tp_token = None\<rparr> ([None] @ [Some (Inr ?t)]) =
      Some \<lparr>tp_device_id = ''d'', tp_token = Some ?t\<rparr>"
    by (simp only: append_Cons append_Nil register_loop.simps agent_register_def option.case sum.case prod.case
        if_False transport.simps)
  have lost: "register_loop \<lparr>tp_device_id = ''d'', tp_token = None\<rparr> [None] = None"
    by (simp add: agent_register_def)
  obtain w1 where w1: "register plain_pg (sign_token plain_jwt []) 0 None
     (agent_register_request \<lparr>tp_device_id = ''d'', tp_token = None\<rparr> agent_system) seeded_world = (Ok (Inr ?t), w1)"
    using agent_registers by blast
  have calm: "schedule seeded_world = []" "published seeded_world = []" by (simp_all add: seeded_world_def)
  note session = agent_session_lasts_a_day [OF plain_jwt_works w1 lost reg TrueI calm(1),
      of Linux "[(60, bare_host), (90000, bare_host)]"]
  show ?thesis by (rule exI, rule trans [OF session]) (simp add: calm(2))
qed

end
